(* ===== verification/CSM_Prelude.thy ===== *)
theory CSM_Prelude
  imports Main "HOL-Library.Word"
begin

unbundle bit_operations_syntax

text \<open>
  Shared ground of the development.  It holds the machine-integer types of the C sources, the
  flat physical memory that CSMWrap and the CSM16 image both address, little-endian encoding of
  integers in that memory, and the list lemmas behind \<^verbatim>\<open>memmove\<close> on arrays.

  Two collections steer the automation: \<open>mem_simps\<close> rewrites reads of a memory after a write,
  \<open>array_simps\<close> rewrites the live prefix of an array after a shift.
\<close>

section \<open>Machine integers and result codes\<close>

type_synonym u8 = "8 word"
type_synonym u16 = "16 word"
type_synonym u32 = "32 word"
type_synonym u64 = "64 word"

named_theorems mem_simps \<open>reads of the flat memory after writes\<close>
named_theorems array_simps \<open>the live prefix of an array after shifting elements\<close>

lemma ucast_u32_u64_back [simp]: "ucast (ucast x :: u64) = (x :: u32)"
  by (rule bit_word_eqI) (simp add: bit_simps)

lemma ucast_u32_u64_inj [simp]: "(ucast x :: u64) = ucast y \<longleftrightarrow> x = (y :: u32)"
  using ucast_u32_u64_back by metis

section \<open>Flat memory\<close>

text \<open>
  Physical memory is identity mapped in CSMWrap and flat in the 32-bit part of SeaBIOS, so one
  total function from byte addresses to bytes serves both.
\<close>

type_synonym mem = "nat \<Rightarrow> u8"

definition load_bytes :: "mem \<Rightarrow> nat \<Rightarrow> nat \<Rightarrow> u8 list" where
  "load_bytes m a n = map (\<lambda>i. m (a + i)) [0..<n]"

definition store_bytes :: "nat \<Rightarrow> u8 list \<Rightarrow> mem \<Rightarrow> mem" where
  "store_bytes a bs m = (\<lambda>x. if a \<le> x \<and> x < a + length bs then bs ! (x - a) else m x)"

lemma length_load_bytes [simp]: "length (load_bytes m a n) = n"
  by (simp add: load_bytes_def)

lemma nth_load_bytes [simp]: "i < n \<Longrightarrow> load_bytes m a n ! i = m (a + i)"
  by (simp add: load_bytes_def)

lemma store_bytes_Nil [simp]: "store_bytes a [] m = m"
  by (rule ext) (auto simp: store_bytes_def)

lemma store_bytes_in: "a \<le> x \<Longrightarrow> x < a + length bs \<Longrightarrow> store_bytes a bs m x = bs ! (x - a)"
  by (simp add: store_bytes_def)

lemma store_bytes_out [mem_simps]:
  "x < a \<or> a + length bs \<le> x \<Longrightarrow> store_bytes a bs m x = m x"
  by (auto simp: store_bytes_def)

lemma load_store_same [mem_simps]:
  "n = length bs \<Longrightarrow> load_bytes (store_bytes a bs m) a n = bs"
  by (rule nth_equalityI) (simp_all add: store_bytes_def)

lemma load_store_disjoint [mem_simps]:
  "a + n \<le> b \<or> b + length bs \<le> a \<Longrightarrow> load_bytes (store_bytes b bs m) a n = load_bytes m a n"
  by (rule nth_equalityI) (auto simp: store_bytes_def)

lemma load_store_inside:
  "b \<le> a \<Longrightarrow> a + n \<le> b + length bs \<Longrightarrow>
   load_bytes (store_bytes b bs m) a n = take n (drop (a - b) bs)"
  by (rule nth_equalityI) (auto simp: store_bytes_def)

lemma store_load_bytes: "store_bytes a (load_bytes m a n) m = m"
  by (rule ext) (auto simp: store_bytes_def)

lemma load_bytes_append: "load_bytes m a (n + k) = load_bytes m a n @ load_bytes m (a + n) k"
  by (rule nth_equalityI) (auto simp: nth_append)

lemma store_bytes_append:
  "store_bytes a (xs @ ys) m = store_bytes (a + length xs) ys (store_bytes a xs m)"
  by (rule ext) (auto simp: store_bytes_def nth_append)

section \<open>Little-endian integers\<close>

lemma unat_bound [simp]:
  "unat (b :: u8) < 256" "unat (h :: u16) < 65536" "unat (w :: u32) < 4294967296"
  using unsigned_less [of b] unsigned_less [of h] unsigned_less [of w] by simp_all

definition le_bytes :: "nat \<Rightarrow> 'a::len word \<Rightarrow> u8 list" where
  "le_bytes n w = map (\<lambda>i. ucast (drop_bit (8 * i) w)) [0..<n]"

fun of_le :: "u8 list \<Rightarrow> 'a::len word" where
  "of_le [] = 0"
| "of_le (b # bs) = (ucast b OR push_bit 8 (of_le bs))"

lemma length_le_bytes [simp]: "length (le_bytes n w) = n"
  by (simp add: le_bytes_def)

lemma bit_of_le:
  "bit (of_le bs :: 'a::len word) k \<longleftrightarrow>
     k < LENGTH('a) \<and> k div 8 < length bs \<and> bit (bs ! (k div 8)) (k mod 8)"
proof (induction bs arbitrary: k)
  case Nil
  then show ?case by simp
next
  case (Cons b bs)
  show ?case
  proof (cases "k < 8")
    case True
    then show ?thesis by (auto simp: bit_simps)
  next
    case False
    then have k: "k div 8 = Suc ((k - 8) div 8)" "k mod 8 = (k - 8) mod 8"
      by (simp_all add: le_div_geq le_mod_geq)
    have "\<not> bit b k"
      using False by (auto dest: bit_imp_le_length)
    then show ?thesis
      using False Cons.IH [of "k - 8"] by (auto simp: bit_simps k dest: bit_imp_le_length)
  qed
qed

lemma of_le_Cons_add: "of_le (b # bs) = ucast b + push_bit 8 (of_le bs :: 'a::len word)"
proof -
  have "ucast b AND push_bit 8 (of_le bs :: 'a word) = 0"
    by (rule bit_word_eqI) (auto simp: bit_simps dest: bit_imp_le_length)
  then show ?thesis by (simp add: disjunctive_add_eq_or)
qed

lemma unat_ucast_up [simp]:
  "unat (ucast (b :: u8) :: u16) = unat b" "unat (ucast (b :: u8) :: u32) = unat b"
  "unat (ucast (b :: u8) :: u64) = unat b" "unat (ucast (h :: u16) :: u32) = unat h"
  "unat (ucast (h :: u16) :: u64) = unat h" "unat (ucast (w :: u32) :: u64) = unat w"
  by (simp_all add: unsigned_ucast_eq unsigned_take_bit_eq [symmetric] take_bit_word_eq_self
      del: unsigned_take_bit_eq)

lemma ucast_down_up [simp]:
  "(ucast (ucast (b :: u8) :: u16) :: u8) = b" "(ucast (ucast (b :: u8) :: u32) :: u8) = b"
  "(ucast (ucast (b :: u8) :: u64) :: u8) = b" "(ucast (ucast (h :: u16) :: u32) :: u16) = h"
  "(ucast (ucast (h :: u16) :: u64) :: u16) = h"
  by (rule bit_word_eqI, simp add: bit_simps)+

lemma word_bit_bound:
  assumes "unat (x :: 'a::len word) < 2 ^ k" "bit x n"
  shows "n < k"
proof -
  have "bit (unat x) n" using assms(2) by (simp add: bit_unsigned_iff bit_imp_le_length)
  moreover have "take_bit k (unat x) = unat x" using assms(1) by (rule take_bit_nat_eq_self)
  ultimately show ?thesis by (metis bit_take_bit_iff)
qed

lemma unat_pred: "w \<noteq> 0 \<Longrightarrow> unat (w - 1) = unat w - 1"
  using unat_sub [of 1 w] by (simp add: word_le_nat_alt Suc_le_eq unat_gt_0)

lemma unat_ucast_mod: "unat (ucast (w :: 'a::len word) :: 'b::len word) = unat w mod 2 ^ LENGTH('b)"
  by (simp add: unsigned_ucast_eq take_bit_eq_mod)

lemma unat_pow: "n < LENGTH('a) \<Longrightarrow> unat (2 ^ n :: 'a::len word) = 2 ^ n"
proof -
  assume "n < LENGTH('a)"
  then have "(2 :: nat) ^ n mod 2 ^ LENGTH('a) = 2 ^ n" by (intro mod_less power_strict_increasing) simp_all
  then have "unat (of_nat (2 ^ n) :: 'a word) = 2 ^ n" by (simp only: unat_of_nat)
  then show ?thesis by simp
qed

lemma unat_shiftr: "unat (drop_bit n w) = unat w div 2 ^ n"
  unfolding unat_drop_bit_eq by (simp add: drop_bit_eq_div)

lemma unat_and_mask: "unat (w AND mask n) = unat w mod 2 ^ n"
  unfolding take_bit_eq_mask [symmetric] unsigned_take_bit_eq by (simp add: take_bit_eq_mod)

lemma unat_and_not_mask: "unat (w AND NOT (mask k) :: 'a::len word) = unat w - unat w mod 2 ^ k"
proof -
  have "(w AND NOT (mask k)) AND (w AND mask k) = 0" by (rule bit_word_eqI) (auto simp: bit_simps)
  moreover have "(w AND NOT (mask k)) OR (w AND mask k) = w" by (rule bit_word_eqI) (auto simp: bit_simps)
  ultimately have "w AND NOT (mask k) = w - (w AND mask k)"
    by (simp add: disjunctive_add_eq_or eq_diff_eq)
  moreover have "unat (w - (w AND mask k)) = unat w - unat (w AND mask k)"
    by (rule unat_sub) (simp add: word_and_le2)
  ultimately show ?thesis by (simp add: unat_and_mask)
qed

lemma ucast_u16_mod: "(ucast (w :: u32) :: u16) = of_nat (unat w mod 65536)"
proof -
  have "(of_nat (unat w mod 65536) :: u16) = of_nat (unat w)"
    by (simp only: word_of_nat_eq_iff) (simp add: take_bit_eq_mod)
  then show ?thesis by simp
qed

lemma nth_le_bytes: "i < n \<Longrightarrow> le_bytes n w ! i = ucast (drop_bit (8 * i) w)"
  by (simp add: le_bytes_def)

lemma of_le_le_bytes: "LENGTH('a) \<le> 8 * n \<Longrightarrow> of_le (le_bytes n w) = (w :: 'a::len word)"
  by (rule bit_word_eqI) (auto simp: bit_of_le nth_le_bytes bit_simps less_mult_imp_div_less)

lemma ucast_of_le:
  "8 * length bs \<le> LENGTH('a) \<Longrightarrow> ucast (of_le bs :: 'a::len word) = (of_le bs :: 'b::len word)"
  by (rule bit_word_eqI) (auto simp: bit_simps bit_of_le less_mult_imp_div_less div_less_iff_less_mult)

lemma le_bytes_ucast: "8 * n \<le> LENGTH('a) \<Longrightarrow> le_bytes n (ucast v :: 'a::len word) = le_bytes n (v :: 'b::len word)"
proof (rule nth_equalityI)
  fix i assume n: "8 * n \<le> LENGTH('a)" and i: "i < length (le_bytes n (ucast v :: 'a word))"
  have "k + 8 * i < LENGTH('a)" if "k < 8" for k using n i that by simp
  then show "le_bytes n (ucast v :: 'a word) ! i = le_bytes n v ! i"
    using i by (intro bit_word_eqI) (auto simp: nth_le_bytes bit_simps ac_simps)
qed simp

text \<open>Reading the bytes back from their integer.\<close>

lemma le_bytes_of_le: "length bs = n \<Longrightarrow> 8 * n \<le> LENGTH('a) \<Longrightarrow> le_bytes n (of_le bs :: 'a::len word) = bs"
proof (rule nth_equalityI)
  fix i assume i: "length bs = n" "8 * n \<le> LENGTH('a)" "i < length (le_bytes n (of_le bs :: 'a word))"
  have "(8 * i + k) div 8 = i \<and> (8 * i + k) mod 8 = k" if "k < 8" for k using that by simp
  then show "le_bytes n (of_le bs :: 'a word) ! i = bs ! i"
    using i by (intro bit_word_eqI) (auto simp: nth_le_bytes bit_of_le bit_simps)
qed simp

lemma load_bytes_le: "8 * n \<le> LENGTH('a) \<Longrightarrow> load_bytes m a n = le_bytes n (of_le (load_bytes m a n) :: 'a::len word)"
  by (simp add: le_bytes_of_le)

definition load16 :: "mem \<Rightarrow> nat \<Rightarrow> u16" where
  "load16 m a = of_le (load_bytes m a 2)"

definition load32 :: "mem \<Rightarrow> nat \<Rightarrow> u32" where
  "load32 m a = of_le (load_bytes m a 4)"

definition load64 :: "mem \<Rightarrow> nat \<Rightarrow> u64" where
  "load64 m a = of_le (load_bytes m a 8)"

definition store16 :: "nat \<Rightarrow> u16 \<Rightarrow> mem \<Rightarrow> mem" where
  "store16 a w = store_bytes a (le_bytes 2 w)"

definition store32 :: "nat \<Rightarrow> u32 \<Rightarrow> mem \<Rightarrow> mem" where
  "store32 a w = store_bytes a (le_bytes 4 w)"

definition store64 :: "nat \<Rightarrow> u64 \<Rightarrow> mem \<Rightarrow> mem" where
  "store64 a w = store_bytes a (le_bytes 8 w)"

lemma load32_store32 [mem_simps]: "load32 (store32 a w m) a = w"
  by (simp add: load32_def store32_def mem_simps of_le_le_bytes)

lemma load16_store16 [mem_simps]: "load16 (store16 a w m) a = w"
  by (simp add: load16_def store16_def mem_simps of_le_le_bytes)

lemma load64_store64 [mem_simps]: "load64 (store64 a w m) a = w"
  by (simp add: load64_def store64_def mem_simps of_le_le_bytes)

lemma load32_store_bytes_out [mem_simps]:
  "a + 4 \<le> b \<or> b + length bs \<le> a \<Longrightarrow> load32 (store_bytes b bs m) a = load32 m a"
  by (simp add: load32_def load_store_disjoint)

lemma load32_store32_out [mem_simps]:
  "a + 4 \<le> b \<or> b + 4 \<le> a \<Longrightarrow> load32 (store32 b w m) a = load32 m a"
  by (simp add: store32_def load32_store_bytes_out)

lemma store32_out [mem_simps]: "x < a \<or> a + 4 \<le> x \<Longrightarrow> store32 a w m x = m x"
  by (simp add: store32_def store_bytes_out)

lemma store32_load32: "store32 a (load32 m a) m = m"
proof (rule ext)
  fix x
  show "store32 a (load32 m a) m x = m x"
  proof (cases "a \<le> x \<and> x < a + 4")
    case True
    then have "le_bytes 4 (load32 m a) ! (x - a) = m x"
      by (intro bit_word_eqI)
        (auto simp: nth_le_bytes load32_def bit_of_le bit_simps nth_load_bytes)
    with True show ?thesis by (simp add: store32_def store_bytes_def)
  qed (auto simp: store32_def store_bytes_def)
qed

lemma store32_store32 [mem_simps]: "store32 a v (store32 a w m) = store32 a v m"
  by (rule ext) (auto simp: store32_def store_bytes_def)

section \<open>Shifting elements of an array\<close>

text \<open>
  \<open>array_move d s n xs\<close> is the effect of \<^verbatim>\<open>memmove(&xs[d], &xs[s], n * sizeof xs[0])\<close> on an
  array whose indices stay in range; \<open>Libc\<close> proves that the byte-wise \<^verbatim>\<open>memmove\<close> of the source
  has this effect.
\<close>

definition array_move :: "nat \<Rightarrow> nat \<Rightarrow> nat \<Rightarrow> 'a list \<Rightarrow> 'a list" where
  "array_move d s n xs =
     map (\<lambda>k. if d \<le> k \<and> k < d + n then xs ! (s + (k - d)) else xs ! k) [0..<length xs]"

lemma length_array_move [simp]: "length (array_move d s n xs) = length xs"
  by (simp add: array_move_def)

lemma take_array_remove [array_simps]:
  "i < c \<Longrightarrow> c \<le> length xs \<Longrightarrow>
   take (c - Suc 0) (array_move i (Suc i) (c - Suc i) xs) = take i xs @ drop (Suc i) (take c xs)"
  by (rule nth_equalityI) (auto simp: array_move_def nth_append min_def split: if_splits)

lemma take_array_insert [array_simps]:
  "i \<le> c \<Longrightarrow> c < length xs \<Longrightarrow>
   take (Suc c) ((array_move (Suc i) i (c - i) xs)[i := e]) =
   take i xs @ e # drop i (take c xs)"
  by (rule nth_equalityI)
    (auto simp: array_move_def nth_append nth_list_update nth_Cons' min_def split: if_splits)

end
