(* ===== verification/Libc.thy ===== *)
theory Libc
  imports CSM_Prelude
begin

text \<open>
  The freestanding memory functions of CSMWrap, \<^verbatim>\<open>src/libc.c\<close>: byte loops over a flat memory.
  \<open>block_copy\<close> says what a copy means, reading the whole source before writing; the loops are
  shown equal to it, for \<^verbatim>\<open>memmove\<close> whatever the overlap.  The interface \<open>block_mover\<close> carries the
  step from bytes to arrays of structs that the memory map code relies on.
\<close>

section \<open>What copying and comparing mean\<close>

definition block_copy :: "nat \<Rightarrow> nat \<Rightarrow> nat \<Rightarrow> mem \<Rightarrow> mem" where
  "block_copy d s n m = (\<lambda>x. if d \<le> x \<and> x < d + n then m (s + (x - d)) else m x)"

definition block_fill :: "nat \<Rightarrow> u8 \<Rightarrow> nat \<Rightarrow> mem \<Rightarrow> mem" where
  "block_fill d c n m = (\<lambda>x. if d \<le> x \<and> x < d + n then c else m x)"

lemma load_block_copy: "load_bytes (block_copy d s n m) d n = load_bytes m s n"
  by (simp add: load_bytes_def block_copy_def)

lemma load_block_copy_out:
  "a + k \<le> d \<or> d + n \<le> a \<Longrightarrow> load_bytes (block_copy d s n m) a k = load_bytes m a k"
  by (auto simp: load_bytes_def block_copy_def)

text \<open>The sign of the first difference of two byte strings, 0 if there is none.\<close>

fun bytes_compare :: "u8 list \<Rightarrow> u8 list \<Rightarrow> int" where
  "bytes_compare (a # as) (b # bs) =
     (if a = b then bytes_compare as bs else if a < b then -1 else 1)"
| "bytes_compare _ _ = 0"

lemma bytes_compare_eq: "length xs = length ys \<Longrightarrow> bytes_compare xs ys = 0 \<longleftrightarrow> xs = ys"
  by (induction xs ys rule: list_induct2) auto

lemma bytes_compare_swap: "length xs = length ys \<Longrightarrow> bytes_compare ys xs = - bytes_compare xs ys"
  by (induction xs ys rule: list_induct2) auto

section \<open>The functions of \<^verbatim>\<open>libc.c\<close>\<close>

text \<open>Each returns the memory after the call and the value of the C function.\<close>

definition libc_memcpy :: "nat \<Rightarrow> nat \<Rightarrow> nat \<Rightarrow> mem \<Rightarrow> mem \<times> nat" where
  "libc_memcpy dest src n m = (fold (\<lambda>i m. m(dest + i := m (src + i))) [0..<n] m, dest)"

definition libc_memset :: "nat \<Rightarrow> int \<Rightarrow> nat \<Rightarrow> mem \<Rightarrow> mem \<times> nat" where
  "libc_memset s c n m = (fold (\<lambda>i m. m(s + i := word_of_int c)) [0..<n] m, s)"

definition libc_memmove :: "nat \<Rightarrow> nat \<Rightarrow> nat \<Rightarrow> mem \<Rightarrow> mem \<times> nat" where
  "libc_memmove dest src n m =
     (if src > dest then fold (\<lambda>i m. m(dest + i := m (src + i))) [0..<n] m
      else if src < dest then
        fold (\<lambda>i m. m(dest + (i - 1) := m (src + (i - 1)))) (rev [1..<Suc n]) m
      else m,
      dest)"

fun libc_memcmp_loop :: "mem \<Rightarrow> nat \<Rightarrow> nat \<Rightarrow> nat \<Rightarrow> int" where
  "libc_memcmp_loop m p1 p2 0 = 0"
| "libc_memcmp_loop m p1 p2 (Suc n) =
     (if m p1 \<noteq> m p2 then (if m p1 < m p2 then -1 else 1)
      else libc_memcmp_loop m (Suc p1) (Suc p2) n)"

definition libc_memcmp :: "mem \<Rightarrow> nat \<Rightarrow> nat \<Rightarrow> nat \<Rightarrow> int" where
  "libc_memcmp m s1 s2 n = libc_memcmp_loop m s1 s2 n"

section \<open>The loops\<close>

lemma copy_up:
  assumes "d \<le> s \<or> s + n \<le> d"
  shows "fold (\<lambda>i m. m(d + i := m (s + i))) [0..<n] m = block_copy d s n m"
  using assms
proof (induction n)
  case (Suc n)
  then have "block_copy d s n m (s + n) = m (s + n)" by (auto simp: block_copy_def)
  with Suc show ?case by (auto simp: block_copy_def fun_eq_iff)
qed (auto simp: block_copy_def fun_eq_iff)

lemma copy_down:
  assumes "s < d"
  shows "fold (\<lambda>i m. m(d + (i - 1) := m (s + (i - 1)))) (rev [1..<Suc n]) m = block_copy d s n m"
  using assms
proof (induction n arbitrary: m)
  case (Suc n)
  have "rev [1..<Suc (Suc n)] = Suc n # rev [1..<Suc n]" by simp
  with Suc show ?case by (auto simp: block_copy_def fun_eq_iff simp del: upt_Suc)
qed (auto simp: block_copy_def fun_eq_iff)

lemma fill_up: "fold (\<lambda>i m. m(d + i := c)) [0..<n] m = block_fill d c n m"
  by (induction n) (auto simp: block_fill_def fun_eq_iff)

lemma libc_memmove_block: "libc_memmove dest src n m = (block_copy dest src n m, dest)"
  using copy_up [of dest src n m] copy_down [of src dest n m]
  by (auto simp: libc_memmove_def block_copy_def simp del: upt_Suc)

lemma libc_memcmp_bytes:
  "libc_memcmp m s1 s2 n = bytes_compare (load_bytes m s1 n) (load_bytes m s2 n)"
proof -
  have "libc_memcmp_loop m s1 s2 n = bytes_compare (load_bytes m s1 n) (load_bytes m s2 n)"
    by (induction n arbitrary: s1 s2)
      (auto simp: load_bytes_def upt_conv_Cons map_Suc_upt [symmetric] comp_def simp del: upt_Suc)
  then show ?thesis by (simp add: libc_memcmp_def)
qed

section \<open>From bytes to arrays\<close>

text \<open>An array of \<open>len\<close> elements of \<open>sz\<close> bytes at \<open>base\<close>.\<close>

definition array_at :: "nat \<Rightarrow> nat \<Rightarrow> mem \<Rightarrow> nat \<Rightarrow> u8 list list" where
  "array_at sz len m base = map (\<lambda>i. load_bytes m (base + sz * i) sz) [0..<len]"

locale block_mover =
  fixes move :: "nat \<Rightarrow> nat \<Rightarrow> nat \<Rightarrow> mem \<Rightarrow> mem"
  assumes move_block: "move d s n m = block_copy d s n m"
begin

lemma move_element:
  assumes "k < len" "d + n \<le> len" "s + n \<le> len"
  shows "load_bytes (move (base + sz * d) (base + sz * s) (sz * n) m) (base + sz * k) sz =
    (if d \<le> k \<and> k < d + n then load_bytes m (base + sz * (s + (k - d))) sz
     else load_bytes m (base + sz * k) sz)"
proof (cases "d \<le> k \<and> k < d + n")
  case True
  then obtain j where j: "k = d + j" "j < n" by (metis add_less_cancel_left le_Suc_ex)
  have "sz * j + i < sz * n" if "i < sz" for i
    using that j(2) mult_le_mono2 [of "Suc j" n sz] by simp
  then show ?thesis
    using j by (auto simp: load_bytes_def move_block block_copy_def algebra_simps)
next
  case False
  then have "base + sz * k + sz \<le> base + sz * d \<or> base + sz * d + sz * n \<le> base + sz * k"
    using mult_le_mono2 [of "Suc k" d sz] mult_le_mono2 [of "d + n" k sz]
    by (auto simp: algebra_simps)
  then show ?thesis
    by (simp add: False move_block load_block_copy_out)
qed

lemma move_array:
  assumes "d + n \<le> len" "s + n \<le> len"
  shows "array_at sz len (move (base + sz * d) (base + sz * s) (sz * n) m) base =
    array_move d s n (array_at sz len m base)"
proof (rule nth_equalityI)
  fix k assume "k < length (array_at sz len (move (base + sz * d) (base + sz * s) (sz * n) m) base)"
  then have k: "k < len" by (simp add: array_at_def)
  then have "d \<le> k \<and> k < d + n \<Longrightarrow> s + (k - d) < len" using assms by auto
  then show "array_at sz len (move (base + sz * d) (base + sz * s) (sz * n) m) base ! k =
      array_move d s n (array_at sz len m base) ! k"
    using k move_element [OF k assms] by (auto simp: array_at_def array_move_def)
qed (simp add: array_at_def)

end

interpretation libc: block_mover "\<lambda>d s n m. fst (libc_memmove d s n m)"
  by unfold_locales (simp add: libc_memmove_block)

section \<open>Properties\<close>

text \<open>
  C36.  \<^verbatim>\<open>memmove\<close> copies as if through a buffer, for every overlap of source and
  destination, touches nothing else and returns its destination.  On an array of structs,
  moving \<open>n\<close> elements shifts exactly those elements.
\<close>

theorem libc_memmove_correct:
  "load_bytes (fst (libc_memmove dest src n m)) dest n = load_bytes m src n \<and>
   (\<forall>x. x < dest \<or> dest + n \<le> x \<longrightarrow> fst (libc_memmove dest src n m) x = m x) \<and>
   snd (libc_memmove dest src n m) = dest \<and>
   (d + k \<le> len \<and> s + k \<le> len \<longrightarrow>
     array_at sz len (fst (libc_memmove (base + sz * d) (base + sz * s) (sz * k) m)) base =
       array_move d s k (array_at sz len m base))"
  using load_block_copy [of dest src n m] libc.move_array [of d k len s sz base m]
  by (auto simp: libc_memmove_block block_copy_def)

theorem libc_memmove_correct_witness:
  "fst (libc_memmove 101 100 3 (\<lambda>x. of_nat x)) 99 = 99 \<and>
   array_at 2 4 (fst (libc_memmove 2 0 4 (\<lambda>x. of_nat x))) 0 =
     array_move 1 0 2 (array_at 2 4 (\<lambda>x. of_nat x) 0)"
  using libc_memmove_correct [of 101 100 3 "\<lambda>x. of_nat x" 0 0 0 0 0 0]
    libc_memmove_correct [of 0 0 0 "\<lambda>x. of_nat x" 1 2 4 0 2 0]
  by (simp add: numeral_2_eq_2 [symmetric])

text \<open>
  \<^verbatim>\<open>memcpy\<close> (on disjoint blocks) and \<^verbatim>\<open>memset\<close> give the destination the source bytes
  or the fill byte and leave the rest of memory alone; \<^verbatim>\<open>memcmp\<close> is 0 exactly for equal
  blocks and is antisymmetric.
\<close>

theorem libc_mem_correct:
  assumes "dest + n \<le> src \<or> src + n \<le> dest"
  shows "libc_memcpy dest src n m = (block_copy dest src n m, dest) \<and>
    libc_memset dest c n m = (block_fill dest (word_of_int c) n m, dest) \<and>
    (libc_memcmp m dest src n = 0 \<longleftrightarrow> load_bytes m dest n = load_bytes m src n) \<and>
    libc_memcmp m src dest n = - libc_memcmp m dest src n"
  using assms copy_up [of dest src n m]
    bytes_compare_swap [of "load_bytes m dest n" "load_bytes m src n"]
  by (auto simp: libc_memcpy_def libc_memset_def fill_up libc_memcmp_bytes bytes_compare_eq)

theorem libc_mem_correct_witness:
  "libc_memcmp (fst (libc_memcpy 8 0 4 (\<lambda>x. of_nat x))) 8 0 4 = 0"
proof -
  have "fst (libc_memcpy 8 0 4 (\<lambda>x. of_nat x)) = block_copy 8 0 4 (\<lambda>x. of_nat x)"
    using libc_mem_correct [of 8 4 0 "\<lambda>x. of_nat x" 0] by simp
  then show ?thesis
    using libc_mem_correct [of 8 4 0 "block_copy 8 0 4 (\<lambda>x. of_nat x)" 0]
    by (simp add: load_block_copy load_block_copy_out)
qed

end
