(* ===== verification/Seabios_String.thy ===== *)
theory Seabios_String
  imports Libc
begin

text \<open>
  The string functions of the 32-bit flat part of SeaBIOS, \<^verbatim>\<open>seabios/src/string.c\<close>.  \<^verbatim>\<open>memcpy\<close>
  copies doublewords when pointers and length are aligned; it is shown to copy bytes.  The
  variants that address memory through a segment register are inline assembly of the 16-bit
  part and are left out.

  Loops that look for a terminating NUL are partial functions: they return \<open>None\<close> on memory
  without one.  \<^verbatim>\<open>char\<close> is signed in this build, so comparisons of characters use \<^const>\<open>sint\<close>.
\<close>

section \<open>Sums and comparisons\<close>

definition checksum :: "mem \<Rightarrow> nat \<Rightarrow> nat \<Rightarrow> u8" where
  "checksum m buf len = fold (\<lambda>i s. s + m (buf + i)) [0..<len] 0"

partial_function (option) strlen_loop :: "mem \<Rightarrow> nat \<Rightarrow> nat option" where
  "strlen_loop m p = (if m p \<noteq> 0 then strlen_loop m (p + 1) else Some p)"

definition strlen :: "mem \<Rightarrow> nat \<Rightarrow> nat option" where
  "strlen m s = map_option (\<lambda>p. p - s) (strlen_loop m s)"

fun sea_memcmp :: "mem \<Rightarrow> nat \<Rightarrow> nat \<Rightarrow> nat \<Rightarrow> int" where
  "sea_memcmp m s1 s2 0 = 0"
| "sea_memcmp m s1 s2 (Suc n) =
     (if m s1 \<noteq> m s2 then (if m s1 < m s2 then -1 else 1) else sea_memcmp m (s1 + 1) (s2 + 1) n)"

partial_function (option) strcmp :: "mem \<Rightarrow> nat \<Rightarrow> nat \<Rightarrow> int option" where
  "strcmp m s1 s2 =
     (if m s1 \<noteq> m s2 then Some (if sint (m s1) < sint (m s2) then -1 else 1)
      else if m s1 = 0 then Some 0
      else strcmp m (s1 + 1) (s2 + 1))"

section \<open>Filling and copying\<close>

fun sea_memset_loop :: "nat \<Rightarrow> u8 \<Rightarrow> nat \<Rightarrow> mem \<Rightarrow> mem" where
  "sea_memset_loop s c 0 m = m"
| "sea_memset_loop s c (Suc n) m = sea_memset_loop s c n (m(s + n := c))"

definition sea_memset :: "nat \<Rightarrow> int \<Rightarrow> nat \<Rightarrow> mem \<Rightarrow> mem \<times> nat" where
  "sea_memset s c n m = (sea_memset_loop s (word_of_int c) n m, s)"

text \<open>The string instructions \<^verbatim>\<open>rep movsb\<close> and \<^verbatim>\<open>rep movsl\<close> with the direction flag clear.\<close>

definition rep_movsb :: "nat \<Rightarrow> nat \<Rightarrow> nat \<Rightarrow> mem \<Rightarrow> mem" where
  "rep_movsb d s n m = fold (\<lambda>i m. m(d + i := m (s + i))) [0..<n] m"

definition rep_movsl :: "nat \<Rightarrow> nat \<Rightarrow> nat \<Rightarrow> mem \<Rightarrow> mem" where
  "rep_movsl d s n m = fold (\<lambda>i m. store32 (d + 4 * i) (load32 m (s + 4 * i)) m) [0..<n] m"

definition sea_memcpy :: "nat \<Rightarrow> nat \<Rightarrow> nat \<Rightarrow> mem \<Rightarrow> mem \<times> nat" where
  "sea_memcpy d1 s1 len m =
     (if (d1 OR s1 OR len) AND 3 \<noteq> 0 then (rep_movsb d1 s1 len m, d1)
      else (rep_movsl d1 s1 (len div 4) m, d1))"

function iomemcpy :: "nat \<Rightarrow> nat \<Rightarrow> nat \<Rightarrow> mem \<Rightarrow> mem" where
  "iomemcpy d s len m =
     (if len > 3 then
        let copylen = (if len > 2048 then 2048 else len) div 4 in
        iomemcpy (d + 4 * copylen) (s + 4 * copylen) (len - copylen * 4) (rep_movsl d s copylen m)
      else if len \<noteq> 0 then fst (sea_memcpy d s len m) else m)"
  by pat_completeness auto
termination
  by (relation "measure (\<lambda>(d, s, len, m). len)") (auto simp: Let_def)

declare iomemcpy.simps [simp del]

fun memmove_down :: "int \<Rightarrow> int \<Rightarrow> nat \<Rightarrow> mem \<Rightarrow> mem \<times> int" where
  "memmove_down d s 0 m = (m, d)"
| "memmove_down d s (Suc n) m = memmove_down (d - 1) (s - 1) n (m(nat d := m (nat s)))"

definition sea_memmove :: "nat \<Rightarrow> nat \<Rightarrow> nat \<Rightarrow> mem \<Rightarrow> mem \<times> int" where
  "sea_memmove d s len m =
     (if s \<ge> d then (let (m', r) = sea_memcpy d s len m in (m', int r))
      else memmove_down (int d + int len - 1) (int s + int len - 1) len m)"

section \<open>Strings\<close>

function strtcpy_loop :: "nat \<Rightarrow> nat \<Rightarrow> u32 \<Rightarrow> mem \<Rightarrow> mem \<times> nat" where
  "strtcpy_loop d src len m =
     (let len = len - 1 in
      if len \<noteq> 0 \<and> m src \<noteq> 0 then strtcpy_loop (d + 1) (src + 1) len (m(d := m src)) else (m, d))"
  by pat_completeness auto
termination
proof (relation "measure (\<lambda>(d, src, len, m). unat (len - 1))")
  fix d src :: nat and len x :: u32 and m :: mem
  assume "x = len - 1" "x \<noteq> 0 \<and> m src \<noteq> 0"
  then show "((d + 1, src + 1, x, m(d := m src)), (d, src, len, m)) \<in> measure (\<lambda>(d, src, len, m). unat (len - 1))"
    using unat_sub [of 1 x] by (simp add: word_le_nat_alt unat_gt_0 Suc_le_eq)
qed simp

declare strtcpy_loop.simps [simp del]

definition strtcpy :: "nat \<Rightarrow> nat \<Rightarrow> u32 \<Rightarrow> mem \<Rightarrow> mem \<times> nat" where
  "strtcpy dest src len m = (let (m', d) = strtcpy_loop dest src len m in (m'(d := 0), dest))"

partial_function (option) strchr :: "mem \<Rightarrow> nat \<Rightarrow> int \<Rightarrow> nat option option" where
  "strchr m s c =
     (if m s \<noteq> 0 then (if sint (m s) = c then Some (Some s) else strchr m (s + 1) c)
      else Some None)"

fun trim_end :: "nat \<Rightarrow> nat \<Rightarrow> mem \<Rightarrow> mem" where
  "trim_end buf 0 m = m"
| "trim_end buf (Suc k) m =
     (if sint (m (buf + k)) \<le> 32 then trim_end buf k (m(buf + k := 0)) else m)"

partial_function (option) skip_blank :: "mem \<Rightarrow> nat \<Rightarrow> nat option" where
  "skip_blank m buf = (if m buf \<noteq> 0 \<and> sint (m buf) \<le> 32 then skip_blank m (buf + 1) else Some buf)"

definition nullTrailingSpace :: "nat \<Rightarrow> mem \<Rightarrow> (mem \<times> nat) option" where
  "nullTrailingSpace buf m =
     (case strlen m buf of
        None \<Rightarrow> None
      | Some len \<Rightarrow> (let m' = trim_end buf len m in map_option (\<lambda>p. (m', p)) (skip_blank m' buf)))"

section \<open>Copies\<close>

lemma rep_movsb_block:
  "d \<le> s \<or> s + n \<le> d \<Longrightarrow> rep_movsb d s n m = block_copy d s n m"
  by (simp add: rep_movsb_def copy_up)

lemma store32_load32_copy:
  "store32 d (load32 m s) m = block_copy d s 4 m"
proof -
  have "le_bytes 4 (load32 m s) = load_bytes m s 4"
    by (simp add: load32_def le_bytes_of_le)
  then show ?thesis by (auto simp: store32_def store_bytes_def block_copy_def fun_eq_iff)
qed

lemma block_copy_append:
  assumes "d \<le> s \<or> s + n + k \<le> d"
  shows "block_copy (d + n) (s + n) k (block_copy d s n m) = block_copy d s (n + k) m"
  using assms by (auto simp: block_copy_def fun_eq_iff)

lemma rep_movsl_block:
  assumes "d \<le> s \<or> s + 4 * n \<le> d"
  shows "rep_movsl d s n m = block_copy d s (4 * n) m"
  using assms
proof (induction n)
  case 0
  then show ?case by (auto simp: rep_movsl_def block_copy_def fun_eq_iff)
next
  case (Suc n)
  then have "rep_movsl d s n m = block_copy d s (4 * n) m" by auto
  then show ?case
    using Suc.prems block_copy_append [of d s "4 * n" 4 m]
    by (auto simp: rep_movsl_def store32_load32_copy add.commute)
qed

lemma sea_memcpy_block:
  assumes "d \<le> s \<or> s + len \<le> d"
  shows "sea_memcpy d s len m = (block_copy d s len m, d)"
proof (cases "(d OR s OR len) AND 3 = 0")
  case True
  have "len AND 3 = 0"
  proof -
    have "(len AND 3) AND (d OR s OR len) = len AND 3" by (auto intro!: bit_eqI simp: bit_simps)
    then show ?thesis using True by (metis and.assoc and.commute and_zero_eq)
  qed
  then have "len mod 4 = 0" using take_bit_eq_mask [of 2 len]
    by (simp add: take_bit_eq_mod mask_eq_exp_minus_1)
  then have "4 * (len div 4) = len" by presburger
  then show ?thesis using assms rep_movsl_block [of d s "len div 4" m] True by (simp add: sea_memcpy_def)
next
  case False
  then show ?thesis using assms by (simp add: sea_memcpy_def rep_movsb_block)
qed

lemma iomemcpy_block:
  assumes "d \<le> s \<or> s + len \<le> d"
  shows "iomemcpy d s len m = block_copy d s len m"
  using assms
proof (induction d s len m rule: iomemcpy.induct)
  case (1 d s len m)
  show ?case
  proof (cases "len > 3")
    case True
    define c where "c = (if len > 2048 then 2048 else len) div 4"
    have c: "4 * c \<le> len" by (auto simp: c_def)
    have "iomemcpy d s len m = iomemcpy (d + 4 * c) (s + 4 * c) (len - c * 4) (rep_movsl d s c m)"
      using True by (subst iomemcpy.simps) (simp add: Let_def c_def)
    also have "\<dots> = block_copy (d + 4 * c) (s + 4 * c) (len - c * 4) (block_copy d s (4 * c) m)"
      using "1.IH" [OF True c_def] "1.prems" c rep_movsl_block [of d s c m] by auto
    also have "\<dots> = block_copy d s len m"
      using block_copy_append [of d s "4 * c" "len - c * 4" m] "1.prems" c by (auto simp: mult.commute)
    finally show ?thesis .
  next
    case False
    with "1.prems" show ?thesis
      by (auto simp: iomemcpy.simps sea_memcpy_block block_copy_def fun_eq_iff)
  qed
qed

lemma memmove_down_block:
  assumes "s < d"
  shows "memmove_down (int d + int n - 1) (int s + int n - 1) n m = (block_copy d s n m, int d - 1)"
  using assms
proof (induction n arbitrary: m)
  case (Suc n)
  have "nat (int d + int (Suc n) - 1) = d + n" "nat (int s + int (Suc n) - 1) = s + n" by simp_all
  then have "memmove_down (int d + int (Suc n) - 1) (int s + int (Suc n) - 1) (Suc n) m =
      (block_copy d s n (m(d + n := m (s + n))), int d - 1)"
    using Suc by (simp add: algebra_simps)
  with Suc.prems show ?case by (auto simp: block_copy_def fun_eq_iff)
qed (auto simp: block_copy_def fun_eq_iff)

lemma sea_memmove_block:
  "sea_memmove d s len m = (block_copy d s len m, if s \<ge> d then int d else int d - 1)"
  by (simp add: sea_memmove_def sea_memcpy_block memmove_down_block)

interpretation sea_libc: block_mover "\<lambda>d s n m. fst (sea_memmove d s n m)"
  by unfold_locales (simp add: sea_memmove_block)

section \<open>Terminated strings\<close>

text \<open>A string of \<open>n\<close> characters at \<open>p\<close>: the first NUL is at \<open>p + n\<close>.\<close>

definition string_at :: "mem \<Rightarrow> nat \<Rightarrow> nat \<Rightarrow> bool" where
  "string_at m p n \<longleftrightarrow> (\<forall>i < n. m (p + i) \<noteq> 0) \<and> m (p + n) = 0"

lemma string_at_0 [simp]: "string_at m p 0 \<longleftrightarrow> m p = 0"
  by (simp add: string_at_def)

lemma string_at_Suc: "string_at m p (Suc n) \<longleftrightarrow> m p \<noteq> 0 \<and> string_at m (Suc p) n"
  by (auto simp: string_at_def All_less_Suc2)

lemma strlen_string: "string_at m p n \<Longrightarrow> strlen_loop m p = Some (p + n)"
proof (induction n arbitrary: p)
  case 0
  then show ?case by (simp add: strlen_loop.simps)
next
  case (Suc n)
  then show ?case by (subst strlen_loop.simps) (simp add: string_at_Suc)
qed

lemma strcmp_string:
  "string_at m s1 n \<Longrightarrow> string_at m s2 k \<Longrightarrow>
   \<exists>r. strcmp m s1 s2 = Some r \<and> (r = 0 \<longleftrightarrow> load_bytes m s1 n = load_bytes m s2 k)"
proof (induction n arbitrary: k s1 s2)
  case 0
  then show ?case
    by (cases k) (auto simp: strcmp.simps [of m s1 s2] string_at_Suc load_bytes_def)
next
  case (Suc n)
  have bytes: "load_bytes m p (Suc j) = m p # load_bytes m (Suc p) j" for p j
    by (simp add: load_bytes_def upt_conv_Cons map_Suc_upt [symmetric] comp_def del: upt_Suc)
  show ?case
  proof (cases k)
    case 0
    with Suc.prems show ?thesis by (auto simp: strcmp.simps [of m s1 s2] string_at_Suc load_bytes_def)
  next
    case (Suc j)
    with Suc.prems Suc.IH [of "Suc s1" "Suc s2" j] show ?thesis
      by (auto simp: strcmp.simps [of m s1 s2] string_at_Suc bytes)
  qed
qed

lemma strtcpy_loop_string:
  assumes "string_at m src n" "len \<noteq> 0" "d + n < src \<or> src + n < d"
  shows "strtcpy_loop d src len m =
    (block_copy d src (min n (unat len - 1)) m, d + min n (unat len - 1))"
  using assms
proof (induction n arbitrary: d src len m)
  case 0
  then show ?case by (subst strtcpy_loop.simps) (auto simp: block_copy_def fun_eq_iff)
next
  case (Suc n)
  have u: "unat (len - 1) = unat len - 1" using Suc.prems(2) by (rule unat_pred)
  show ?case
  proof (cases "len - 1 = 0")
    case True
    then have "unat len - 1 = 0" using u by simp
    with True show ?thesis by (subst strtcpy_loop.simps) (auto simp: block_copy_def fun_eq_iff)
  next
    case False
    define m1 where "m1 = m(d := m src)"
    have "string_at m1 (Suc src) n"
      using Suc.prems by (auto simp: string_at_Suc string_at_def m1_def)
    moreover have "Suc d + n < Suc src \<or> Suc src + n < Suc d" using Suc.prems(3) by auto
    ultimately have "strtcpy_loop (Suc d) (Suc src) (len - 1) m1 =
        (block_copy (Suc d) (Suc src) (min n (unat len - 2)) m1, Suc d + min n (unat len - 2))"
      using Suc.IH [of m1 "Suc src" "len - 1" "Suc d"] False by (simp add: u numeral_2_eq_2)
    moreover have "block_copy (Suc d) (Suc src) j m1 = block_copy d src (Suc j) m" if "j \<le> n" for j
      using Suc.prems(3) that by (auto simp: block_copy_def fun_eq_iff m1_def intro!: arg_cong [where f = m])
    moreover have "unat len - 1 \<noteq> 0" using False u by (metis unat_eq_zero)
    then have "Suc (min n (unat len - 2)) = min (Suc n) (unat len - 1)" by auto
    ultimately show ?thesis
      using Suc.prems False by (subst strtcpy_loop.simps) (simp add: string_at_Suc m1_def)
  qed
qed

section \<open>Properties\<close>

text \<open>
  C37.  SeaBIOS's \<^verbatim>\<open>memmove\<close>, which picks a doubleword copy, a byte copy or a descending loop,
  leaves the same memory as CSMWrap's byte-wise \<^verbatim>\<open>memmove\<close>, for every overlap; so do \<^verbatim>\<open>memcpy\<close>
  and the chunked \<^verbatim>\<open>iomemcpy\<close> where source and destination do not overlap upwards.  On its
  descending path \<^verbatim>\<open>memmove\<close> returns the address before its destination.
\<close>

theorem sea_memmove_correct:
  "fst (sea_memmove d s n m) = fst (libc_memmove d s n m) \<and>
   snd (sea_memmove d s n m) = (if s < d then int d - 1 else int d) \<and>
   (d \<le> s \<or> s + n \<le> d \<longrightarrow>
     sea_memcpy d s n m = libc_memmove d s n m \<and> iomemcpy d s n m = fst (libc_memmove d s n m))"
  by (auto simp: sea_memmove_block libc_memmove_block sea_memcpy_block iomemcpy_block)

theorem sea_memmove_correct_witness:
  "iomemcpy 0x100 0x200 0x30 (\<lambda>x. of_nat x) = fst (libc_memmove 0x100 0x200 0x30 (\<lambda>x. of_nat x)) \<and>
   snd (sea_memmove 8 4 2 (\<lambda>x. of_nat x)) = 7"
  using sea_memmove_correct [of "0x100" "0x200" "0x30" "\<lambda>x. of_nat x"]
    sea_memmove_correct [of 8 4 2 "\<lambda>x. of_nat x"] by simp

text \<open>
  \<^verbatim>\<open>strtcpy\<close> on a terminated string and a buffer of at least one byte copies the string up to
  the buffer size less one, terminates it, and writes nothing behind the buffer.
\<close>

theorem strtcpy_bounded:
  assumes "string_at m src n" "len \<noteq> 0" "dest + n < src \<or> src + n < dest"
    and "strtcpy dest src len m = (m', r)"
  shows "r = dest \<and> string_at m' dest (min n (unat len - 1)) \<and>
    load_bytes m' dest (min n (unat len - 1)) = load_bytes m src (min n (unat len - 1)) \<and>
    (\<forall>x. x < dest \<or> dest + unat len \<le> x \<longrightarrow> m' x = m x)"
proof -
  define k where "k = min n (unat len - 1)"
  have l: "k < unat len" using assms(2) by (auto simp: k_def unat_gt_0 min_less_iff_disj)
  have m': "m' = (block_copy dest src k m)(dest + k := 0)" "r = dest"
    using strtcpy_loop_string [OF assms(1-3)] assms(4) by (auto simp: strtcpy_def k_def)
  have "string_at m' dest k"
    using assms(1) by (auto simp: m' string_at_def block_copy_def k_def)
  moreover have "load_bytes m' dest k = load_bytes m src k"
    by (rule nth_equalityI) (auto simp: m' block_copy_def)
  moreover have "m' x = m x" if "x < dest \<or> dest + unat len \<le> x" for x
    using that l by (auto simp: m' block_copy_def)
  ultimately show ?thesis using m'(2) by (simp add: k_def)
qed

theorem strtcpy_bounded_witness:
  "string_at (fst (strtcpy 0x20 0 3 (\<lambda>x. if x < 5 then 65 else 0))) 0x20 2"
proof -
  have "string_at (\<lambda>x. if x < 5 then 65 else 0) 0 5" by (simp add: string_at_def)
  from strtcpy_bounded [OF this, of 3 "0x20"] show ?thesis
    by (cases "strtcpy 0x20 0 3 (\<lambda>x. if x < 5 then 65 else 0)") simp
qed



end
