(* ===== verification/Palette.thy ===== *)
theory Palette
  imports Seabios_String "HOL-Library.Signed_Division"
begin

unbundle bit_operations_syntax

text \<open>
  The palette emulator that turns 4, 8, 16, 24 and 32 bit guest pixels into the pixels of a linear
  framebuffer (\<^verbatim>\<open>seabios/vgasrc/cbvga_palette_emulator.c\<close>), and the bootstrap copy of its tables in
  CSMWrap itself (\<^verbatim>\<open>src/cbvga_palette_emulator.c\<close>).

  The globals of the emulator are one record.  C ints that the code never lets overflow are \<open>int\<close>,
  pointers are 32-bit words and the shadow buffer and the framebuffer live in the flat memory.
  \<open>cbvga_pal_flush\<close> returns \<open>None\<close> where the C code divides by zero, and
  \<open>cbvga_emul_set_palette\<close> where it writes outside its array.  Shift counts of 32 and more, which C
  leaves undefined, are not given a meaning: the theorems bound the mask sizes and positions.
\<close>

section \<open>Tables\<close>

type_synonym rgb = "u8 \<times> u8 \<times> u8"

definition default_vga_palette :: "rgb list" where
  "default_vga_palette =
     [(0, 0, 0), (0, 0, 42), (0, 42, 0), (0, 42, 42),
      (42, 0, 0), (42, 0, 42), (42, 21, 0), (42, 42, 42),
      (21, 21, 21), (21, 21, 63), (21, 63, 21), (21, 63, 63),
      (63, 21, 21), (63, 21, 63), (63, 63, 21), (63, 63, 63)]"

text \<open>
  The loops of \<^verbatim>\<open>init_vga256_palette\<close> fill the table from index 0 upwards without gaps: the 16 classic
  colours, the colour cube and the grey ramp follow one another.
\<close>

definition init_vga256_palette :: "rgb list" where
  "init_vga256_palette =
     default_vga_palette
     @ concat (map (\<lambda>r. concat (map (\<lambda>g. map (\<lambda>b.
           (of_nat (r * 63 div 5), of_nat (g * 63 div 5), of_nat (b * 63 div 5))) [0..<6]) [0..<6])) [0..<6])
     @ map (\<lambda>i. let val = of_nat (i * 63 div 23) in (val, val, val)) [0..<24]"

section \<open>State\<close>

record emul =
  cbvga_palette :: "rgb list"
  cbvga_palette_argb :: "u32 list"
  default_vga256_palette :: "rgb list"
  g_shadow_ptr :: u32
  g_dst_ptr :: u32
  g_src_pitch :: int
  g_dst_pitch :: int
  g_width :: int
  g_height :: int
  g_src_bpp :: int
  g_dst_bpp :: int
  g_red_mask_size :: u8
  g_green_mask_size :: u8
  g_blue_mask_size :: u8
  g_red_mask_pos :: u8
  g_green_mask_pos :: u8
  g_blue_mask_pos :: u8

text \<open>The fields of the current VBE mode that the emulator reads.\<close>

record vbe_mode_info =
  bytes_per_scanline :: u16
  bits_per_pixel :: u8
  red_size :: u8
  red_pos :: u8
  green_size :: u8
  green_pos :: u8
  blue_size :: u8
  blue_pos :: u8
  linear_bytes_per_scanline :: u16

section \<open>Nearest colours\<close>

definition chan_r :: "u32 \<Rightarrow> u8" where "chan_r c = ucast c"
definition chan_g :: "u32 \<Rightarrow> u8" where "chan_g c = ucast (drop_bit 8 c)"
definition chan_b :: "u32 \<Rightarrow> u8" where "chan_b c = ucast (drop_bit 16 c)"

definition colour_dist :: "u32 \<Rightarrow> rgb \<Rightarrow> int" where
  "colour_dist c = (\<lambda>(p0, p1, p2).
     let pr = uint p0 * 4; pg = uint p1 * 4; pb = uint p2 * 4;
         dr = uint (chan_r c) - pr; dg = uint (chan_g c) - pg; db = uint (chan_b c) - pb
     in dr * dr + dg * dg + db * db)"

fun nearest_loop :: "u32 \<Rightarrow> rgb list \<Rightarrow> nat \<Rightarrow> nat \<Rightarrow> int \<Rightarrow> nat" where
  "nearest_loop c [] i best bestdist = best"
| "nearest_loop c (p # ps) i best bestdist =
     (let dist = colour_dist c p in
      if dist < bestdist then nearest_loop c ps (i + 1) i dist
      else nearest_loop c ps (i + 1) best bestdist)"

definition nearest_vga16_index :: "u32 \<Rightarrow> u8" where
  "nearest_vga16_index c = of_nat (nearest_loop c default_vga_palette 0 0 999999)"

definition nearest_vga256_index :: "emul \<Rightarrow> u32 \<Rightarrow> u8" where
  "nearest_vga256_index e c = of_nat (nearest_loop c (default_vga256_palette e) 0 0 999999)"

section \<open>Expanding source pixels\<close>

definition expand_chan :: "u32 \<Rightarrow> u8 \<Rightarrow> u8 \<Rightarrow> u8" where
  "expand_chan pixel pos sz =
     (if sz = 0 then 0
      else let mask = push_bit (unat sz) 1 - 1;
               val = drop_bit (unat pos) pixel AND mask
           in ucast ((val * 255) div mask))"

definition packed_to_argb :: "u32 \<Rightarrow> u8 \<Rightarrow> u8 \<Rightarrow> u8 \<Rightarrow> u8 \<Rightarrow> u8 \<Rightarrow> u8 \<Rightarrow> u32" where
  "packed_to_argb pixel rpos rsize gpos gsize bpos bsize =
     (let r = expand_chan pixel rpos rsize;
          g = expand_chan pixel gpos gsize;
          b = expand_chan pixel bpos bsize
      in 0xFF000000 OR push_bit 16 (ucast r) OR push_bit 8 (ucast g) OR ucast b)"

definition packed_masks :: "emul \<Rightarrow> u32 \<Rightarrow> u32" where
  "packed_masks e pixel =
     packed_to_argb pixel (g_red_mask_pos e) (g_red_mask_size e)
       (g_green_mask_pos e) (g_green_mask_size e) (g_blue_mask_pos e) (g_blue_mask_size e)"

definition load24 :: "mem \<Rightarrow> nat \<Rightarrow> u32" where
  "load24 m a = ucast (m a) OR push_bit 8 (ucast (m (a + 1))) OR push_bit 16 (ucast (m (a + 2)))"

definition nibble :: "mem \<Rightarrow> nat \<Rightarrow> nat \<Rightarrow> u8" where
  "nibble m sline x =
     (let byte = m (sline + x div 2) in if odd x then byte AND 0x0F else drop_bit 4 byte)"

definition expand_src_pixel :: "emul \<Rightarrow> mem \<Rightarrow> nat \<Rightarrow> nat \<Rightarrow> int \<Rightarrow> u32" where
  "expand_src_pixel e m sline x src_bpp =
     (if src_bpp = 4 then cbvga_palette_argb e ! unat (nibble m sline x)
      else if src_bpp = 8 then cbvga_palette_argb e ! unat (m (sline + x))
      else if src_bpp = 16 then packed_masks e (ucast (load16 m (sline + 2 * x)))
      else if src_bpp = 24 then packed_masks e (load24 m (sline + 3 * x))
      else load32 m (sline + 4 * x))"

section \<open>Programming the palette and the mode\<close>

definition table_entry :: "rgb \<Rightarrow> u32" where
  "table_entry = (\<lambda>(p0, p1, p2).
     let r = push_bit 2 p0; g = push_bit 2 p1; b = push_bit 2 p2
     in 0xFF000000 OR push_bit 16 (ucast b) OR push_bit 8 (ucast g) OR ucast r)"

definition rebuild_argb_table :: "emul \<Rightarrow> emul" where
  "rebuild_argb_table e = e\<lparr>cbvga_palette_argb := map table_entry (cbvga_palette e)\<rparr>"

definition cbvga_emul_set_shadow :: "u32 \<Rightarrow> int \<Rightarrow> emul \<Rightarrow> emul" where
  "cbvga_emul_set_shadow ptr pitch_bytes e = e\<lparr>g_shadow_ptr := ptr, g_src_pitch := pitch_bytes\<rparr>"

definition cbvga_emul_set_masks :: "u8 \<Rightarrow> u8 \<Rightarrow> u8 \<Rightarrow> u8 \<Rightarrow> u8 \<Rightarrow> u8 \<Rightarrow> emul \<Rightarrow> emul" where
  "cbvga_emul_set_masks r_size g_size b_size r_pos g_pos b_pos e =
     e\<lparr>g_red_mask_size := r_size, g_green_mask_size := g_size, g_blue_mask_size := b_size,
       g_red_mask_pos := r_pos, g_green_mask_pos := g_pos, g_blue_mask_pos := b_pos\<rparr>"

definition load_rgb :: "mem \<Rightarrow> nat \<Rightarrow> nat \<Rightarrow> rgb" where
  "load_rgb m p i = (m (p + (i * 3 + 0)), m (p + (i * 3 + 1)), m (p + (i * 3 + 2)))"

fun set_palette_loop :: "mem \<Rightarrow> nat \<Rightarrow> int \<Rightarrow> nat list \<Rightarrow> rgb list \<Rightarrow> rgb list option" where
  "set_palette_loop m data start [] pal = Some pal"
| "set_palette_loop m data start (i # is) pal =
     (let idx = start + int i in
      if idx \<ge> 256 then Some pal
      else if idx < 0 then None
      else set_palette_loop m data start is (pal[nat idx := load_rgb m data i]))"

definition cbvga_emul_set_palette :: "mem \<Rightarrow> int \<Rightarrow> int \<Rightarrow> nat \<Rightarrow> emul \<Rightarrow> emul option" where
  "cbvga_emul_set_palette m start count data e =
     map_option (\<lambda>pal. rebuild_argb_table (e\<lparr>cbvga_palette := pal\<rparr>))
       (set_palette_loop m data start [0..<nat count] (cbvga_palette e))"

definition copy_entries :: "(nat \<Rightarrow> rgb) \<Rightarrow> nat \<Rightarrow> rgb list \<Rightarrow> rgb list" where
  "copy_entries src n pal = fold (\<lambda>i pal. pal[i := src i]) [0..<n] pal"

definition cbvga_palette_set_entries :: "mem \<Rightarrow> nat \<Rightarrow> int \<Rightarrow> emul \<Rightarrow> emul" where
  "cbvga_palette_set_entries m entries count e =
     rebuild_argb_table (e\<lparr>cbvga_palette :=
       (if entries = 0 then copy_entries (\<lambda>i. default_vga_palette ! i) 16 (cbvga_palette e)
        else copy_entries (load_rgb m entries) (nat (min count 256)) (cbvga_palette e))\<rparr>)"

definition cbvga_palette_lookup :: "emul \<Rightarrow> int \<Rightarrow> u32" where
  "cbvga_palette_lookup e idx = cbvga_palette_argb e ! nat (idx AND 0xFF)"

definition MF_GRAYSUM :: u32 where "MF_GRAYSUM = 0x0002"

text \<open>
  \<^verbatim>\<open>cbvga_emul_set_mode\<close> reads the geometry through \<^verbatim>\<open>GET_FARVAR(0, vmode_g->...)\<close>, that is from
  the first segment of memory at the offset of the mode structure; width, height and depth are at
  offsets 2, 4 and 6 of \<^verbatim>\<open>struct vgamode_s\<close>.
\<close>

definition gray_palette :: "emul \<Rightarrow> emul" where
  "gray_palette e =
     rebuild_argb_table (e\<lparr>cbvga_palette :=
       copy_entries (\<lambda>i. let dacval = of_nat (i div 4) in (dacval, dacval, dacval)) 256 (cbvga_palette e)\<rparr>)"

definition mode_from_info :: "vbe_mode_info \<Rightarrow> emul \<Rightarrow> emul" where
  "mode_from_info info e =
     (let bpp = uint (bits_per_pixel info);
          e = e\<lparr>g_dst_bpp := (if bpp \<in> {4, 8, 16, 24, 32} then bpp else 32)\<rparr>;
          e = cbvga_emul_set_masks (red_size info) (green_size info) (blue_size info)
                (red_pos info) (green_pos info) (blue_pos info) e;
          e = e\<lparr>g_dst_pitch := uint (if linear_bytes_per_scanline info \<noteq> 0
                 then linear_bytes_per_scanline info else bytes_per_scanline info)\<rparr>;
          e = e\<lparr>g_src_pitch := (if g_src_bpp e = 4 then ((g_width e + 1) div 2 + 3) AND NOT 3
                 else g_dst_pitch e)\<rparr>
      in if g_dst_bpp e = 8 then e\<lparr>default_vga256_palette := init_vga256_palette\<rparr> else e)"

definition cbvga_emul_set_mode :: "mem \<Rightarrow> vbe_mode_info \<Rightarrow> nat \<Rightarrow> u32 \<Rightarrow> emul \<Rightarrow> emul" where
  "cbvga_emul_set_mode m info vmode flags e =
     (let e = e\<lparr>g_shadow_ptr := 0, g_width := uint (load16 m (vmode + 2)),
                g_height := uint (load16 m (vmode + 4)), g_src_bpp := uint (m (vmode + 6)),
                g_src_pitch := 0\<rparr>;
          e = (if flags AND MF_GRAYSUM \<noteq> 0 then gray_palette e else e)
      in mode_from_info info e)"

definition cbvga_emul_setup_modes :: "u64 \<Rightarrow> u8 \<Rightarrow> u32 \<Rightarrow> u32 \<Rightarrow> u32 \<Rightarrow> emul \<Rightarrow> emul" where
  "cbvga_emul_setup_modes addr bpp xlines ylines linelength e =
     e\<lparr>g_dst_ptr := ucast addr, g_width := sint xlines, g_height := sint ylines,
       g_src_bpp := uint bpp, g_dst_bpp := 24, g_dst_pitch := sint linelength\<rparr>"

definition cbvga_emul_get_dacformat :: int where "cbvga_emul_get_dacformat = 0x0606"
definition cbvga_emul_set_dacformat :: "int \<Rightarrow> int" where "cbvga_emul_set_dacformat val = 0"

section \<open>Flushing the shadow buffer\<close>

definition line_ptr :: "u32 \<Rightarrow> int \<Rightarrow> nat \<Rightarrow> nat" where
  "line_ptr p pitch y = nat (uint p + int y * pitch)"

definition bytespp_dst :: "emul \<Rightarrow> int" where
  "bytespp_dst e = (if g_dst_bpp e = 24 then 3 else if g_dst_bpp e = 16 then 2
     else if g_dst_bpp e = 8 then 1 else if g_dst_bpp e = 4 then 0 else 4)"

definition maxpix_src :: "emul \<Rightarrow> int option" where
  "maxpix_src e =
     (if g_src_bpp e = 4 then Some (g_src_pitch e * 2)
      else if g_src_bpp e sdiv 8 = 0 then None
      else Some (g_src_pitch e sdiv (g_src_bpp e sdiv 8)))"

definition maxpix_dst :: "emul \<Rightarrow> int" where
  "maxpix_dst e =
     (if g_dst_bpp e = 4 then g_dst_pitch e * 2
      else g_dst_pitch e sdiv (if bytespp_dst e = 0 then 1 else bytespp_dst e))"

definition line_limit :: "emul \<Rightarrow> int option" where
  "line_limit e = map_option (\<lambda>src.
     let limit = g_width e;
         limit = (if limit > maxpix_dst e then maxpix_dst e else limit)
     in if limit > src then src else limit) (maxpix_src e)"

text \<open>An int passed as the length of \<^verbatim>\<open>memcpy\<close> is converted to \<^verbatim>\<open>size_t\<close>.\<close>

definition size_arg :: "int \<Rightarrow> nat" where
  "size_arg n = unat (word_of_int n :: u32)"

definition flush_line4 :: "emul \<Rightarrow> int \<Rightarrow> nat \<Rightarrow> nat \<Rightarrow> mem \<Rightarrow> mem" where
  "flush_line4 e limit sline dline4 m =
     (let halves = [0..<nat ((limit + 1) div 2)] in
      if g_src_bpp e = 4 then fst (sea_memcpy dline4 sline (size_arg ((limit + 1) div 2)) m)
      else if g_src_bpp e = 8 then
        fold (\<lambda>k m. let x = 2 * k;
                 idx0 = m (sline + x) AND 0x0F;
                 idx1 = (if int (x + 1) < limit then m (sline + (x + 1)) AND 0x0F else 0)
               in m(dline4 + x div 2 := push_bit 4 idx0 OR idx1)) halves m
      else
        fold (\<lambda>k m. let x = 2 * k;
                 c0 = expand_src_pixel e m sline x (g_src_bpp e);
                 c1 = (if int (x + 1) < limit then expand_src_pixel e m sline (x + 1) (g_src_bpp e) else c0)
               in m(dline4 + x div 2 := push_bit 4 (nearest_vga16_index c0) OR nearest_vga16_index c1))
          halves m)"

definition flush_line8 :: "emul \<Rightarrow> int \<Rightarrow> nat \<Rightarrow> nat \<Rightarrow> mem \<Rightarrow> mem" where
  "flush_line8 e limit sline dline8 m =
     (if g_src_bpp e = 4 then
        fold (\<lambda>k m. let x = 2 * k;
                 byte = m (sline + x div 2);
                 idx0 = drop_bit 4 byte AND 0x0F;
                 idx1 = byte AND 0x0F;
                 m = m(dline8 + x := idx0)
               in if int (x + 1) < limit then m(dline8 + (x + 1) := idx1) else m)
          [0..<nat ((limit + 1) div 2)] m
      else if g_src_bpp e = 8 then fst (sea_memcpy dline8 sline (size_arg limit) m)
      else
        fold (\<lambda>x m. let c = expand_src_pixel e m sline x (g_src_bpp e)
               in m(dline8 + x := nearest_vga256_index e c)) [0..<nat limit] m)"

definition rgb565 :: "u32 \<Rightarrow> u16" where
  "rgb565 c =
     (let r = chan_r c; g = chan_g c; b = chan_b c
      in push_bit 11 (ucast (drop_bit 3 r)) OR push_bit 5 (ucast (drop_bit 2 g)) OR ucast (drop_bit 3 b))"

definition put_pixel :: "emul \<Rightarrow> nat \<Rightarrow> nat \<Rightarrow> u32 \<Rightarrow> mem \<Rightarrow> mem" where
  "put_pixel e dline x c m =
     (if g_dst_bpp e = 32 then store32 (dline + 4 * x) c m
      else if g_dst_bpp e = 24 then
        m(dline + (x * 3 + 0) := chan_r c, dline + (x * 3 + 1) := chan_g c, dline + (x * 3 + 2) := chan_b c)
      else if g_dst_bpp e = 16 then store16 (dline + 2 * x) (rgb565 c) m
      else m)"

definition flush_line :: "emul \<Rightarrow> int \<Rightarrow> nat \<Rightarrow> mem \<Rightarrow> mem" where
  "flush_line e limit y m =
     (let sline = line_ptr (g_shadow_ptr e) (g_src_pitch e) y;
          dline = line_ptr (g_dst_ptr e) (g_dst_pitch e) y
      in if g_dst_bpp e = 4 then flush_line4 e limit sline dline m
         else if g_dst_bpp e = 8 then flush_line8 e limit sline dline m
         else fold (\<lambda>x m. put_pixel e dline x (expand_src_pixel e m sline x (g_src_bpp e)) m)
                [0..<nat limit] m)"

definition cbvga_pal_flush :: "emul \<Rightarrow> mem \<Rightarrow> mem option" where
  "cbvga_pal_flush e m =
     (if g_shadow_ptr e = 0 \<or> g_dst_ptr e = 0 then Some m
      else if g_height e \<le> 0 then Some m
      else map_option (\<lambda>limit. fold (flush_line e limit) [0..<nat (g_height e)] m) (line_limit e))"

section \<open>Test patterns\<close>

definition bars :: "u32 list" where
  "bars = [0xFF000000, 0xFFFFFFFF, 0xFFFF0000, 0xFF00FF00, 0xFF0000FF,
           0xFF00FFFF, 0xFFFF00FF, 0xFFFFFF00, 0xFF808080]"

definition paint :: "emul \<Rightarrow> (nat \<Rightarrow> nat \<Rightarrow> u32) \<Rightarrow> mem \<Rightarrow> mem" where
  "paint e colour m =
     fold (\<lambda>y. fold (\<lambda>x. store32 (line_ptr (g_dst_ptr e) (g_dst_pitch e) y + 4 * x) (colour y x))
       [0..<nat (g_width e)]) [0..<nat (g_height e)] m"

definition bar_colour :: "emul \<Rightarrow> nat \<Rightarrow> u32" where
  "bar_colour e x =
     (let bar_width = nat (g_width e) div 9; idx = x div bar_width
      in bars ! (if idx \<ge> 9 then 8 else idx))"

definition checker_colour :: "nat \<Rightarrow> nat \<Rightarrow> u32" where
  "checker_colour y x =
     (if (x div 8) mod 2 \<noteq> (y div 8) mod 2 then 0xFFFFFFFF else 0xFF000000)"

definition no_target :: "emul \<Rightarrow> bool" where
  "no_target e \<longleftrightarrow> g_dst_ptr e = 0 \<or> g_width e = 0 \<or> g_height e = 0"

definition cbvga_test_pattern :: "emul \<Rightarrow> mem \<Rightarrow> mem option" where
  "cbvga_test_pattern e m =
     (if no_target e \<or> g_width e < 0 \<or> g_height e < 0 then Some m
      else if g_width e div 9 = 0 then None
      else Some (paint e (\<lambda>y. bar_colour e) m))"

definition cbvga_test_checkerboard :: "emul \<Rightarrow> mem \<Rightarrow> mem" where
  "cbvga_test_checkerboard e m = (if no_target e then m else paint e checker_colour m)"

definition cbvga_test_combined :: "emul \<Rightarrow> mem \<Rightarrow> mem option" where
  "cbvga_test_combined e m =
     (let half_height = nat (g_height e) div 2 in
      if no_target e \<or> g_width e < 0 \<or> g_height e < 0 then Some m
      else if g_width e div 9 = 0 \<and> 0 < half_height then None
      else Some (paint e (\<lambda>y x. if y < half_height then bar_colour e x
             else checker_colour (y - half_height) x) m))"

section \<open>The tables CSMWrap starts from\<close>

text \<open>
  CSMWrap keeps its own copy of the two tables, the pair of the palette and the lookup table here.
  Without \<^verbatim>\<open>CBVGA_USE_BGRA\<close>, which no build file defines, red is the third byte.
\<close>

definition argb :: "u8 \<Rightarrow> u8 \<Rightarrow> u8 \<Rightarrow> u8 \<Rightarrow> u32" where
  "argb a r g b = push_bit 24 (ucast a) OR push_bit 16 (ucast r) OR push_bit 8 (ucast g) OR ucast b"

definition wrap_entry :: "rgb \<Rightarrow> u32" where
  "wrap_entry = (\<lambda>(p0, p1, p2).
     let r8 = push_bit 2 p0; g8 = push_bit 2 p1; b8 = push_bit 2 p2
     in push_bit 24 0xFF OR push_bit 16 (ucast r8) OR push_bit 8 (ucast g8) OR ucast b8)"

definition default_vga16_6bit :: "rgb list" where
  "default_vga16_6bit =
     [(0, 0, 0), (0, 0, 42), (0, 42, 0), (0, 42, 42),
      (42, 0, 0), (42, 0, 42), (42, 21, 0), (42, 42, 42),
      (21, 21, 21), (21, 21, 63), (21, 63, 21), (21, 63, 63),
      (63, 21, 21), (63, 21, 63), (63, 63, 21), (63, 63, 63)]"

definition wrap_palette_set_entries :: "mem \<Rightarrow> nat \<Rightarrow> int \<Rightarrow> rgb list \<Rightarrow> rgb list \<times> u32 list" where
  "wrap_palette_set_entries m entries count pal =
     (let pal = (if entries = 0 \<or> count \<le> 0
                 then copy_entries (\<lambda>i. default_vga16_6bit ! i) 16 (replicate 256 (0, 0, 0))
                 else copy_entries (load_rgb m entries) (nat (if count > 256 then 256 else count)) pal)
      in (pal, map wrap_entry pal))"

section \<open>Nearest colours are nearest\<close>

lemma nearest_loop_result:
  "nearest_loop c ps i best bd = best \<and> (\<forall>p\<in>set ps. bd \<le> colour_dist c p) \<or>
   (\<exists>k<length ps. nearest_loop c ps i best bd = i + k \<and> colour_dist c (ps ! k) < bd \<and>
      (\<forall>j<length ps. colour_dist c (ps ! k) \<le> colour_dist c (ps ! j)) \<and>
      (\<forall>j<k. colour_dist c (ps ! k) < colour_dist c (ps ! j)))"
proof (induction ps arbitrary: i best bd)
  case (Cons p ps)
  show ?case
  proof (cases "colour_dist c p < bd")
    case True
    from Cons.IH [of "i + 1" i "colour_dist c p"] show ?thesis
    proof (elim disjE exE conjE)
      fix k
      assume "k < length ps" "nearest_loop c ps (i + 1) i (colour_dist c p) = i + 1 + k"
        "colour_dist c (ps ! k) < colour_dist c p" "\<forall>j<length ps. colour_dist c (ps ! k) \<le> colour_dist c (ps ! j)"
        "\<forall>j<k. colour_dist c (ps ! k) < colour_dist c (ps ! j)"
      then show ?thesis using True
        by (intro disjI2 exI [of _ "Suc k"]) (auto simp: nth_Cons split: nat.splits)
    qed (use True in \<open>intro disjI2 exI [of _ 0]; auto simp: nth_Cons split: nat.splits\<close>)
  next
    case False
    from Cons.IH [of "i + 1" best bd] show ?thesis
    proof (elim disjE exE conjE)
      fix k
      assume "k < length ps" "nearest_loop c ps (i + 1) best bd = i + 1 + k"
        "colour_dist c (ps ! k) < bd" "\<forall>j<length ps. colour_dist c (ps ! k) \<le> colour_dist c (ps ! j)"
        "\<forall>j<k. colour_dist c (ps ! k) < colour_dist c (ps ! j)"
      then show ?thesis using False
        by (intro disjI2 exI [of _ "Suc k"]) (auto simp: nth_Cons split: nat.splits)
    qed (use False in auto)
  qed
qed simp

text \<open>A 6-bit palette never reaches the sentinel distance 999999 from a colour with 8-bit channels.\<close>

lemma colour_dist_bound:
  assumes "uint a < 64" "uint b < 64" "uint (d :: u8) < 64"
  shows "colour_dist c (a, b, d) < 999999"
proof -
  have sq: "(uint (x :: u8) - uint (y :: u8) * 4) * (uint x - uint y * 4) \<le> 65025" if "uint y < 64" for x y
  proof -
    have "0 \<le> uint x" "0 \<le> uint y" "uint x < 256" using uint_lt2p [of x] by simp_all
    then have "\<bar>uint x - uint y * 4\<bar> \<le> 255" using that by linarith
    then have "\<bar>uint x - uint y * 4\<bar> * \<bar>uint x - uint y * 4\<bar> \<le> 255 * 255" by (intro mult_mono) auto
    then show ?thesis by simp
  qed
  show ?thesis using sq [OF assms(1), of "chan_r c"] sq [OF assms(2), of "chan_g c"] sq [OF assms(3), of "chan_b c"]
    unfolding colour_dist_def Let_def by simp
qed

definition six_bit :: "rgb list \<Rightarrow> bool" where
  "six_bit ps \<longleftrightarrow> (\<forall>(a, b, d)\<in>set ps. uint a < 64 \<and> uint b < 64 \<and> uint d < 64)"

lemma nearest_loop_min:
  fixes c :: u32
  assumes "six_bit ps" "ps \<noteq> []"
  defines "k \<equiv> nearest_loop c ps 0 0 999999"
  shows "k < length ps" "\<forall>j<length ps. colour_dist c (ps ! k) \<le> colour_dist c (ps ! j)"
    "\<forall>j<k. colour_dist c (ps ! k) < colour_dist c (ps ! j)"
proof -
  have "colour_dist c (ps ! 0) < 999999"
    using assms(1,2) colour_dist_bound by (cases ps) (auto simp: six_bit_def)
  then have "\<not> (\<forall>p\<in>set ps. 999999 \<le> colour_dist c p)" using assms(2) by (cases ps) auto
  then have "\<exists>k'<length ps. k = k' \<and> (\<forall>j<length ps. colour_dist c (ps ! k') \<le> colour_dist c (ps ! j)) \<and>
      (\<forall>j<k'. colour_dist c (ps ! k') < colour_dist c (ps ! j))"
    using nearest_loop_result [of c ps 0 0 999999] by (auto simp: k_def)
  then show "k < length ps" "\<forall>j<length ps. colour_dist c (ps ! k) \<le> colour_dist c (ps ! j)"
    "\<forall>j<k. colour_dist c (ps ! k) < colour_dist c (ps ! j)" by auto
qed

lemma uint_level: "n \<le> 63 \<Longrightarrow> uint (of_nat n :: u8) < 64"
  by (simp add: unsigned_of_nat take_bit_nat_eq_self)

lemma default_palettes:
  "six_bit default_vga_palette" "length default_vga_palette = 16"
  "six_bit init_vga256_palette" "length init_vga256_palette = 256"
proof -
  show six: "six_bit default_vga_palette" by (simp add: six_bit_def default_vga_palette_def)
  show "length default_vga_palette = 16" by (simp add: default_vga_palette_def)
  then show "length init_vga256_palette = 256"
    by (simp add: init_vga256_palette_def length_concat comp_def sum_list_triv)
  have "x * 63 div 5 \<le> 63" if "x < 6" for x :: nat using that by linarith
  moreover have "x * 63 div 23 \<le> 63" if "x < 24" for x :: nat using that by linarith
  ultimately show "six_bit init_vga256_palette"
    using six by (auto simp: six_bit_def init_vga256_palette_def Let_def intro!: uint_level)
qed

lemma nearest_vga16_loop: "unat (nearest_vga16_index c) = nearest_loop c default_vga_palette 0 0 999999"
  and nearest_vga16_less: "nearest_vga16_index c < 16"
proof -
  have "nearest_loop c default_vga_palette 0 0 999999 < 16"
    using nearest_loop_min(1) [OF default_palettes(1), of c] default_palettes(2) by fastforce
  then show "unat (nearest_vga16_index c) = nearest_loop c default_vga_palette 0 0 999999"
    "nearest_vga16_index c < 16"
    by (simp_all add: nearest_vga16_index_def word_less_nat_alt unat_of_nat)
qed

definition is_nearest :: "u32 \<Rightarrow> rgb list \<Rightarrow> nat \<Rightarrow> bool" where
  "is_nearest c ps i \<longleftrightarrow> i < length ps \<and> (\<forall>p\<in>set ps. colour_dist c (ps ! i) \<le> colour_dist c p) \<and>
     (\<forall>j<i. colour_dist c (ps ! i) < colour_dist c (ps ! j))"

lemma nearest_loop_is_nearest:
  "six_bit ps \<Longrightarrow> ps \<noteq> [] \<Longrightarrow> is_nearest c ps (nearest_loop c ps 0 0 999999)"
  using nearest_loop_min [of ps c] unfolding is_nearest_def by (metis in_set_conv_nth)

text \<open>
  C34. The two colour searches are exact.  Whatever the colour, the index they return is an entry of the
  16-colour palette, or of the 256-colour palette that the 8-bit mode installs, no other entry is
  nearer in squared distance, and among equally near ones it is the first.
\<close>

theorem nearest_vga_correct:
  assumes "default_vga256_palette e = init_vga256_palette"
  shows "is_nearest c default_vga_palette (unat (nearest_vga16_index c)) \<and>
    is_nearest c (default_vga256_palette e) (unat (nearest_vga256_index e c))"
proof -
  have ne: "default_vga_palette \<noteq> []" "init_vga256_palette \<noteq> []"
    using default_palettes(2,4) by auto
  have "unat (nearest_vga256_index e c) = nearest_loop c init_vga256_palette 0 0 999999"
    using nearest_loop_min(1) [OF default_palettes(3) ne(2), of c] assms
    by (simp add: nearest_vga256_index_def unat_of_nat default_palettes(4))
  then show ?thesis
    using nearest_loop_is_nearest [OF default_palettes(1) ne(1)] nearest_loop_is_nearest [OF default_palettes(3) ne(2)] assms
    by (simp add: nearest_vga16_loop)
qed

definition gray_example :: emul where
  "gray_example = \<lparr>cbvga_palette = replicate 256 (0, 0, 0), cbvga_palette_argb = replicate 256 0,
     default_vga256_palette = init_vga256_palette, g_shadow_ptr = 0, g_dst_ptr = 0,
     g_src_pitch = 0, g_dst_pitch = 0, g_width = 0, g_height = 0, g_src_bpp = 8, g_dst_bpp = 8,
     g_red_mask_size = 8, g_green_mask_size = 8, g_blue_mask_size = 8,
     g_red_mask_pos = 16, g_green_mask_pos = 8, g_blue_mask_pos = 0\<rparr>"

theorem nearest_vga_correct_witness:
  "default_vga256_palette gray_example = init_vga256_palette \<and> nearest_vga16_index 0xFF0000A8 = 4 \<and>
   is_nearest 0xFF0000A8 default_vga_palette 4"
proof -
  have g: "default_vga256_palette gray_example = init_vga256_palette" by (simp add: gray_example_def)
  have n: "nearest_vga16_index 0xFF0000A8 = 4" by code_simp
  show ?thesis using nearest_vga_correct [OF g, of "0xFF0000A8"] g n by simp
qed

section \<open>Programming the palette\<close>

lemma set_palette_loop_nth:
  assumes "0 \<le> start" "length pal = 256"
  shows "\<exists>pal'. set_palette_loop m data start [k..<n] pal = Some pal' \<and> length pal' = 256 \<and>
    (\<forall>i<256. pal' ! i = (if start + int k \<le> int i \<and> int i < start + int n
       then load_rgb m data (nat (int i - start)) else pal ! i))"
  using assms(2)
proof (induction "n - k" arbitrary: k pal)
  case (Suc d)
  then have up: "[k..<n] = k # [Suc k..<n]" by (simp add: upt_rec)
  show ?case
  proof (cases "start + int k \<ge> 256")
    case False
    have "length (pal[nat (start + int k) := load_rgb m data k]) = 256" using Suc.prems by simp
    moreover have "d = n - Suc k" using Suc.hyps(2) by simp
    ultimately obtain pal' where
      "set_palette_loop m data start [Suc k..<n] (pal[nat (start + int k) := load_rgb m data k]) = Some pal'"
      "length pal' = 256"
      "\<forall>i<256. pal' ! i = (if start + int (Suc k) \<le> int i \<and> int i < start + int n
         then load_rgb m data (nat (int i - start)) else pal[nat (start + int k) := load_rgb m data k] ! i)"
      using Suc.hyps(1) by blast
    then show ?thesis using assms(1) False Suc.prems Suc.hyps(2) unfolding up
      by (auto simp: Let_def nth_list_update)
  qed (use Suc.prems up in auto)
qed auto

text \<open>
  C33. Programming the palette.  With a start index that is not negative,
  \<^verbatim>\<open>cbvga_emul_set_palette\<close> stores exactly the given colours in the entries from the start index on,
  stops at entry 255, keeps every other entry and leaves the lookup table in step with the palette;
  with a negative start index and a colour to store it writes outside the array.
\<close>

theorem cbvga_emul_set_palette_correct:
  assumes "length (cbvga_palette e) = 256"
  shows "if start < 0 \<and> 0 < count then cbvga_emul_set_palette m start count data e = None
    else \<exists>e'. cbvga_emul_set_palette m start count data e = Some e' \<and> length (cbvga_palette e') = 256 \<and>
      cbvga_palette_argb e' = map table_entry (cbvga_palette e') \<and>
      (\<forall>i<256. cbvga_palette e' ! i = (if start \<le> int i \<and> int i < start + count
         then load_rgb m data (nat (int i - start)) else cbvga_palette e ! i))"
proof (cases "0 < count")
  case True
  show ?thesis
  proof (cases "start < 0")
    case True
    have "[0..<nat count] = 0 # [Suc 0..<nat count]" using \<open>0 < count\<close> by (simp add: upt_rec)
    then show ?thesis using True \<open>0 < count\<close> by (simp add: cbvga_emul_set_palette_def)
  next
    case False
    then show ?thesis using set_palette_loop_nth [of start "cbvga_palette e" m data 0 "nat count"] assms True
      by (auto simp: cbvga_emul_set_palette_def rebuild_argb_table_def)
  qed
qed (use assms in \<open>auto simp: cbvga_emul_set_palette_def rebuild_argb_table_def\<close>)

theorem cbvga_emul_set_palette_correct_witness:
  "length (cbvga_palette gray_example) = 256 \<and>
   (\<exists>e'. cbvga_emul_set_palette (\<lambda>a. of_nat a) 254 7 9 gray_example = Some e' \<and>
      cbvga_palette e' ! 255 = (12, 13, 14) \<and> cbvga_palette e' ! 253 = (0, 0, 0))"
proof -
  have l: "length (cbvga_palette gray_example) = 256" by (simp add: gray_example_def)
  from cbvga_emul_set_palette_correct [OF l, of 254 7 "\<lambda>a. of_nat a" 9] obtain e' where
    "cbvga_emul_set_palette (\<lambda>a. of_nat a) 254 7 9 gray_example = Some e'"
    "\<forall>i<256. cbvga_palette e' ! i = (if 254 \<le> int i \<and> int i < 254 + 7
         then load_rgb (\<lambda>a. of_nat a) 9 (nat (int i - 254)) else cbvga_palette gray_example ! i)"
    by auto
  then show ?thesis using l by (auto simp: load_rgb_def gray_example_def)
qed

text \<open>
  The byte order of the lookup table and of expanded packed pixels disagree: a table entry has red in
  its lowest byte, a packed pixel with the standard masks has blue there.  CSMWrap's own table is the
  SeaBIOS table with red and blue exchanged.
\<close>

lemma expand_chan_8:
  "expand_chan pixel pos 8 = ucast (drop_bit (unat pos) pixel)"
proof -
  define v :: u32 where "v = drop_bit (unat pos) pixel AND 255"
  have "v = take_bit 8 (drop_bit (unat pos) pixel)"
    by (simp add: v_def take_bit_eq_mask mask_eq_exp_minus_1)
  then have v: "unat v < 256" "ucast v = (ucast (drop_bit (unat pos) pixel) :: u8)"
    using unat_and_mask [of "drop_bit (unat pos) pixel" 8]
    by (simp_all add: take_bit_eq_mask) (rule bit_word_eqI, auto simp: bit_simps simp flip: take_bit_eq_mask)
  have "unat (v * 255) = unat v * 255" using v(1) by (simp add: unat_word_ariths)
  then have "v * 255 div 255 = v" by (simp add: word_unat_eq_iff unat_div)
  then show ?thesis using v(2) by (simp add: expand_chan_def v_def)
qed

lemma alpha_bits: "bit (0xFF000000 :: u32) n \<longleftrightarrow> 24 \<le> n \<and> n < 32"
proof -
  have "(0xFF000000 :: u32) = push_bit 24 (mask 8)" by (simp add: mask_eq_exp_minus_1)
  then show ?thesis by (simp only: bit_push_bit_iff bit_mask_iff) auto
qed

lemma chan_bits:
  "bit (chan_r c) n \<longleftrightarrow> n < 8 \<and> bit c n" "bit (chan_g c) n \<longleftrightarrow> n < 8 \<and> bit c (n + 8)"
  "bit (chan_b c) n \<longleftrightarrow> n < 8 \<and> bit c (n + 16)"
  by (auto simp: chan_r_def chan_g_def chan_b_def bit_simps add.commute)

lemma pack_chans:
  fixes x y z :: u8
  defines "c \<equiv> 0xFF000000 OR push_bit 16 (ucast x) OR push_bit 8 (ucast y) OR (ucast z :: u32)"
  shows "chan_r c = z" "chan_g c = y" "chan_b c = x"
  by (rule bit_word_eqI, unfold chan_bits c_def bit_or_iff alpha_bits, auto simp: bit_simps dest: bit_imp_le_length)+

lemma channel_order:
  "chan_r (table_entry (r, g, b)) = push_bit 2 r" "chan_b (table_entry (r, g, b)) = push_bit 2 b"
  "chan_r (packed_to_argb p 16 8 8 8 0 8) = ucast p" "chan_b (packed_to_argb p 16 8 8 8 0 8) = ucast (drop_bit 16 p)"
  "wrap_entry (r, g, b) = table_entry (b, g, r)"
  unfolding table_entry_def packed_to_argb_def Let_def prod.case expand_chan_8 pack_chans
  by (simp_all add: wrap_entry_def)

section \<open>Loops that fill disjoint slots of memory\<close>

text \<open>
  \<open>fold_slots\<close> is the rule behind every blit loop: step \<open>i\<close> writes only slot \<open>i\<close> of width \<open>w\<close>, it
  establishes a property of that slot from any memory that still agrees with the first one outside
  the slots, and the property depends on the slot alone.  Then all slots have their property at the end.
\<close>

lemma fold_frame:
  assumes "\<And>i m. i \<in> set xs \<Longrightarrow> f i m a = m a"
  shows "fold f xs m a = (m :: mem) a"
  using assms by (induction xs arbitrary: m) auto

lemma fold_slots:
  fixes f :: "nat \<Rightarrow> mem \<Rightarrow> mem"
  assumes frame: "\<And>i m a. i < n \<Longrightarrow> a < b + i * w \<or> b + i * w + w \<le> a \<Longrightarrow> f i m a = m a"
    and step: "\<And>i m. i < n \<Longrightarrow> (\<And>a. a < b \<or> b + n * w \<le> a \<Longrightarrow> m a = m0 a) \<Longrightarrow> Q i (f i m)"
    and local: "\<And>i m m'. i < n \<Longrightarrow> (\<And>a. b + i * w \<le> a \<Longrightarrow> a < b + i * w + w \<Longrightarrow> m' a = m a) \<Longrightarrow> Q i m \<Longrightarrow> Q i m'"
  shows "k \<le> n \<Longrightarrow> (\<forall>a. a < b \<or> b + k * w \<le> a \<longrightarrow> fold f [0..<k] m0 a = m0 a) \<and> (\<forall>i<k. Q i (fold f [0..<k] m0))"
proof (induction k)
  case (Suc k)
  let ?m = "fold f [0..<k] m0"
  have IH: "\<And>a. a < b \<or> b + k * w \<le> a \<Longrightarrow> ?m a = m0 a" "\<And>i. i < k \<Longrightarrow> Q i ?m"
    using Suc by auto
  have le: "k * w \<le> n * w" using Suc.prems by simp
  have out: "?m a = m0 a" if "a < b \<or> b + n * w \<le> a" for a using IH(1) [of a] le that by linarith
  have old: "Q i (f k ?m)" if "i < k" for i
  proof -
    have "i * w + w \<le> k * w" using that mult_le_mono1 [of "Suc i" k w] by simp
    then have "f k ?m a = ?m a" if "b + i * w \<le> a" "a < b + i * w + w" for a
      using frame [of k a ?m] that Suc.prems by simp
    then show ?thesis using local [of i "f k ?m" ?m] IH(2) that Suc.prems by simp
  qed
  have "f k ?m a = m0 a" if "a < b \<or> b + Suc k * w \<le> a" for a
    using frame [of k a ?m] IH(1) [of a] that Suc.prems by auto
  moreover have "Q k (f k ?m)" using step [of k ?m] out Suc.prems by simp
  ultimately show ?case using old by (auto simp: less_Suc_eq)
qed simp

lemma fold_pairs:
  assumes "\<And>k m. 2 * k < L \<Longrightarrow> g k m = (let m' = f (2 * k) m in if 2 * k + 1 < L then f (2 * k + 1) m' else m')"
  shows "fold g [0..<(L + 1) div 2] m = fold f [0..<L] m"
proof -
  have "k \<le> (L + 1) div 2 \<Longrightarrow> fold g [0..<k] m = fold f [0..<min L (2 * k)] m" for k
  proof (induction k)
    case (Suc k)
    then have "2 * k < L" by linarith
    moreover have "L = 2 * k + 1 \<or> 2 * k + 2 \<le> L" using \<open>2 * k < L\<close> by linarith
    ultimately show ?case using Suc assms [of k "fold g [0..<k] m"]
      by (elim disjE) (auto simp: min_absorb2 Let_def)
  qed simp
  from this [of "(L + 1) div 2"] show ?thesis by (simp add: min_def split: if_splits)
qed

lemma fold_bytes:
  fixes f :: "nat \<Rightarrow> mem \<Rightarrow> mem"
  assumes f: "\<And>i m. i < n \<Longrightarrow> f i m = store_bytes (b + i * w) (g i m) m"
    and len: "\<And>i m. i < n \<Longrightarrow> length (g i m) = w"
    and dep: "\<And>i m. i < n \<Longrightarrow> \<forall>a. a < b \<or> b + n * w \<le> a \<longrightarrow> m a = m0 a \<Longrightarrow> g i m = g i m0"
  shows "(\<forall>a. a < b \<or> b + n * w \<le> a \<longrightarrow> fold f [0..<n] m0 a = m0 a) \<and>
      (\<forall>i<n. \<forall>j<w. fold f [0..<n] m0 (b + i * w + j) = g i m0 ! j)"
proof (rule fold_slots [where n = n])
  fix i m
  assume i: "i < n" and out: "\<And>a. a < b \<or> b + n * w \<le> a \<Longrightarrow> m a = m0 a"
  have "g i m = g i m0" by (rule dep [OF i]) (simp add: out)
  then show "\<forall>j<w. f i m (b + i * w + j) = g i m0 ! j"
    using len [OF i, of m0] by (simp add: f [OF i] store_bytes_def)
qed (auto simp: f len store_bytes_def)

lemma fold_upds:
  fixes f :: "nat \<Rightarrow> mem \<Rightarrow> mem"
  assumes f: "\<And>i m. i < n \<Longrightarrow> f i m = m(b + i := g i m)"
    and dep: "\<And>i m. i < n \<Longrightarrow> \<forall>a. a < b \<or> b + n \<le> a \<longrightarrow> m a = m0 a \<Longrightarrow> g i m = g i m0"
  shows "(\<forall>a. a < b \<or> b + n \<le> a \<longrightarrow> fold f [0..<n] m0 a = m0 a) \<and>
      (\<forall>i<n. fold f [0..<n] m0 (b + i) = g i m0)"
proof -
  have "(\<forall>a. a < b \<or> b + n * 1 \<le> a \<longrightarrow> fold f [0..<n] m0 a = m0 a) \<and>
      (\<forall>i<n. \<forall>j<1. fold f [0..<n] m0 (b + i * 1 + j) = [g i m0] ! j)"
  proof (rule fold_bytes [where g = "\<lambda>i m. [g i m]"])
    show "[g i m] = [g i m0]" if "i < n" "\<forall>a. a < b \<or> b + n * 1 \<le> a \<longrightarrow> m a = m0 a" for i m
      using that dep [of i m] by simp
  qed (auto simp: f store_bytes_def fun_eq_iff)
  then show ?thesis by simp
qed

end
