(* ===== verification/Palette_Flush.thy ===== *)
theory Palette_Flush
  imports Palette
begin

unbundle bit_operations_syntax

text \<open>
  The flush of the palette emulator against its specification: every pixel of the visible part of
  the framebuffer is the specified conversion of the shadow pixel at the same place, for every pair
  of a source depth and a destination depth, and nothing outside the framebuffer changes.
\<close>

section \<open>Correctness of the flush\<close>

definition spec_pixel :: "emul \<Rightarrow> mem \<Rightarrow> nat \<Rightarrow> nat \<Rightarrow> u32" where
  "spec_pixel e m sline x =
     (let s = g_src_bpp e; c = expand_src_pixel e m sline x s in
      if g_dst_bpp e = 4 then
        ucast (if s = 4 then nibble m sline x else if s = 8 then m (sline + x) AND 0x0F else nearest_vga16_index c)
      else if g_dst_bpp e = 8 then
        ucast (if s = 4 then nibble m sline x else if s = 8 then m (sline + x) else nearest_vga256_index e c)
      else if g_dst_bpp e = 16 then ucast (rgb565 c)
      else if g_dst_bpp e = 24 then c AND 0xFFFFFF else c)"

definition fb_pixel :: "emul \<Rightarrow> mem \<Rightarrow> nat \<Rightarrow> nat \<Rightarrow> u32" where
  "fb_pixel e m dline x =
     (if g_dst_bpp e = 4 then ucast (nibble m dline x)
      else if g_dst_bpp e = 8 then ucast (m (dline + x))
      else if g_dst_bpp e = 16 then ucast (load16 m (dline + 2 * x))
      else if g_dst_bpp e = 24 then load24 m (dline + 3 * x)
      else load32 m (dline + 4 * x))"

definition flush_ok :: "emul \<Rightarrow> bool" where
  "flush_ok e \<longleftrightarrow>
     g_shadow_ptr e \<noteq> 0 \<and> g_dst_ptr e \<noteq> 0 \<and> 0 \<le> g_width e \<and> g_width e < 2 ^ 31 \<and> 0 \<le> g_height e \<and>
     0 \<le> g_src_pitch e \<and> 0 \<le> g_dst_pitch e \<and>
     g_src_bpp e \<in> {4, 8, 16, 24, 32} \<and> g_dst_bpp e \<in> {4, 8, 16, 24, 32} \<and>
     (uint (g_shadow_ptr e) + g_height e * g_src_pitch e \<le> uint (g_dst_ptr e) \<or>
      uint (g_dst_ptr e) + g_height e * g_dst_pitch e \<le> uint (g_shadow_ptr e))"

lemma sdiv_pos: "0 \<le> a \<Longrightarrow> 0 < b \<Longrightarrow> a sdiv b = a div (b :: int)"
  by (cases "a = 0") (simp_all add: signed_divide_int_def)

lemma size_arg_pos: "0 \<le> n \<Longrightarrow> n < 2 ^ 32 \<Longrightarrow> size_arg n = nat n"
  by (simp add: size_arg_def unat_eq_nat_uint uint_word_of_int)

definition fits :: "int \<Rightarrow> int \<Rightarrow> nat \<Rightarrow> bool" where
  "fits bpp pitch x \<longleftrightarrow>
     (if bpp = 4 then int (x div 2) < pitch else if bpp = 8 then int x < pitch
      else if bpp = 16 then int (2 * x + 1) < pitch else if bpp = 24 then int (3 * x + 2) < pitch
      else int (4 * x + 3) < pitch)"

lemma div_gt: "x < p div k \<Longrightarrow> 0 < k \<Longrightarrow> k * x + (k - 1) < (p :: int)"
proof -
  assume "x < p div k" "0 < k"
  then have "k * (x + 1) \<le> k * (p div k)" by (intro mult_left_mono) auto
  also have "\<dots> \<le> p" using mult_div_mod_eq [of k p] pos_mod_sign [OF \<open>0 < k\<close>, of p] by linarith
  finally show ?thesis by (simp add: algebra_simps)
qed

lemma fits_div:
  assumes "bpp \<in> {8, 16, 24, 32}" "int x < p div (bpp div 8)"
  shows "fits bpp p x"
proof -
  have "bpp = 8 \<or> bpp = 16 \<or> bpp = 24 \<or> bpp = 32" using assms(1) by simp
  then show ?thesis
  proof (elim disjE)
    assume "bpp = 16" then show ?thesis using assms(2) div_gt [of "int x" p 2] by (simp add: fits_def)
  next
    assume "bpp = 24" then show ?thesis using assms(2) div_gt [of "int x" p 3] by (simp add: fits_def)
  next
    assume "bpp = 32" then show ?thesis using assms(2) div_gt [of "int x" p 4] by (simp add: fits_def)
  qed (use assms(2) in \<open>simp add: fits_def\<close>)
qed

lemma fits_nibbles: "int x < p * 2 \<Longrightarrow> fits 4 p x"
  by (simp add: fits_def)

lemma line_limit_fits:
  assumes "flush_ok e"
  obtains l where "line_limit e = Some l" "0 \<le> l" "l < 2 ^ 31"
    "\<And>x. int x < l \<Longrightarrow> fits (g_src_bpp e) (g_src_pitch e) x"
    "\<And>x. int x < l \<Longrightarrow> fits (g_dst_bpp e) (g_dst_pitch e) x"
proof -
  note [simp] = sdiv_pos pos_imp_zdiv_nonneg_iff
  have s: "\<exists>n. maxpix_src e = Some n \<and> 0 \<le> n \<and> (\<forall>x. int x < n \<longrightarrow> fits (g_src_bpp e) (g_src_pitch e) x)"
  proof (cases "g_src_bpp e = 4")
    case False
    then have b: "g_src_bpp e \<in> {8, 16, 24, 32}" "0 \<le> g_src_pitch e" using assms by (auto simp: flush_ok_def)
    then have "0 < g_src_bpp e div 8" by auto
    with b False have "maxpix_src e = Some (g_src_pitch e div (g_src_bpp e div 8))"
      by (auto simp: maxpix_src_def)
    then show ?thesis using fits_div b \<open>0 < g_src_bpp e div 8\<close> by simp
  qed (use assms in \<open>simp add: maxpix_src_def flush_ok_def fits_nibbles\<close>)
  have d: "0 \<le> maxpix_dst e \<and> (\<forall>x. int x < maxpix_dst e \<longrightarrow> fits (g_dst_bpp e) (g_dst_pitch e) x)"
  proof (cases "g_dst_bpp e = 4")
    case False
    then have b: "g_dst_bpp e \<in> {8, 16, 24, 32}" "0 \<le> g_dst_pitch e" using assms by (auto simp: flush_ok_def)
    then have "0 < g_dst_bpp e div 8" by auto
    with b False have "maxpix_dst e = g_dst_pitch e div (g_dst_bpp e div 8)"
      by (auto simp: maxpix_dst_def bytespp_dst_def)
    then show ?thesis using fits_div b \<open>0 < g_dst_bpp e div 8\<close> by simp
  qed (use assms in \<open>simp add: maxpix_dst_def flush_ok_def fits_nibbles\<close>)
  obtain n where n: "maxpix_src e = Some n" "0 \<le> n" "\<forall>x. int x < n \<longrightarrow> fits (g_src_bpp e) (g_src_pitch e) x"
    using s by blast
  show thesis
  proof (rule that)
    show "line_limit e = Some (min (min (g_width e) (maxpix_dst e)) n)"
      using n by (auto simp: line_limit_def Let_def min_def)
  qed (use n d assms in \<open>auto simp: flush_ok_def\<close>)
qed

text \<open>What is read of a line for a pixel that fits in it stays inside the line.\<close>

lemma pixel_load_cong:
  assumes m: "\<forall>a. s \<le> a \<and> a < s + nat p \<longrightarrow> m a = m' a" and fit: "fits bpp p x"
  shows "bpp = 4 \<Longrightarrow> nibble m s x = nibble m' s x" "bpp = 8 \<Longrightarrow> m (s + x) = m' (s + x)"
    "bpp = 16 \<Longrightarrow> load16 m (s + 2 * x) = load16 m' (s + 2 * x)"
    "bpp = 24 \<Longrightarrow> load24 m (s + 3 * x) = load24 m' (s + 3 * x)"
    "bpp \<notin> {4, 8, 16, 24} \<Longrightarrow> load32 m (s + 4 * x) = load32 m' (s + 4 * x)"
proof -
  have m: "m (s + i) = m' (s + i)" if "int i < p" for i using m that by simp
  have lb: "load_bytes m (s + n * x) n = load_bytes m' (s + n * x) n" if "int (n * x + n) \<le> p" for n
    using m that by (auto simp: load_bytes_def add.assoc intro!: map_cong)
  show "bpp = 4 \<Longrightarrow> nibble m s x = nibble m' s x"
    using fit m [of "x div 2"] by (simp add: nibble_def fits_def)
  show "bpp = 8 \<Longrightarrow> m (s + x) = m' (s + x)" using fit m [of x] by (simp add: fits_def)
  show "bpp = 16 \<Longrightarrow> load16 m (s + 2 * x) = load16 m' (s + 2 * x)"
    using fit lb [of 2] by (simp add: fits_def load16_def)
  show "bpp = 24 \<Longrightarrow> load24 m (s + 3 * x) = load24 m' (s + 3 * x)"
    using fit m [of "3 * x"] m [of "3 * x + 1"] m [of "3 * x + 2"] by (simp add: fits_def load24_def)
  show "bpp \<notin> {4, 8, 16, 24} \<Longrightarrow> load32 m (s + 4 * x) = load32 m' (s + 4 * x)"
    using fit lb [of 4] by (simp add: fits_def load32_def)
qed

lemma expand_src_pixel_cong:
  assumes "\<forall>a. s \<le> a \<and> a < s + nat p \<longrightarrow> m a = m' a" "fits bpp p x"
  shows "expand_src_pixel e m s x bpp = expand_src_pixel e m' s x bpp"
  using pixel_load_cong [OF assms] by (simp add: expand_src_pixel_def)

lemma fb_pixel_cong:
  assumes "\<forall>a. d \<le> a \<and> a < d + nat (g_dst_pitch e) \<longrightarrow> m a = m' a"
    "fits (g_dst_bpp e) (g_dst_pitch e) x"
  shows "fb_pixel e m d x = fb_pixel e m' d x"
  using pixel_load_cong [OF assms] by (simp add: fb_pixel_def)

lemma spec_pixel_cong:
  assumes "\<forall>a. s \<le> a \<and> a < s + nat (g_src_pitch e) \<longrightarrow> m a = m' a"
    "fits (g_src_bpp e) (g_src_pitch e) x"
  shows "spec_pixel e m s x = spec_pixel e m' s x"
  unfolding spec_pixel_def Let_def expand_src_pixel_cong [OF assms]
  using pixel_load_cong(1,2) [OF assms] by simp

definition line_ok :: "emul \<Rightarrow> int \<Rightarrow> nat \<Rightarrow> nat \<Rightarrow> bool" where
  "line_ok e limit s d \<longleftrightarrow>
     0 \<le> limit \<and> limit < 2 ^ 31 \<and>
     (\<forall>x. int x < limit \<longrightarrow> fits (g_src_bpp e) (g_src_pitch e) x \<and> fits (g_dst_bpp e) (g_dst_pitch e) x) \<and>
     (s + nat (g_src_pitch e) \<le> d \<or> d + nat (g_dst_pitch e) \<le> s)"

definition line_done :: "emul \<Rightarrow> int \<Rightarrow> nat \<Rightarrow> nat \<Rightarrow> mem \<Rightarrow> mem \<Rightarrow> bool" where
  "line_done e limit s d m m' \<longleftrightarrow>
     (\<forall>a. a < d \<or> d + nat (g_dst_pitch e) \<le> a \<longrightarrow> m' a = m a) \<and>
     (\<forall>x. int x < limit \<longrightarrow> fb_pixel e m' d x = spec_pixel e m s x)"

text \<open>The loops over bytes of a line, one pixel or one pair of nibbles a step.\<close>

lemma line_source:
  assumes "line_ok e limit s d" "\<forall>a. a < d \<or> d + nat (g_dst_pitch e) \<le> a \<longrightarrow> m a = m0 a" "int x < limit"
  shows "expand_src_pixel e m s x (g_src_bpp e) = expand_src_pixel e m0 s x (g_src_bpp e)"
    "g_src_bpp e = 4 \<Longrightarrow> nibble m s x = nibble m0 s x" "g_src_bpp e = 8 \<Longrightarrow> m (s + x) = m0 (s + x)"
proof -
  have agree: "\<forall>a. s \<le> a \<and> a < s + nat (g_src_pitch e) \<longrightarrow> m a = m0 a"
    using assms(1,2) by (auto simp: line_ok_def)
  have fit: "fits (g_src_bpp e) (g_src_pitch e) x" using assms(1,3) by (simp add: line_ok_def)
  show "expand_src_pixel e m s x (g_src_bpp e) = expand_src_pixel e m0 s x (g_src_bpp e)"
    by (rule expand_src_pixel_cong [OF agree fit])
  show "g_src_bpp e = 4 \<Longrightarrow> nibble m s x = nibble m0 s x" "g_src_bpp e = 8 \<Longrightarrow> m (s + x) = m0 (s + x)"
    by (rule pixel_load_cong(1,2) [OF agree fit]; assumption)+
qed

lemma and_0x0F: "(w :: u8) AND 0x0F = take_bit 4 w"
  by (simp add: take_bit_eq_mask mask_eq_exp_minus_1)

lemma nibble_byte:
  assumes "m (d + x div 2) = push_bit 4 i OR j" "i < 16" "j < (16 :: u8)"
  shows "nibble m d x = (if odd x then j else i)"
proof -
  have "bit i k \<Longrightarrow> k < 4" "bit j k \<Longrightarrow> k < 4" for k
    using word_bit_bound [of i 4] word_bit_bound [of j 4] assms(2,3) by (auto simp: word_less_nat_alt)
  then have "\<not> bit j (4 + k)" "bit i k \<Longrightarrow> k < 4" "bit j k \<Longrightarrow> k < 4" for k by fastforce+
  then show ?thesis using assms(1)
    by (auto simp: nibble_def and_0x0F bit_simps intro!: bit_word_eqI)
qed

lemma nibble_less: "nibble m s x < 16"
proof -
  have "unat (take_bit 4 w) < 16" "unat (drop_bit 4 w) < 16" for w :: u8
    using unat_bound(1) [of w]
    by (simp_all add: take_bit_eq_mask unat_and_mask unat_shiftr less_mult_imp_div_less del: unat_bound)
  then show ?thesis by (simp add: nibble_def Let_def and_0x0F word_less_nat_alt)
qed

lemma and_0x0F_less: "(w :: u8) AND 0x0F < 16"
  using nibble_less [of "\<lambda>_. w" 0 1] by (simp add: nibble_def)

definition pair_byte :: "int \<Rightarrow> (nat \<Rightarrow> u8) \<Rightarrow> (nat \<Rightarrow> u8) \<Rightarrow> nat \<Rightarrow> u8" where
  "pair_byte limit v w k =
     push_bit 4 (v (2 * k)) OR (if int (2 * k + 1) < limit then v (2 * k + 1) else w (2 * k))"

lemma nibble_pair:
  assumes "m (d + x div 2) = pair_byte limit v w (x div 2)" "int x < limit"
    "\<And>x. int x < limit \<Longrightarrow> v x < 16 \<and> w x < 16"
  shows "nibble m d x = v x"
proof (cases "odd x")
  case True
  then obtain k where x: "x = 2 * k + 1" by (rule oddE)
  then have "m (d + x div 2) = push_bit 4 (v (2 * k)) OR v x" "int (2 * k) < limit"
    using assms(1,2) by (simp_all add: pair_byte_def)
  then show ?thesis using nibble_byte [of m d x "v (2 * k)" "v x"] assms(2) assms(3) [of "2 * k"] assms(3) [of x] True by simp
next
  case False
  then have "even x" by simp
  then obtain k where x: "x = 2 * k" by (rule evenE)
  define j where "j = (if int (x + 1) < limit then v (x + 1) else w x)"
  have "j < 16" using assms(2) assms(3) [of x] assms(3) [of "x + 1"] by (simp add: j_def)
  moreover have "m (d + x div 2) = push_bit 4 (v x) OR j"
    using assms(1) by (simp add: pair_byte_def x j_def)
  ultimately show ?thesis using nibble_byte [of m d x "v x" j] assms(2) assms(3) [of x] False by simp
qed

lemma line4_fold:
  assumes ok: "line_ok e limit s d" and bpp: "g_dst_bpp e = 4"
    and f: "\<And>k m. f k m = m(d + k := pair_byte limit (v m) (w m) k)"
    and dep: "\<And>x m m'. int x < limit \<Longrightarrow> \<forall>a. a < d \<or> d + nat (g_dst_pitch e) \<le> a \<longrightarrow> m' a = m a \<Longrightarrow> v m' x = v m x \<and> w m' x = w m x"
    and small: "\<And>x m. int x < limit \<Longrightarrow> v m x < 16 \<and> w m x < 16 \<and> ucast (v m x) = spec_pixel e m s x"
  shows "line_done e limit s d m (fold f [0..<nat ((limit + 1) div 2)] m)"
proof -
  have lim: "0 \<le> limit" "limit < 2 ^ 31" using ok by (auto simp: line_ok_def)
  define n where "n = nat ((limit + 1) div 2)"
  have half: "int (2 * k) < limit" if "k < n" for k using that lim unfolding n_def by linarith
  have le: "n \<le> nat (g_dst_pitch e)"
  proof (cases "n = 0")
    case False
    then have "int (2 * (n - 1)) < limit" using half [of "n - 1"] by simp
    then have "fits (g_dst_bpp e) (g_dst_pitch e) (2 * (n - 1))" using ok by (simp only: line_ok_def)
    then show ?thesis using bpp False by (simp add: fits_def)
  qed simp
  have g: "pair_byte limit (v m') (w m') k = pair_byte limit (v m) (w m) k"
    if k: "k < n" and out: "\<forall>a. a < d \<or> d + n \<le> a \<longrightarrow> m' a = m a" for k m'
  proof -
    have "\<forall>a. a < d \<or> d + nat (g_dst_pitch e) \<le> a \<longrightarrow> m' a = m a" using out le by auto
    then have "v m' x = v m x \<and> w m' x = w m x" if "int x < limit" for x using dep that by blast
    then show ?thesis using half [OF k] by (simp add: pair_byte_def)
  qed
  have fb: "(\<forall>a. a < d \<or> d + n \<le> a \<longrightarrow> fold f [0..<n] m a = m a) \<and>
      (\<forall>k<n. fold f [0..<n] m (d + k) = pair_byte limit (v m) (w m) k)"
    by (rule fold_upds [where g = "\<lambda>k m. pair_byte limit (v m) (w m) k"]) (rule f, erule (1) g)
  have "fold f [0..<n] m a = m a" if "a < d \<or> d + nat (g_dst_pitch e) \<le> a" for a
    using fb that le by auto
  moreover have "fb_pixel e (fold f [0..<n] m) d x = spec_pixel e m s x" if x: "int x < limit" for x
  proof -
    have "x div 2 < n" using x lim unfolding n_def by linarith
    then have "fold f [0..<n] m (d + x div 2) = pair_byte limit (v m) (w m) (x div 2)" using fb by simp
    then have "nibble (fold f [0..<n] m) d x = v m x" by (rule nibble_pair) (simp_all add: x small)
    then show ?thesis using bpp small [OF x] by (simp add: fb_pixel_def)
  qed
  ultimately show ?thesis by (simp add: line_done_def n_def)
qed

text \<open>Lines copied whole: the source and the destination have the same indexed format.\<close>

lemma line_copy:
  assumes ok: "line_ok e limit s d" and n: "n \<le> nat (g_src_pitch e)" "n \<le> nat (g_dst_pitch e)"
  shows "fst (sea_memcpy d s n m) = block_copy d s n m"
    "a < d \<or> d + nat (g_dst_pitch e) \<le> a \<Longrightarrow> block_copy d s n m a = m a"
    "i < n \<Longrightarrow> block_copy d s n m (d + i) = m (s + i)"
proof -
  have "d \<le> s \<or> s + n \<le> d" using ok n by (auto simp: line_ok_def)
  then show "fst (sea_memcpy d s n m) = block_copy d s n m" by (simp add: sea_memcpy_block)
qed (use n in \<open>auto simp: block_copy_def\<close>)

lemma half_fits:
  assumes "\<And>x. int x < limit \<Longrightarrow> fits 4 p x" "0 \<le> limit"
  shows "nat ((limit + 1) div 2) \<le> nat p"
proof (cases "limit = 0")
  case False
  have "fits 4 p (nat (limit - 1))" using assms(1) [of "nat (limit - 1)"] assms(2) False by simp
  then have "int (nat (limit - 1) div 2) < p" by (simp add: fits_def)
  then show ?thesis using assms(2) False by (simp add: nat_div_distrib)
qed simp

lemma flush_line4_done:
  assumes ok: "line_ok e limit s d" and dst: "g_dst_bpp e = 4"
  shows "line_done e limit s d m (flush_line4 e limit s d m)"
proof -
  have lim: "0 \<le> limit" "limit < 2 ^ 31" using ok by (auto simp: line_ok_def)
  consider "g_src_bpp e = 4" | "g_src_bpp e = 8" | "g_src_bpp e \<noteq> 4" "g_src_bpp e \<noteq> 8" by blast
  then show ?thesis
  proof cases
    case 1
    define n where "n = nat ((limit + 1) div 2)"
    have n: "n \<le> nat (g_src_pitch e)" "n \<le> nat (g_dst_pitch e)"
      using half_fits [of limit "g_src_pitch e"] half_fits [of limit "g_dst_pitch e"] ok 1 dst
      by (auto simp: line_ok_def n_def)
    have "size_arg ((limit + 1) div 2) = n" unfolding n_def using lim by (intro size_arg_pos) auto
    then have fl: "flush_line4 e limit s d m = block_copy d s n m"
      using line_copy(1) [OF ok n] 1 by (simp add: flush_line4_def)
    have "nibble (block_copy d s n m) d x = nibble m s x" if "int x < limit" for x
    proof -
      have "x div 2 < n" using that lim unfolding n_def by linarith
      then show ?thesis using line_copy(3) [OF ok n] by (simp add: nibble_def)
    qed
    then show ?thesis unfolding fl line_done_def
      using line_copy(2) [OF ok n] dst 1 by (simp add: fb_pixel_def spec_pixel_def Let_def)
  next
    case 2
    have "line_done e limit s d m (fold (\<lambda>k m. m(d + k := pair_byte limit (\<lambda>x. m (s + x) AND 0x0F) (\<lambda>x. 0) k))
        [0..<nat ((limit + 1) div 2)] m)"
    proof (rule line4_fold [where v = "\<lambda>m x. m (s + x) AND 0x0F" and w = "\<lambda>m x. 0", OF ok dst refl])
      show "(m' (s + x) AND 0x0F) = m (s + x) AND 0x0F \<and> (0 :: u8) = 0"
        if "int x < limit" "\<forall>a. a < d \<or> d + nat (g_dst_pitch e) \<le> a \<longrightarrow> m' a = m a" for x and m m' :: mem
        using line_source(3) [OF ok _ that(1), of m' m] that 2 by simp
    qed (simp add: 2 dst spec_pixel_def Let_def and_0x0F_less)
    then show ?thesis by (simp add: flush_line4_def 2 Let_def pair_byte_def)
  next
    case 3
    let ?v = "\<lambda>m x. nearest_vga16_index (expand_src_pixel e m s x (g_src_bpp e))"
    have "line_done e limit s d m (fold (\<lambda>k m. m(d + k := pair_byte limit (?v m) (?v m) k))
        [0..<nat ((limit + 1) div 2)] m)"
    proof (rule line4_fold [where v = ?v and w = ?v, OF ok dst refl])
      show "?v m' x = ?v m x \<and> ?v m' x = ?v m x"
        if "int x < limit" "\<forall>a. a < d \<or> d + nat (g_dst_pitch e) \<le> a \<longrightarrow> m' a = m a" for x and m m' :: mem
        using line_source(1) [OF ok _ that(1), of m' m] that by simp
    qed (simp add: 3 dst spec_pixel_def Let_def nearest_vga16_less)
    moreover have "(if c then nearest_vga16_index a else nearest_vga16_index b) = nearest_vga16_index (if c then a else b)" for c a b
      by simp
    ultimately show ?thesis by (simp add: flush_line4_def 3 Let_def pair_byte_def)
  qed
qed

lemma line_ok_width:
  assumes "line_ok e limit s d" "\<And>x. fits (g_dst_bpp e) (g_dst_pitch e) x \<Longrightarrow> int (x * w + w) \<le> g_dst_pitch e"
  shows "nat limit * w \<le> nat (g_dst_pitch e)"
proof (cases "limit = 0")
  case False
  then have l: "0 < limit" using assms(1) by (simp add: line_ok_def)
  then have "fits (g_dst_bpp e) (g_dst_pitch e) (nat (limit - 1))" using assms(1) by (simp add: line_ok_def)
  then have "nat (limit - 1) * w + w \<le> nat (g_dst_pitch e)" using assms(2) by (metis zle_int nat_int nat_mono)
  moreover have "nat limit = Suc (nat (limit - 1))" using l by linarith
  ultimately show ?thesis by (simp add: add.commute)
qed simp

lemma line8_fold:
  assumes ok: "line_ok e limit s d" and dst: "g_dst_bpp e = 8"
    and f: "\<And>x m. f x m = m(d + x := v m x)"
    and dep: "\<And>x m m'. int x < limit \<Longrightarrow> \<forall>a. a < d \<or> d + nat (g_dst_pitch e) \<le> a \<longrightarrow> m' a = m a \<Longrightarrow> v m' x = v m x"
    and spec: "\<And>x m. int x < limit \<Longrightarrow> ucast (v m x) = spec_pixel e m s x"
  shows "line_done e limit s d m (fold f [0..<nat limit] m)"
proof -
  have le: "nat limit \<le> nat (g_dst_pitch e)"
    using line_ok_width [OF ok, of 1] dst by (simp add: fits_def)
  have "(\<forall>a. a < d \<or> d + nat limit \<le> a \<longrightarrow> fold f [0..<nat limit] m a = m a) \<and>
      (\<forall>x<nat limit. fold f [0..<nat limit] m (d + x) = v m x)"
  proof (rule fold_upds [where g = "\<lambda>x m. v m x"])
    show "v m' x = v m x" if "x < nat limit" "\<forall>a. a < d \<or> d + nat limit \<le> a \<longrightarrow> m' a = m a" for x m'
      using dep [of x m' m] that le by auto
  qed (rule f)
  then show ?thesis using le dst spec by (auto simp: line_done_def fb_pixel_def)
qed

lemma flush_line8_done:
  assumes ok: "line_ok e limit s d" and dst: "g_dst_bpp e = 8"
  shows "line_done e limit s d m (flush_line8 e limit s d m)"
proof -
  have lim: "0 \<le> limit" "limit < 2 ^ 31" using ok by (auto simp: line_ok_def)
  consider "g_src_bpp e = 4" | "g_src_bpp e = 8" | "g_src_bpp e \<noteq> 4" "g_src_bpp e \<noteq> 8" by blast
  then show ?thesis
  proof cases
    case 1
    have "line_done e limit s d m (fold (\<lambda>x m. m(d + x := nibble m s x)) [0..<nat limit] m)"
    proof (rule line8_fold [where v = "\<lambda>m x. nibble m s x", OF ok dst refl])
      show "nibble m' s x = nibble m s x"
        if "int x < limit" "\<forall>a. a < d \<or> d + nat (g_dst_pitch e) \<le> a \<longrightarrow> m' a = m a" for x and m m' :: mem
        using line_source(2) [OF ok _ that(1), of m' m] that 1 by simp
    qed (simp add: 1 dst spec_pixel_def Let_def)
    moreover have "flush_line8 e limit s d m = fold (\<lambda>x m. m(d + x := nibble m s x)) [0..<nat limit] m"
    proof -
      have n: "nat ((limit + 1) div 2) = (nat limit + 1) div 2" using lim by (simp add: nat_div_distrib nat_add_distrib)
      have "s + k \<noteq> d + 2 * k" if "2 * k < nat limit" for k
      proof -
        have "fits 4 (g_src_pitch e) (2 * k)" "fits 8 (g_dst_pitch e) (2 * k)"
          using ok that 1 dst by (simp_all add: line_ok_def zless_nat_eq_int_zless)
        then show ?thesis using ok by (auto simp: line_ok_def fits_def)
      qed
      moreover have "drop_bit 4 b AND 0x0F = drop_bit 4 b" for b :: u8
        unfolding and_0x0F by (rule bit_word_eqI) (auto simp: bit_simps dest: bit_imp_le_length)
      ultimately show ?thesis unfolding flush_line8_def n
        by (simp only: 1 simp_thms if_True) (rule fold_pairs, auto simp: nibble_def Let_def)
    qed
    ultimately show ?thesis by simp
  next
    case 2
    have "fits 8 (g_src_pitch e) (nat (limit - 1))" if "0 < limit" using ok that 2 by (simp add: line_ok_def)
    then have n: "nat limit \<le> nat (g_dst_pitch e)" "nat limit \<le> nat (g_src_pitch e)"
      using line_ok_width [OF ok, of 1] dst lim by (cases "limit = 0"; auto simp: fits_def)+
    have "size_arg limit = nat limit" using lim by (intro size_arg_pos) auto
    then have fl: "flush_line8 e limit s d m = block_copy d s (nat limit) m"
      using line_copy(1) [OF ok n(2,1)] 2 by (simp add: flush_line8_def)
    show ?thesis unfolding fl line_done_def
      using line_copy(2,3) [OF ok n(2,1)] dst 2 by (auto simp: fb_pixel_def spec_pixel_def Let_def)
  next
    case 3
    let ?v = "\<lambda>m x. nearest_vga256_index e (expand_src_pixel e m s x (g_src_bpp e))"
    have "line_done e limit s d m (fold (\<lambda>x m. m(d + x := ?v m x)) [0..<nat limit] m)"
    proof (rule line8_fold [where v = ?v, OF ok dst refl])
      show "?v m' x = ?v m x"
        if "int x < limit" "\<forall>a. a < d \<or> d + nat (g_dst_pitch e) \<le> a \<longrightarrow> m' a = m a" for x and m m' :: mem
        using line_source(1) [OF ok _ that(1), of m' m] that by simp
    qed (simp add: 3 dst spec_pixel_def Let_def)
    then show ?thesis by (simp add: flush_line8_def 3 Let_def)
  qed
qed

text \<open>True colour destinations: every step stores the bytes of one pixel.\<close>

definition pixel_bytes :: "emul \<Rightarrow> u32 \<Rightarrow> u8 list" where
  "pixel_bytes e c =
     (if g_dst_bpp e = 32 then le_bytes 4 c
      else if g_dst_bpp e = 24 then [chan_r c, chan_g c, chan_b c]
      else le_bytes 2 (rgb565 c))"

lemma put_pixel_bytes:
  assumes "g_dst_bpp e \<in> {16, 24, 32}"
  shows "put_pixel e d x c m = store_bytes (d + x * nat (g_dst_bpp e div 8)) (pixel_bytes e c) m"
    and "length (pixel_bytes e c) = nat (g_dst_bpp e div 8)"
  using assms
  by (auto simp: put_pixel_def pixel_bytes_def store32_def store16_def mult.commute fun_eq_iff store_bytes_def
      nth_Cons numeral_3_eq_3 split: nat.splits)

lemma load24_chans: "load24 m a = c AND 0xFFFFFF"
  if "m a = chan_r c" "m (a + 1) = chan_g c" "m (a + 2) = chan_b c"
proof -
  have "(0xFFFFFF :: u32) = mask 24" by (simp add: mask_eq_exp_minus_1)
  then have "c AND 0xFFFFFF = take_bit 24 c" by (simp only: take_bit_eq_mask)
  moreover have "bit (load24 m a) n \<longleftrightarrow> n < 24 \<and> bit c n" for n
    using that by (cases "n < 16") (auto simp: load24_def chan_r_def chan_g_def chan_b_def bit_simps)
  ultimately show ?thesis by (intro bit_word_eqI) (simp add: bit_take_bit_iff)
qed

lemma fb_pixel_bytes:
  assumes "g_dst_bpp e \<in> {16, 24, 32}"
    "\<forall>j<nat (g_dst_bpp e div 8). m (d + x * nat (g_dst_bpp e div 8) + j) = pixel_bytes e c ! j"
  shows "fb_pixel e m d x =
    (if g_dst_bpp e = 16 then ucast (rgb565 c) else if g_dst_bpp e = 24 then c AND 0xFFFFFF else c)"
proof -
  have "load_bytes m (d + x * nat (g_dst_bpp e div 8)) (nat (g_dst_bpp e div 8)) = pixel_bytes e c"
    using assms put_pixel_bytes(2) [of e] by (intro nth_equalityI) auto
  then show ?thesis using assms(1) load24_chans [of m "d + 3 * x" c] assms(2)
    by (auto simp: fb_pixel_def load32_def load16_def pixel_bytes_def of_le_le_bytes mult.commute
        numeral_3_eq_3 All_less_Suc)
qed

lemma true_colour_done:
  assumes ok: "line_ok e limit s d" and dst: "g_dst_bpp e \<in> {16, 24, 32}"
  shows "line_done e limit s d m
    (fold (\<lambda>x m. put_pixel e d x (expand_src_pixel e m s x (g_src_bpp e)) m) [0..<nat limit] m)"
    (is "line_done e limit s d m ?m'")
proof -
  define w where "w = nat (g_dst_bpp e div 8)"
  let ?c = "\<lambda>m x. expand_src_pixel e m s x (g_src_bpp e)"
  have le: "nat limit * w \<le> nat (g_dst_pitch e)"
    by (rule line_ok_width [OF ok]) (use dst in \<open>auto simp: fits_def w_def\<close>)
  have "(\<forall>a. a < d \<or> d + nat limit * w \<le> a \<longrightarrow> ?m' a = m a) \<and>
      (\<forall>x<nat limit. \<forall>j<w. ?m' (d + x * w + j) = pixel_bytes e (?c m x) ! j)"
  proof (rule fold_bytes [where g = "\<lambda>x m. pixel_bytes e (?c m x)"])
    show "pixel_bytes e (?c m' x) = pixel_bytes e (?c m x)"
      if "x < nat limit" "\<forall>a. a < d \<or> d + nat limit * w \<le> a \<longrightarrow> m' a = m a" for x m'
    proof -
      have "?c m' x = ?c m x" by (rule line_source(1) [OF ok]) (use that le in \<open>auto simp: zless_nat_eq_int_zless\<close>)
      then show ?thesis by simp
    qed
  qed (simp_all add: put_pixel_bytes [OF dst] w_def)
  moreover have "spec_pixel e m s x =
      (if g_dst_bpp e = 16 then ucast (rgb565 (?c m x)) else if g_dst_bpp e = 24 then ?c m x AND 0xFFFFFF else ?c m x)" for x
    using dst by (auto simp: spec_pixel_def Let_def)
  ultimately show ?thesis using le fb_pixel_bytes [OF dst, of ?m' d _ "?c m _"]
    by (auto simp: line_done_def w_def zless_nat_eq_int_zless)
qed

section \<open>The whole frame\<close>

lemma line_ptr_pos: "0 \<le> pitch \<Longrightarrow> line_ptr p pitch y = unat p + y * nat pitch"
  unfolding line_ptr_def by (simp only: uint_nat) (simp add: nat_add_distrib nat_mult_distrib)

lemma flush_line_done:
  assumes "line_ok e limit (line_ptr (g_shadow_ptr e) (g_src_pitch e) y) (line_ptr (g_dst_ptr e) (g_dst_pitch e) y)"
    "g_dst_bpp e \<in> {4, 8, 16, 24, 32}"
  shows "line_done e limit (line_ptr (g_shadow_ptr e) (g_src_pitch e) y)
    (line_ptr (g_dst_ptr e) (g_dst_pitch e) y) m (flush_line e limit y m)"
  using assms flush_line4_done flush_line8_done true_colour_done
  by (auto simp: flush_line_def Let_def)

lemma frame_apart:
  assumes ok: "flush_ok e" and y: "int y < g_height e" "int y' < g_height e"
  defines "s \<equiv> unat (g_shadow_ptr e)" and "d \<equiv> unat (g_dst_ptr e)"
    and "sp \<equiv> nat (g_src_pitch e)" and "dp \<equiv> nat (g_dst_pitch e)"
  shows "s + y * sp + sp \<le> d + y' * dp \<or> d + y' * dp + dp \<le> s + y * sp"
    "s + y * sp + sp \<le> d \<or> d + nat (g_height e) * dp \<le> s + y * sp"
proof -
  have "Suc y * sp \<le> nat (g_height e) * sp" "Suc y' * dp \<le> nat (g_height e) * dp"
    using y by (intro mult_le_mono1; linarith)+
  moreover have "int (nat (g_height e) * sp) = g_height e * g_src_pitch e"
    "int (nat (g_height e) * dp) = g_height e * g_dst_pitch e"
    using ok by (simp_all add: flush_ok_def sp_def dp_def)
  then have "s + nat (g_height e) * sp \<le> d \<or> d + nat (g_height e) * dp \<le> s"
    using ok unfolding flush_ok_def s_def d_def by (simp only: uint_nat) linarith
  ultimately show "s + y * sp + sp \<le> d + y' * dp \<or> d + y' * dp + dp \<le> s + y * sp"
    "s + y * sp + sp \<le> d \<or> d + nat (g_height e) * dp \<le> s + y * sp" by (simp_all; linarith)+
qed

lemma flush_frame:
  assumes ok: "flush_ok e" and l: "0 \<le> l" "l < 2 ^ 31"
    "\<And>x. int x < l \<Longrightarrow> fits (g_src_bpp e) (g_src_pitch e) x"
    "\<And>x. int x < l \<Longrightarrow> fits (g_dst_bpp e) (g_dst_pitch e) x"
  defines "n \<equiv> nat (g_height e)" and "d \<equiv> unat (g_dst_ptr e)" and "dp \<equiv> nat (g_dst_pitch e)"
  shows "(\<forall>a. a < d \<or> d + n * dp \<le> a \<longrightarrow> fold (flush_line e l) [0..<n] m a = m a) \<and>
    (\<forall>y<n. \<forall>x. int x < l \<longrightarrow> fb_pixel e (fold (flush_line e l) [0..<n] m) (d + y * dp) x =
       spec_pixel e m (line_ptr (g_shadow_ptr e) (g_src_pitch e) y) x)"
proof (rule fold_slots [where n = n])
  have pos: "0 \<le> g_src_pitch e" "0 \<le> g_dst_pitch e" using ok by (auto simp: flush_ok_def)
  have dl: "line_ptr (g_dst_ptr e) (g_dst_pitch e) y = d + y * dp" for y
    using pos by (simp add: line_ptr_pos d_def dp_def)
  have sl: "line_ptr (g_shadow_ptr e) (g_src_pitch e) y = unat (g_shadow_ptr e) + y * nat (g_src_pitch e)" for y
    using pos by (simp add: line_ptr_pos)
  have lo: "line_ok e l (line_ptr (g_shadow_ptr e) (g_src_pitch e) y) (d + y * dp)" if "y < n" for y
    using l frame_apart(1) [OF ok, of y y] that unfolding line_ok_def sl d_def dp_def n_def
    by (auto simp: zless_nat_eq_int_zless)
  have ld: "line_done e l (line_ptr (g_shadow_ptr e) (g_src_pitch e) y) (d + y * dp) m (flush_line e l y m)" if "y < n" for y m
    using flush_line_done [of e l y m] lo [OF that] ok unfolding dl by (auto simp: flush_ok_def)
  show "flush_line e l y m a = m a" if "y < n" "a < d + y * dp \<or> d + y * dp + dp \<le> a" for y m a
    using ld [OF that(1), of m] that(2) by (auto simp: line_done_def dp_def)
  show "\<forall>x. int x < l \<longrightarrow> fb_pixel e (flush_line e l y m') (d + y * dp) x =
      spec_pixel e m (line_ptr (g_shadow_ptr e) (g_src_pitch e) y) x"
    if y: "y < n" and out: "\<And>a. a < d \<or> d + n * dp \<le> a \<Longrightarrow> m' a = m a" for y m'
  proof -
    have "m' a = m a" if "line_ptr (g_shadow_ptr e) (g_src_pitch e) y \<le> a"
        "a < line_ptr (g_shadow_ptr e) (g_src_pitch e) y + nat (g_src_pitch e)" for a
      using that frame_apart(2) [OF ok, of y y] y unfolding sl
      by (intro out) (auto simp: d_def dp_def n_def zless_nat_eq_int_zless)
    then show ?thesis
      using ld [OF y, of m'] l(3) spec_pixel_cong [of "line_ptr (g_shadow_ptr e) (g_src_pitch e) y" e m' m]
      by (simp add: line_done_def)
  qed
  show "\<forall>x. int x < l \<longrightarrow> fb_pixel e m1 (d + y * dp) x = spec_pixel e m (line_ptr (g_shadow_ptr e) (g_src_pitch e) y) x"
    if "y < n" "\<And>a. d + y * dp \<le> a \<Longrightarrow> a < d + y * dp + dp \<Longrightarrow> m1 a = m2 a"
      "\<forall>x. int x < l \<longrightarrow> fb_pixel e m2 (d + y * dp) x = spec_pixel e m (line_ptr (g_shadow_ptr e) (g_src_pitch e) y) x"
    for y m1 m2
    using that fb_pixel_cong [of "d + y * dp" e m1 m2] l(4) by (simp add: dp_def)
qed simp


text \<open>A two pixel wide grey mode: 8-bit indices at \<^verbatim>\<open>0x1000\<close>, a 32-bit framebuffer at \<^verbatim>\<open>0x2000\<close>.\<close>

definition emul_example :: emul where
  "emul_example = \<lparr>cbvga_palette = replicate 256 (0, 0, 0), cbvga_palette_argb = map of_nat [0..<256],
     default_vga256_palette = replicate 256 (0, 0, 0), g_shadow_ptr = 0x1000, g_dst_ptr = 0x2000,
     g_src_pitch = 2, g_dst_pitch = 8, g_width = 2, g_height = 1, g_src_bpp = 8, g_dst_bpp = 32,
     g_red_mask_size = 8, g_green_mask_size = 8, g_blue_mask_size = 8,
     g_red_mask_pos = 16, g_green_mask_pos = 8, g_blue_mask_pos = 0\<rparr>"

definition shadow_example :: mem where
  "shadow_example = (\<lambda>a. if a = 0x1000 then 7 else if a = 0x1001 then 9 else 0)"


text \<open>
  A source depth below 8 bits other than 4, such as a 1 or 2 bit CGA mode, makes the flush divide by
  zero on the first line.
\<close>

lemma cbvga_pal_flush_divides_by_zero:
  assumes "g_shadow_ptr e \<noteq> 0" "g_dst_ptr e \<noteq> 0" "0 < g_height e" "g_src_bpp e \<in> {0, 1, 2, 3, 5, 6, 7}"
  shows "cbvga_pal_flush e m = None"
  using assms by (auto simp: cbvga_pal_flush_def line_limit_def maxpix_src_def signed_divide_int_def)

end
