(* ===== verification/Coreboot.thy ===== *)
theory Coreboot
  imports Libc
begin

text \<open>
  The coreboot table through which CSMWrap tells SeaVGABIOS about the frame buffer: the writer
  \<^verbatim>\<open>build_coreboot_table\<close> (\<^verbatim>\<open>src/coreboot.c\<close>) and the reader in SeaBIOS
  (\<^verbatim>\<open>ipchksum\<close> to \<^verbatim>\<open>find_cb_table\<close> of \<^verbatim>\<open>seabios/src/fw/coreboot.c\<close>).  They compute the checksums with
  different algorithms; both are shown to be the ones' complement sum, and the reader is shown
  to find what the writer wrote.
\<close>

section \<open>Constants and structures\<close>

definition CB_TABLE_START :: nat where "CB_TABLE_START = 0x500"
definition CB_HEADER_SIGNATURE :: u32 where "CB_HEADER_SIGNATURE = 0x4F49424C"
definition CB_SIGNATURE :: u32 where "CB_SIGNATURE = 0x4F49424C"
definition CB_TAG_FRAMEBUFFER :: u32 where "CB_TAG_FRAMEBUFFER = 0x12"
definition CB_TAG_FORWARD :: u32 where "CB_TAG_FORWARD = 0x11"

datatype csmwrap_video_type =
  CSMWRAP_VIDEO_NONE | CSMWRAP_VIDEO_OPROM | CSMWRAP_VIDEO_SEAVGABIOS | CSMWRAP_VIDEO_FALLBACK

record cb_framebuffer =
  fb_tag :: u32
  fb_size :: u32
  physical_address :: u64
  x_resolution :: u32
  y_resolution :: u32
  bytes_per_line :: u32
  bits_per_pixel :: u8
  red_mask_pos :: u8
  red_mask_size :: u8
  green_mask_pos :: u8
  green_mask_size :: u8
  blue_mask_pos :: u8
  blue_mask_size :: u8
  reserved_mask_pos :: u8
  reserved_mask_size :: u8

text \<open>
  The 40 bytes of the structure: 37 bytes of fields and three bytes of padding, whose content is
  whatever the memory of the structure holds.
\<close>

definition cb_framebuffer_bytes :: "cb_framebuffer \<Rightarrow> u8 \<times> u8 \<times> u8 \<Rightarrow> u8 list" where
  "cb_framebuffer_bytes f pad =
     le_bytes 4 (fb_tag f) @ le_bytes 4 (fb_size f) @ le_bytes 8 (physical_address f) @
     le_bytes 4 (x_resolution f) @ le_bytes 4 (y_resolution f) @ le_bytes 4 (bytes_per_line f) @
     [bits_per_pixel f, red_mask_pos f, red_mask_size f, green_mask_pos f, green_mask_size f,
      blue_mask_pos f, blue_mask_size f, reserved_mask_pos f, reserved_mask_size f] @
     (case pad of (x, y, z) \<Rightarrow> [x, y, z])"

definition read_cb_framebuffer :: "mem \<Rightarrow> nat \<Rightarrow> cb_framebuffer" where
  "read_cb_framebuffer m p =
     \<lparr>fb_tag = load32 m p, fb_size = load32 m (p + 4), physical_address = load64 m (p + 8),
      x_resolution = load32 m (p + 16), y_resolution = load32 m (p + 20),
      bytes_per_line = load32 m (p + 24), bits_per_pixel = m (p + 28),
      red_mask_pos = m (p + 29), red_mask_size = m (p + 30),
      green_mask_pos = m (p + 31), green_mask_size = m (p + 32),
      blue_mask_pos = m (p + 33), blue_mask_size = m (p + 34),
      reserved_mask_pos = m (p + 35), reserved_mask_size = m (p + 36)\<rparr>"

section \<open>The writer\<close>

definition CbCheckSum16_step :: "mem \<Rightarrow> nat \<Rightarrow> nat \<Rightarrow> u32 \<Rightarrow> u32" where
  "CbCheckSum16_step m p Idx csum =
     (let TmpValue = ucast (m (p + Idx));
          TmpValue = (if Idx mod 2 = 1 then push_bit 8 TmpValue else TmpValue);
          csum = csum + TmpValue
      in if csum \<ge> 0x10000 then (csum + drop_bit 16 csum) AND 0xFFFF else csum)"

definition CbCheckSum16 :: "mem \<Rightarrow> nat \<Rightarrow> nat \<Rightarrow> u16" where
  "CbCheckSum16 m Buffer Len =
     ucast (NOT (fold (CbCheckSum16_step m Buffer) [0..<Len] 0) AND 0xFFFF)"

definition build_coreboot_table ::
  "csmwrap_video_type \<Rightarrow> cb_framebuffer \<Rightarrow> u8 \<times> u8 \<times> u8 \<Rightarrow> mem \<Rightarrow> mem \<times> int" where
  "build_coreboot_table video_type cb_fb pad m =
     (let header = CB_TABLE_START;
          m = fst (libc_memset header 0 24 m);
          m = store32 header CB_HEADER_SIGNATURE m;
          m = store32 (header + 4) 24 m;
          tables = header + unat (load32 m (header + 4));
          (m, p, table_entries) =
            (if video_type \<noteq> CSMWRAP_VIDEO_OPROM then
               let m = store_bytes tables (cb_framebuffer_bytes cb_fb pad) m;
                   m = store32 tables CB_TAG_FRAMEBUFFER m;
                   m = store32 (tables + 4) 40 m
               in (m, tables + unat (load32 m (tables + 4)), 1)
             else (m, tables, 0));
          m = store32 (header + 20) table_entries m;
          m = store32 (header + 12) (of_nat (p - tables)) m;
          m = store32 (header + 16) (ucast (CbCheckSum16 m tables (unat (load32 m (header + 12))))) m;
          m = store32 (header + 8) (ucast (CbCheckSum16 m header (unat (load32 m (header + 4))))) m
      in (m, 0))"

section \<open>The reader\<close>

function ipchksum_loop :: "mem \<Rightarrow> nat \<Rightarrow> int \<Rightarrow> u32 \<Rightarrow> nat \<times> int \<times> u32" where
  "ipchksum_loop m p count csum =
     (if count > 1 then ipchksum_loop m (p + 2) (count - 2) (csum + ucast (load16 m p))
      else (p, count, csum))"
  by pat_completeness auto
termination
  by (relation "measure (\<lambda>(m, p, count, csum). nat count)") auto

declare ipchksum_loop.simps [simp del]

definition ipchksum :: "mem \<Rightarrow> nat \<Rightarrow> int \<Rightarrow> u16" where
  "ipchksum m buf count =
     (let (p, count, csum) = ipchksum_loop m buf count 0;
          csum = (if count \<noteq> 0 then csum + ucast (m p) else csum);
          csum = drop_bit 16 csum + (csum AND 0xFFFF);
          csum = csum + drop_bit 16 csum
      in ucast (NOT csum))"

text \<open>
  Whether the loop of \<^verbatim>\<open>find_cb_header\<close> stops at this address.  \<^verbatim>\<open>tsize\<close> is passed as a signed
  32-bit argument.
\<close>

definition cb_header_ok :: "mem \<Rightarrow> u32 \<Rightarrow> bool" where
  "cb_header_ok m addr =
     (let a = unat addr; tsize = load32 m (a + 12) in
      load32 m a = CB_SIGNATURE \<and> tsize \<noteq> 0 \<and> ipchksum m a 24 = 0 \<and>
      ucast (ipchksum m (a + 24) (sint tsize)) = load32 m (a + 16))"

text \<open>
  The loop over 16-byte steps ends with a pointer or \<^verbatim>\<open>NULL\<close>; the outer option is \<open>None\<close> if it runs
  forever, which takes an end so close to 4 GiB that the address wraps around.
\<close>

partial_function (option) find_cb_header_loop :: "mem \<Rightarrow> u32 \<Rightarrow> u32 \<Rightarrow> u32 option option" where
  "find_cb_header_loop m addr en =
     (if addr < en then
        (if cb_header_ok m addr then Some (Some addr) else find_cb_header_loop m (addr + 16) en)
      else Some None)"

definition find_cb_header :: "mem \<Rightarrow> u32 \<Rightarrow> u32 \<Rightarrow> u32 option option" where
  "find_cb_header m addr len = find_cb_header_loop m addr (addr + len)"

fun find_cb_subtable_loop :: "mem \<Rightarrow> u32 \<Rightarrow> u32 \<Rightarrow> nat \<Rightarrow> u32 option" where
  "find_cb_subtable_loop m tbl tag 0 = None"
| "find_cb_subtable_loop m tbl tag (Suc n) =
     (if load32 m (unat tbl) = tag then Some tbl
      else find_cb_subtable_loop m (tbl + load32 m (unat tbl + 4)) tag n)"

definition find_cb_subtable :: "mem \<Rightarrow> u32 \<Rightarrow> u32 \<Rightarrow> u32 option" where
  "find_cb_subtable m cbh tag =
     find_cb_subtable_loop m (cbh + 24) tag (unat (load32 m (unat cbh + 20)))"

definition find_cb_table :: "mem \<Rightarrow> u32 option option" where
  "find_cb_table m =
     (case find_cb_header m 0 0x1000 of
        None \<Rightarrow> None
      | Some None \<Rightarrow> Some None
      | Some (Some cbh) \<Rightarrow>
          (case find_cb_subtable m cbh CB_TAG_FORWARD of
             None \<Rightarrow> Some (Some cbh)
           | Some cbf \<Rightarrow> find_cb_header m (ucast (load64 m (unat cbf + 8))) 0x100))"

section \<open>The ones' complement sum\<close>

text \<open>
  The sum of the little-endian 16-bit words of a byte string, and its ones' complement value:
  0 only for the sum 0, otherwise the representative in 1 to 65535.
\<close>

fun sum16 :: "u8 list \<Rightarrow> nat" where
  "sum16 (a # b # bs) = unat a + 256 * unat b + sum16 bs"
| "sum16 [a] = unat a"
| "sum16 [] = 0"

definition ones :: "nat \<Rightarrow> nat" where
  "ones t = (if t = 0 then 0 else (t - 1) mod 65535 + 1)"

lemma ones_less: "ones t < 65536"
  using mod_less_divisor [of 65535 "t - 1"] by (simp add: ones_def)

lemma ones_id: "t < 65536 \<Longrightarrow> ones t = t"
  by (simp add: ones_def)

lemma ones_step: "ones (t + 65535) = (if t = 0 then 65535 else ones t)"
  by (cases t) (simp_all add: ones_def)

lemma ones_add:
  assumes "v < 65536"
  shows "ones (t + v) = (if ones t + v < 65536 then ones t + v else ones t + v - 65535)"
proof (cases "t = 0")
  case True
  then show ?thesis using assms by (simp add: ones_def)
next
  case False
  define r where "r = (t - Suc 0) mod 65535"
  have r: "r < 65535" by (simp add: r_def)
  have "(t + v - 1) mod 65535 = (r + v) mod 65535"
    using False by (simp add: r_def mod_add_left_eq)
  also have "\<dots> = (if r + v < 65535 then r + v else r + v - 65535)"
    using r assms by (auto simp: mod_if)
  finally show ?thesis using False by (auto simp: ones_def r_def [symmetric])
qed

lemma sum16_append: "even (length xs) \<Longrightarrow> sum16 (xs @ ys) = sum16 xs + sum16 ys"
  by (induction xs rule: sum16.induct) auto

lemma sum16_snoc:
  "sum16 (xs @ [b]) = sum16 xs + (if odd (length xs) then 256 * unat b else unat b)"
  by (induction xs rule: sum16.induct) auto

lemma sum16_bound: "sum16 bs \<le> 65535 * ((length bs + 1) div 2)"
proof (induction bs rule: sum16.induct)
  case (1 a b bs)
  have "unat a + 256 * unat b \<le> 65535"
    using unat_bound(1) [of a] unat_bound(1) [of b] by linarith
  with 1 show ?case by simp
next
  case (2 a)
  then show ?case using unat_bound(1) [of a] by (simp del: unat_bound)
qed simp

lemma ones_mult: "t \<noteq> 0 \<Longrightarrow> ones (t + 65535 * q) = ones t"
  by (induction q) (simp_all add: ones_step add.assoc [symmetric] add.commute [of 65535])

lemma ones_fold:
  assumes "t < 4294967296"
  shows "(t div 65536 + t mod 65536 + (t div 65536 + t mod 65536) div 65536) mod 65536 = ones t"
proof (cases "t = 0")
  case False
  define x where "x = t div 65536 + t mod 65536"
  have "t = x + 65535 * (t div 65536)"
    using mult_div_mod_eq [of 65536 t] by (simp add: x_def)
  moreover have "x \<noteq> 0" using False by (auto simp: x_def)
  ultimately have "ones t = ones x" using ones_mult [of x "t div 65536"] by simp
  moreover have "x \<le> 131070" using assms by (simp add: x_def)
  moreover have "(x + x div 65536) mod 65536 = ones x" if "x < 65536"
    using that by (simp add: ones_id)
  moreover have "(x + x div 65536) mod 65536 = ones x" if "65536 \<le> x" "x \<le> 131070"
  proof -
    obtain y where y: "x = y + 65536" using \<open>65536 \<le> x\<close> by (metis add.commute le_Suc_ex)
    then have "x div 65536 = 1" using that(2) by simp
    then have "(x + x div 65536) mod 65536 = (y + 1 + 65536) mod 65536" using y by simp
    also have "\<dots> = y + 1" using that(2) y by (subst mod_add_self2) simp
    finally have "(x + x div 65536) mod 65536 = y + 1" .
    moreover have "ones x = ones (y + 1)" using ones_step [of "y + 1"] y by (simp add: add.commute)
    ultimately show ?thesis using y that(2) by (simp add: ones_id)
  qed
  ultimately show ?thesis by (fold x_def) (metis not_le)
qed (simp add: ones_def)

lemma CbCheckSum16_step_ones:
  assumes "unat s = ones t"
  shows "unat (CbCheckSum16_step m p i s) =
    ones (t + (if odd i then 256 * unat (m (p + i)) else unat (m (p + i))))"
proof -
  define v where "v = (if odd i then 256 * unat (m (p + i)) else unat (m (p + i)))"
  define w where "w = (if i mod 2 = 1 then push_bit 8 (ucast (m (p + i))) else ucast (m (p + i)) :: u32)"
  have v: "v < 65536" using unat_bound(1) [of "m (p + i)"] by (auto simp: v_def simp del: unat_bound)
  have "unat w = v"
    using v unat_bound(1) [of "m (p + i)"]
    by (auto simp: w_def v_def odd_iff_mod_2_eq_one push_bit_eq_mult unat_word_ariths simp del: unat_bound)
  then have sw: "unat (s + w) = ones t + v"
    using assms v ones_less [of t] by (simp add: unat_word_ariths)
  have step: "CbCheckSum16_step m p i s =
      (if s + w \<ge> 0x10000 then (s + w + drop_bit 16 (s + w)) AND 0xFFFF else s + w)"
    by (simp only: CbCheckSum16_step_def Let_def w_def)
  show ?thesis
  proof (cases "ones t + v < 65536")
    case True
    then have "\<not> s + w \<ge> 0x10000" using sw by (simp add: word_le_nat_alt)
    then show ?thesis
      using True sw v by (simp add: step v_def [symmetric] ones_add)
  next
    case False
    then have ge: "s + w \<ge> 0x10000" using sw by (simp add: word_le_nat_alt)
    have "unat (drop_bit 16 (s + w)) = 1"
      using False v ones_less [of t] by (simp only: unat_shiftr sw) (simp add: div_nat_eqI)
    then have "unat (s + w + drop_bit 16 (s + w)) = ones t + v + 1"
      using sw v ones_less [of t] by (subst unat_word_ariths) simp
    then have "unat ((s + w + drop_bit 16 (s + w)) AND mask 16) = ones t + v - 65535"
      using False v ones_less [of t]
      by (simp only: unat_and_mask) (simp add: mod_if)
    moreover have "(mask 16 :: u32) = 0xFFFF" by (simp add: mask_eq_exp_minus_1)
    ultimately show ?thesis
      using False ge v by (simp add: step v_def [symmetric] ones_add)
  qed
qed

lemma load_bytes_Suc: "load_bytes m p (Suc n) = load_bytes m p n @ [m (p + n)]"
  by (simp add: load_bytes_def)

lemma CbCheckSum16_ones: "CbCheckSum16 m p n = NOT (of_nat (ones (sum16 (load_bytes m p n))))"
proof -
  let ?f = "fold (CbCheckSum16_step m p) [0..<n] 0"
  have f: "unat ?f = ones (sum16 (load_bytes m p n))"
  proof (induction n)
    case 0
    then show ?case by (simp add: ones_def load_bytes_def)
  next
    case (Suc n)
    then show ?case by (simp add: CbCheckSum16_step_ones load_bytes_Suc sum16_snoc)
  qed
  have "(ucast (NOT ?f AND mask 16) :: u16) = NOT (ucast ?f)"
    by (rule bit_word_eqI) (auto simp: bit_simps)
  moreover have "(mask 16 :: u32) = 0xFFFF" by (simp add: mask_eq_exp_minus_1)
  moreover have "(ucast ?f :: u16) = of_nat (unat ?f)" by simp
  ultimately show ?thesis by (simp add: CbCheckSum16_def f)
qed

lemma unat_load16: "unat (load16 m p) = unat (m p) + 256 * unat (m (Suc p))"
proof -
  have "load_bytes m p 2 = [m p, m (Suc p)]" by (simp add: load_bytes_def upt_rec)
  then have "load16 m p = of_nat (unat (m p) + 256 * unat (m (Suc p)))"
    by (simp add: load16_def of_le_Cons_add push_bit_eq_mult del: of_le.simps(2))
  then show ?thesis using unat_bound(1) [of "m p"] unat_bound(1) [of "m (Suc p)"]
    by (simp add: unat_word_ariths del: unat_bound)
qed

lemma ipchksum_loop_sum:
  "case ipchksum_loop m p (int n) s of (p', c, s') \<Rightarrow>
     (if c \<noteq> 0 then s' + ucast (m p') else s') = s + of_nat (sum16 (load_bytes m p n))"
proof (induction n arbitrary: p s rule: induct_nat_012)
  case (ge2 n)
  have "load_bytes m p (Suc (Suc n)) = m p # m (Suc p) # load_bytes m (p + 2) n"
    by (simp add: load_bytes_def upt_conv_Cons map_Suc_upt [symmetric] comp_def del: upt_Suc)
  moreover have "(ucast (load16 m p) :: u32) = of_nat (unat (m p) + 256 * unat (m (Suc p)))"
    by (simp only: unat_load16 [symmetric]) simp
  moreover have "ipchksum_loop m p (int (Suc (Suc n))) s =
      ipchksum_loop m (p + 2) (int n) (s + ucast (load16 m p))"
    by (subst ipchksum_loop.simps) simp
  ultimately show ?case
    using ge2.IH(1) [of "s + ucast (load16 m p)" "p + 2"]
    by (simp only: sum16.simps of_nat_add add.assoc)
qed (simp_all add: ipchksum_loop.simps load_bytes_def)

lemma ipchksum_ones:
  assumes "n \<le> 131072"
  shows "ipchksum m p (int n) = NOT (of_nat (ones (sum16 (load_bytes m p n))))"
proof -
  define t where "t = sum16 (load_bytes m p n)"
  have "t \<le> 65535 * ((n + 1) div 2)" using sum16_bound [of "load_bytes m p n"] by (simp add: t_def)
  also have "\<dots> \<le> 65535 * 65536" using assms by (intro mult_le_mono) auto
  finally have t: "t < 4294967296" by simp
  define s where "s = (of_nat t :: u32)"
  have us: "unat s = t" using t by (simp add: s_def unat_of_nat)
  define s1 where "s1 = drop_bit 16 s + (s AND 0xFFFF)"
  have mask: "(0xFFFF :: u32) = mask 16" by (simp add: mask_eq_exp_minus_1)
  have "unat s1 = t div 65536 + t mod 65536"
    using t unfolding s1_def mask
    by (simp add: unat_word_ariths unat_drop_bit_eq drop_bit_eq_div us take_bit_eq_mask [symmetric]
        unsigned_take_bit_eq take_bit_eq_mod)
  moreover have "(t div 65536 + t mod 65536) div 65536 < 4294967296" using t by simp
  ultimately have "unat (s1 + drop_bit 16 s1) mod 65536 = ones t"
    using t ones_fold [OF t] by (simp add: unat_word_ariths unat_drop_bit_eq drop_bit_eq_div mod_mod_cancel)
  then have "(ucast (s1 + drop_bit 16 s1) :: u16) = of_nat (ones t)"
    by (simp only: ucast_u16_mod)
  moreover have "(ucast (NOT (s1 + drop_bit 16 s1)) :: u16) = NOT (ucast (s1 + drop_bit 16 s1))"
    by (rule bit_word_eqI) (auto simp: bit_simps)
  moreover have "ipchksum m p (int n) = ucast (NOT (s1 + drop_bit 16 s1))"
    using ipchksum_loop_sum [where m = m and p = p and n = n and s = 0]
    by (auto simp: ipchksum_def Let_def s1_def s_def t_def split: prod.splits)
  ultimately show ?thesis by (simp add: t_def)
qed

section \<open>The table in memory\<close>

lemma store_bytes_patch:
  "length ys' = length ys \<Longrightarrow>
   store_bytes (a + length xs) ys' (store_bytes a (xs @ ys @ zs) m) = store_bytes a (xs @ ys' @ zs) m"
  by (rule ext) (auto simp: store_bytes_def nth_append)

lemma length_cb_framebuffer_bytes [simp]: "length (cb_framebuffer_bytes f pad) = 40"
  by (cases pad) (simp add: cb_framebuffer_bytes_def)

lemma read_cb_framebuffer_bytes:
  "read_cb_framebuffer (store_bytes p (cb_framebuffer_bytes f pad) m) p = f"
proof -
  define bs where "bs = cb_framebuffer_bytes f pad"
  have [simp]: "length bs = 40" by (simp add: bs_def)
  have f: "load_bytes (store_bytes p bs m) (p + i) n = take n (drop i bs)" if "i + n \<le> 40" for i n
    using that load_store_inside [of p "p + i" n bs m] by simp
  have b: "store_bytes p bs m (p + i) = bs ! i" if "i < 40" for i
    using that by (simp add: store_bytes_in)
  obtain x y z where pad: "pad = (x, y, z)" by (cases pad)
  show ?thesis
    unfolding bs_def [symmetric] read_cb_framebuffer_def load32_def load64_def
    using f [of 0 4]
    by (simp add: f b) (simp add: bs_def pad cb_framebuffer_bytes_def nth_append of_le_le_bytes)
qed

definition cb_final :: "cb_framebuffer \<Rightarrow> cb_framebuffer" where
  "cb_final f = f\<lparr>fb_tag := CB_TAG_FRAMEBUFFER, fb_size := 40\<rparr>"

lemma cb_framebuffer_patch:
  "store32 (p + 4) 40 (store32 p CB_TAG_FRAMEBUFFER (store_bytes p (cb_framebuffer_bytes f pad) m)) =
   store_bytes p (cb_framebuffer_bytes (cb_final f) pad) m"
proof -
  define zs where "zs = drop 8 (cb_framebuffer_bytes f pad)"
  have f: "cb_framebuffer_bytes f pad = le_bytes 4 (fb_tag f) @ le_bytes 4 (fb_size f) @ zs"
    by (simp add: cb_framebuffer_bytes_def zs_def)
  have "cb_framebuffer_bytes (cb_final f) pad =
      le_bytes 4 CB_TAG_FRAMEBUFFER @ le_bytes 4 (40 :: u32) @ zs"
    by (simp add: cb_framebuffer_bytes_def zs_def cb_final_def)
  then show ?thesis
    using store_bytes_patch [of "le_bytes 4 CB_TAG_FRAMEBUFFER" "le_bytes 4 (fb_tag f)" p "[]"
        "le_bytes 4 (fb_size f) @ zs" m]
      store_bytes_patch [of "le_bytes 4 (40 :: u32)" "le_bytes 4 (fb_size f)" p
        "le_bytes 4 CB_TAG_FRAMEBUFFER" zs m]
    by (simp add: f store32_def)
qed

text \<open>The header before the table, and the memory at the end.\<close>

definition cb_table_mem :: "cb_framebuffer \<Rightarrow> u8 \<times> u8 \<times> u8 \<Rightarrow> mem \<Rightarrow> mem" where
  "cb_table_mem f pad m = store32 0x50C 40 (store32 0x514 1
     (store_bytes 0x518 (cb_framebuffer_bytes (cb_final f) pad)
       (store32 0x504 24 (store32 0x500 CB_HEADER_SIGNATURE (block_fill 0x500 0 24 m)))))"

definition cb_checked_mem :: "mem \<Rightarrow> mem" where
  "cb_checked_mem m = store32 0x510 (ucast (CbCheckSum16 m 0x518 40)) m"

definition cb_sealed_mem :: "mem \<Rightarrow> mem" where
  "cb_sealed_mem m = store32 0x508 (ucast (CbCheckSum16 m 0x500 24)) m"

lemma build_coreboot_table_mem:
  assumes "video_type \<noteq> CSMWRAP_VIDEO_OPROM"
  shows "build_coreboot_table video_type f pad m = (cb_sealed_mem (cb_checked_mem (cb_table_mem f pad m)), 0)"
  using assms cb_framebuffer_patch [of "0x518" f pad]
  by (simp add: build_coreboot_table_def CB_TABLE_START_def Let_def libc_memset_def fill_up mem_simps
      cb_table_mem_def cb_checked_mem_def cb_sealed_mem_def)

section \<open>The checksums close\<close>

lemma sum16_le_bytes4: "sum16 (le_bytes 4 (w :: u32)) = unat w mod 65536 + unat w div 65536"
proof -
  have "le_bytes 4 w = [ucast w, ucast (drop_bit 8 w), ucast (drop_bit 16 w), ucast (drop_bit 24 w)]"
    by (simp add: le_bytes_def upt_rec)
  moreover have "unat (ucast (v :: u32) :: u8) = unat v mod 256" for v
    by (simp add: unsigned_ucast_eq take_bit_eq_mod)
  moreover have h: "y mod 65536 = y mod 256 + 256 * (y div 256 mod 256)" for y :: nat
    using mod_mult2_eq [of y 256 256] by simp
  moreover have "unat w div 65536 < 65536" using unat_bound(3) [of w] by (simp del: unat_bound)
  ultimately show ?thesis
    using mod_mult_div_eq [of "unat w div 65536" 256] by (simp add: unat_shiftr div_mult2_eq [symmetric])
qed

lemma unat_not_u16: "unat (NOT (w :: u16)) = 65535 - unat w"
proof -
  have "NOT w = - 1 - w" by (simp add: not_eq_complement)
  moreover have "unat (- 1 - w) = unat (- 1 :: u16) - unat w" by (rule unat_sub) simp
  ultimately show ?thesis by (simp add: unsigned_minus_1_eq_mask mask_eq_exp_minus_1)
qed

lemma sum16_store_checksum:
  assumes "load32 m (h + 8) = 0"
  shows "sum16 (load_bytes (store32 (h + 8) (ucast (c :: u16)) m) h 24) = sum16 (load_bytes m h 24) + unat c"
proof -
  let ?m = "store32 (h + 8) (ucast c) m"
  have split: "sum16 (load_bytes k h 24) =
      sum16 (load_bytes k h 8) + sum16 (load_bytes k (h + 8) 4) + sum16 (load_bytes k (h + 12) 12)" for k
    using load_bytes_append [of k h 8 16] load_bytes_append [of k "h + 8" 4 12]
    by (simp add: sum16_append add.commute [of 12])
  have c: "sum16 (le_bytes 4 (ucast c :: u32)) = unat c"
    using unat_bound(2) [of c] by (simp add: sum16_le_bytes4 del: unat_bound)
  have "load_bytes m (h + 8) 4 = le_bytes 4 (0 :: u32)"
    using assms load_bytes_le [where 'a = 32 and m = m and a = "h + 8" and n = 4] by (simp add: load32_def)
  then show ?thesis
    by (simp add: split store32_def mem_simps c sum16_le_bytes4)
qed

lemma checksum_seals:
  assumes "load32 m (h + 8) = 0"
  shows "ipchksum (store32 (h + 8) (ucast (CbCheckSum16 m h 24)) m) h 24 = 0"
proof -
  define t where "t = sum16 (load_bytes m h 24)"
  have "unat (CbCheckSum16 m h 24) = 65535 - ones t"
    using ones_less [of t] by (simp add: CbCheckSum16_ones unat_not_u16 t_def unat_of_nat)
  moreover have "ones (t + (65535 - ones t)) = 65535"
    using ones_less [of t] ones_add [of "65535 - ones t" t] by simp
  ultimately have "ones (sum16 (load_bytes (store32 (h + 8) (ucast (CbCheckSum16 m h 24)) m) h 24)) = 65535"
    using sum16_store_checksum [OF assms] by (simp add: t_def)
  then show ?thesis using ipchksum_ones [of 24] by simp
qed

lemma checksums_agree: "n \<le> 131072 \<Longrightarrow> ipchksum m p (int n) = CbCheckSum16 m p n"
  by (simp add: CbCheckSum16_ones ipchksum_ones)

section \<open>The reader finds the table\<close>

lemma load32_block_fill: "load32 (block_fill d 0 n m) a = 0" if "d \<le> a" "a + 4 \<le> d + n"
proof -
  have "load_bytes (block_fill d 0 n m) a 4 = replicate 4 0"
    using that by (intro nth_equalityI) (auto simp: block_fill_def)
  then show ?thesis by (simp add: load32_def numeral_eq_Suc)
qed

lemma load32_block_fill_out:
  "a + 4 \<le> d \<or> d + n \<le> a \<Longrightarrow> load32 (block_fill d c n m) a = load32 m a"
  unfolding load32_def by (rule arg_cong [of _ _ of_le]) (auto simp: load_bytes_def block_fill_def)

lemma load_bytes_store32_out:
  "a + n \<le> b \<or> b + 4 \<le> a \<Longrightarrow> load_bytes (store32 b w m) a n = load_bytes m a n"
  by (simp add: store32_def load_store_disjoint)

lemmas cb_mem_defs = cb_table_mem_def cb_checked_mem_def cb_sealed_mem_def

lemma cb_fields:
  assumes "m' = cb_sealed_mem (cb_checked_mem (cb_table_mem f pad m))"
  shows "load32 m' 0x500 = CB_SIGNATURE" "load32 m' 0x50C = 40" "load32 m' 0x514 = 1"
    "load32 m' 0x510 = ucast (CbCheckSum16 (cb_table_mem f pad m) 0x518 40)"
    "load_bytes m' 0x518 40 = load_bytes (cb_table_mem f pad m) 0x518 40"
    "load_bytes m' 0x518 40 = cb_framebuffer_bytes (cb_final f) pad"
  by (simp_all add: assms cb_mem_defs mem_simps load_bytes_store32_out CB_SIGNATURE_def
      CB_HEADER_SIGNATURE_def)

lemma cb_header_found:
  assumes "m' = cb_sealed_mem (cb_checked_mem (cb_table_mem f pad m))"
  shows "cb_header_ok m' 0x500"
proof -
  have "load32 (cb_checked_mem (cb_table_mem f pad m)) 0x508 = 0"
    by (simp add: cb_mem_defs mem_simps load32_block_fill)
  then have "ipchksum m' 0x500 24 = 0"
    using checksum_seals [of "cb_checked_mem (cb_table_mem f pad m)" "0x500"]
    by (simp add: assms cb_sealed_mem_def)
  moreover have "ipchksum m' 0x518 40 = CbCheckSum16 (cb_table_mem f pad m) 0x518 40"
    using checksums_agree [of 40 m' "0x518"] cb_fields(5) [OF assms] by (simp add: CbCheckSum16_ones)
  ultimately show ?thesis
    using cb_fields [OF assms] by (simp add: cb_header_ok_def)
qed

lemma cb_outside:
  assumes "m' = cb_sealed_mem (cb_checked_mem (cb_table_mem f pad m))" "x < 0x500 \<or> 0x540 \<le> x"
  shows "m' x = m x"
  using assms by (auto simp: cb_mem_defs mem_simps block_fill_def)

lemma find_cb_header_skip:
  assumes "\<forall>k < n. \<not> cb_header_ok m (addr + of_nat (16 * k)) \<and> addr + of_nat (16 * k) < en"
  shows "find_cb_header_loop m addr en = find_cb_header_loop m (addr + of_nat (16 * n)) en"
  using assms
proof (induction n)
  case (Suc n)
  then have "find_cb_header_loop m addr en = find_cb_header_loop m (addr + of_nat (16 * n)) en" by simp
  also have "\<dots> = find_cb_header_loop m (addr + of_nat (16 * n) + 16) en"
    using Suc.prems by (subst find_cb_header_loop.simps) simp
  finally show ?case by (simp add: algebra_simps)
qed simp

lemma find_cb_header_first:
  assumes "\<forall>a < 0x500. a mod 16 = 0 \<longrightarrow> load32 m a \<noteq> CB_SIGNATURE" "cb_header_ok m 0x500"
  shows "find_cb_header m 0 0x1000 = Some (Some 0x500)"
proof -
  have "\<not> cb_header_ok m (of_nat (16 * k)) \<and> (of_nat (16 * k) :: u32) < 0x1000" if "k < 80" for k
  proof -
    have "unat (of_nat (16 * k) :: u32) = 16 * k" using that by (subst unat_of_nat) simp
    then show ?thesis
      using that assms(1) [rule_format, of "16 * k"]
      by (simp add: cb_header_ok_def Let_def word_less_nat_alt del: of_nat_mult)
  qed
  then have "find_cb_header_loop m 0 0x1000 = find_cb_header_loop m 0x500 0x1000"
    using find_cb_header_skip [of 80 m 0 "0x1000"] by simp
  also have "\<dots> = Some (Some 0x500)"
    using assms(2) by (subst find_cb_header_loop.simps) simp
  finally show ?thesis by (simp add: find_cb_header_def)
qed

section \<open>Properties\<close>

lemma coreboot_table_read:
  assumes "video_type \<noteq> CSMWRAP_VIDEO_OPROM"
    and "\<forall>a < 0x500. a mod 16 = 0 \<longrightarrow> load32 m a \<noteq> CB_SIGNATURE"
    and "build_coreboot_table video_type f pad m = (m', r)"
  shows "r = 0 \<and> find_cb_table m' = Some (Some 0x500) \<and>
    find_cb_subtable m' 0x500 CB_TAG_FRAMEBUFFER = Some 0x518 \<and>
    read_cb_framebuffer m' 0x518 = f\<lparr>fb_tag := CB_TAG_FRAMEBUFFER, fb_size := 40\<rparr> \<and>
    (\<forall>x. x < 0x500 \<or> 0x540 \<le> x \<longrightarrow> m' x = m x)"
proof -
  have m': "m' = cb_sealed_mem (cb_checked_mem (cb_table_mem f pad m))" "r = 0"
    using assms(3) build_coreboot_table_mem [OF assms(1)] by simp_all
  have low: "load32 m' a = load32 m a" if "a < 0x500" "a mod 16 = 0" for a
  proof -
    have "a + 4 \<le> 0x500" using that by presburger
    then have "load_bytes m' a 4 = load_bytes m a 4"
      using cb_outside [OF m'(1)] by (intro nth_equalityI) auto
    then show ?thesis by (simp add: load32_def)
  qed
  have hdr: "find_cb_header m' 0 0x1000 = Some (Some 0x500)"
    using assms(2) low cb_header_found [OF m'(1)] by (intro find_cb_header_first) auto
  have fb: "read_cb_framebuffer m' 0x518 = cb_final f"
    using read_cb_framebuffer_bytes [of "0x518" "cb_final f" pad m'] cb_fields(6) [OF m'(1)]
      store_load_bytes [of "0x518" m' 40] by simp
  then have "fb_tag (read_cb_framebuffer m' 0x518) = CB_TAG_FRAMEBUFFER" by (simp add: cb_final_def)
  then have "load32 m' 0x518 = CB_TAG_FRAMEBUFFER" by (simp add: read_cb_framebuffer_def)
  then have sub: "find_cb_subtable m' 0x500 CB_TAG_FRAMEBUFFER = Some 0x518"
      "find_cb_subtable m' 0x500 CB_TAG_FORWARD = None"
    using cb_fields(3) [OF m'(1)]
    by (simp_all add: find_cb_subtable_def CB_TAG_FRAMEBUFFER_def CB_TAG_FORWARD_def)
  show ?thesis
    using hdr sub fb cb_outside [OF m'(1)] m'(2) by (simp add: find_cb_table_def cb_final_def)
qed

text \<open>
  What \<^verbatim>\<open>build_coreboot_table\<close> writes for a frame buffer, SeaBIOS finds: unless the first
  1280 bytes of memory hold another signature, \<^verbatim>\<open>find_cb_table\<close> returns the header at 0x500 with
  both checksums accepted, the frame buffer record is at 0x518, and its fields are those CSMWrap
  was given.  No byte outside 0x500 to 0x53F changes.
\<close>

theorem coreboot_table_found:
  assumes "video_type \<noteq> CSMWRAP_VIDEO_OPROM"
    and "\<forall>a < 0x500. a mod 16 = 0 \<longrightarrow> load32 m a \<noteq> CB_SIGNATURE"
    and "build_coreboot_table video_type f pad m = (m', r)"
  shows "r = 0 \<and> find_cb_table m' = Some (Some 0x500) \<and>
    find_cb_subtable m' 0x500 CB_TAG_FRAMEBUFFER = Some 0x518 \<and>
    read_cb_framebuffer m' 0x518 = f\<lparr>fb_tag := CB_TAG_FRAMEBUFFER, fb_size := 40\<rparr> \<and>
    (\<forall>x. x < 0x500 \<or> 0x540 \<le> x \<longrightarrow> m' x = m x)"
  using coreboot_table_read [OF assms] .

definition cb_fb_example :: cb_framebuffer where
  "cb_fb_example = \<lparr>fb_tag = 0, fb_size = 0, physical_address = 0x80000000, x_resolution = 1024,
     y_resolution = 768, bytes_per_line = 4096, bits_per_pixel = 32, red_mask_pos = 16,
     red_mask_size = 8, green_mask_pos = 8, green_mask_size = 8, blue_mask_pos = 0,
     blue_mask_size = 8, reserved_mask_pos = 24, reserved_mask_size = 8\<rparr>"

theorem coreboot_table_found_witness:
  "find_cb_table (fst (build_coreboot_table CSMWRAP_VIDEO_FALLBACK cb_fb_example (0, 0, 0) (\<lambda>_. 0))) =
    Some (Some 0x500)"
proof -
  have "load32 (\<lambda>_. 0) a = 0" for a
    by (simp add: load32_def load_bytes_def upt_rec)
  then show ?thesis
    using coreboot_table_found [of CSMWRAP_VIDEO_FALLBACK "\<lambda>_. 0" cb_fb_example "(0, 0, 0)"]
    by (cases "build_coreboot_table CSMWRAP_VIDEO_FALLBACK cb_fb_example (0, 0, 0) (\<lambda>_. 0)")
      (simp add: CB_SIGNATURE_def)
qed

text \<open>
  CSMWrap's byte-wise \<^verbatim>\<open>CbCheckSum16\<close>, which wraps the carry after each byte, and the
  word-wise \<^verbatim>\<open>ipchksum\<close> of SeaBIOS, which folds the carries once at the end, agree on every block
  of at most 128 KiB.  Both are the ones' complement of the 16-bit little-endian sum.
\<close>

theorem checksum_equivalence:
  assumes "n \<le> 131072"
  shows "ipchksum m p (int n) = CbCheckSum16 m p n \<and>
    CbCheckSum16 m p n = NOT (of_nat (ones (sum16 (load_bytes m p n))))"
  using assms by (simp add: checksums_agree CbCheckSum16_ones)

theorem checksum_equivalence_witness: "ipchksum (\<lambda>x. of_nat x) 3 5 = CbCheckSum16 (\<lambda>x. of_nat x) 3 5"
  using checksum_equivalence [of 5 "\<lambda>x. of_nat x" 3] by simp

text \<open>
  With a native option ROM the table has no entry, and SeaBIOS does not accept a header at
  0x500, so SeaVGABIOS is not told about a frame buffer.
\<close>

theorem coreboot_table_oprom:
  "\<not> cb_header_ok (fst (build_coreboot_table CSMWRAP_VIDEO_OPROM f pad m)) 0x500"
  by (simp add: build_coreboot_table_def CB_TABLE_START_def Let_def cb_header_ok_def mem_simps)

end
