(* ===== verification/Cbvga.thy ===== *)
theory Cbvga
  imports Palette Coreboot
begin

unbundle bit_operations_syntax

text \<open>
  The SeaVGABIOS driver for a linear framebuffer (\<^verbatim>\<open>seabios/vgasrc/cbvga.c\<close>) with its mode table
  (\<^verbatim>\<open>svgamodes.c\<close>): it finds the framebuffer CSMWrap announced in the coreboot table, registers the
  video modes, and draws characters and the cursor of the emulated text mode into it.

  The globals of the driver are one record, which contains the state of the palette emulator; the
  BIOS data area, the fonts and the framebuffer are in memory.  Code of other files that it calls
  (the graphics operation that clears the screen, the choice of a font, saving the BIOS data area)
  is the record \<open>vga_env\<close> of parameters.  \<open>cbvga_setup\<close> is \<open>None\<close> where the C code divides by zero
  or the search for the table does not end.
\<close>

section \<open>Modes\<close>

definition MM_TEXT :: u8 where "MM_TEXT = 0"
definition MM_PLANAR :: u8 where "MM_PLANAR = 3"
definition MM_PACKED :: u8 where "MM_PACKED = 4"
definition MM_DIRECT :: u8 where "MM_DIRECT = 6"
definition MF_LEGACY :: u32 where "MF_LEGACY = 0x0001"
definition MF_NOCLEARMEM :: u32 where "MF_NOCLEARMEM = 0x8000"
definition SEG_GRAPH :: u16 where "SEG_GRAPH = 0xA000"
definition SEG_CTEXT :: u16 where "SEG_CTEXT = 0xB800"

record vgamode_s =
  memmodel :: u8
  width :: u16
  height :: u16
  depth :: u8
  cwidth :: u8
  cheight :: u8
  sstart :: u16

record generic_svga_mode =
  mode :: u16
  info :: vgamode_s

definition svga :: "u16 \<Rightarrow> u8 \<Rightarrow> u16 \<Rightarrow> u16 \<Rightarrow> u8 \<Rightarrow> u8 \<Rightarrow> u8 \<Rightarrow> generic_svga_mode" where
  "svga n mm w h d cw ch =
     \<lparr>mode = n, info = \<lparr>memmodel = mm, width = w, height = h, depth = d, cwidth = cw, cheight = ch,
        sstart = SEG_GRAPH\<rparr>\<rparr>"

definition svga_modes_init :: "generic_svga_mode list" where
  "svga_modes_init =
     [svga 0x100 MM_PACKED 640 400 8 8 16, svga 0x101 MM_PACKED 640 480 8 8 16,
      svga 0x102 MM_PLANAR 800 600 4 8 16, svga 0x103 MM_PACKED 800 600 8 8 16,
      svga 0x104 MM_PLANAR 1024 768 4 8 16, svga 0x105 MM_PACKED 1024 768 8 8 16,
      svga 0x106 MM_PLANAR 1280 1024 4 8 16, svga 0x107 MM_PACKED 1280 1024 8 8 16,
      svga 0x10D MM_DIRECT 320 200 15 8 16, svga 0x10E MM_DIRECT 320 200 16 8 16,
      svga 0x10F MM_DIRECT 320 200 24 8 16, svga 0x110 MM_DIRECT 640 480 15 8 16,
      svga 0x111 MM_DIRECT 640 480 16 8 16, svga 0x112 MM_DIRECT 640 480 24 8 16,
      svga 0x113 MM_DIRECT 800 600 15 8 16, svga 0x114 MM_DIRECT 800 600 16 8 16,
      svga 0x115 MM_DIRECT 800 600 24 8 16, svga 0x116 MM_DIRECT 1024 768 15 8 16,
      svga 0x117 MM_DIRECT 1024 768 16 8 16, svga 0x118 MM_DIRECT 1024 768 24 8 16,
      svga 0x119 MM_DIRECT 1280 1024 15 8 16, svga 0x11A MM_DIRECT 1280 1024 16 8 16,
      svga 0x11B MM_DIRECT 1280 1024 24 8 16, svga 0x11C MM_PACKED 1600 1200 8 8 16,
      svga 0x11D MM_DIRECT 1600 1200 15 8 16, svga 0x11E MM_DIRECT 1600 1200 16 8 16,
      svga 0x11F MM_DIRECT 1600 1200 24 8 16, svga 0x140 MM_DIRECT 320 200 32 8 16,
      svga 0x141 MM_DIRECT 640 400 32 8 16, svga 0x142 MM_DIRECT 640 480 32 8 16,
      svga 0x143 MM_DIRECT 800 600 32 8 16, svga 0x144 MM_DIRECT 1024 768 32 8 16,
      svga 0x145 MM_DIRECT 1280 1024 32 8 16, svga 0x146 MM_PACKED 320 200 8 8 16,
      svga 0x147 MM_DIRECT 1600 1200 32 8 16, svga 0x148 MM_PACKED 1152 864 8 8 16,
      svga 0x149 MM_DIRECT 1152 864 15 8 16, svga 0x14A MM_DIRECT 1152 864 16 8 16,
      svga 0x14B MM_DIRECT 1152 864 24 8 16, svga 0x14C MM_DIRECT 1152 864 32 8 16,
      svga 0x175 MM_DIRECT 1280 768 16 8 16, svga 0x176 MM_DIRECT 1280 768 24 8 16,
      svga 0x177 MM_DIRECT 1280 768 32 8 16, svga 0x178 MM_DIRECT 1280 800 16 8 16,
      svga 0x179 MM_DIRECT 1280 800 24 8 16, svga 0x17A MM_DIRECT 1280 800 32 8 16,
      svga 0x17B MM_DIRECT 1280 960 16 8 16, svga 0x17C MM_DIRECT 1280 960 24 8 16,
      svga 0x17D MM_DIRECT 1280 960 32 8 16, svga 0x17E MM_DIRECT 1440 900 16 8 16,
      svga 0x17F MM_DIRECT 1440 900 24 8 16, svga 0x180 MM_DIRECT 1440 900 32 8 16,
      svga 0x181 MM_DIRECT 1400 1050 16 8 16, svga 0x182 MM_DIRECT 1400 1050 24 8 16,
      svga 0x183 MM_DIRECT 1400 1050 32 8 16, svga 0x184 MM_DIRECT 1680 1050 16 8 16,
      svga 0x185 MM_DIRECT 1680 1050 24 8 16, svga 0x186 MM_DIRECT 1680 1050 32 8 16,
      svga 0x187 MM_DIRECT 1920 1200 16 8 16, svga 0x188 MM_DIRECT 1920 1200 24 8 16,
      svga 0x189 MM_DIRECT 1920 1200 32 8 16, svga 0x18A MM_DIRECT 2560 1600 16 8 16,
      svga 0x18B MM_DIRECT 2560 1600 24 8 16, svga 0x18C MM_DIRECT 2560 1600 32 8 16,
      svga 0x18D MM_DIRECT 1280 720 16 8 16, svga 0x18E MM_DIRECT 1280 720 24 8 16,
      svga 0x18F MM_DIRECT 1280 720 32 8 16, svga 0x190 MM_DIRECT 1920 1080 16 8 16,
      svga 0x191 MM_DIRECT 1920 1080 24 8 16, svga 0x192 MM_DIRECT 1920 1080 32 8 16,
      svga 0x193 MM_DIRECT 1600 900 16 8 16, svga 0x194 MM_DIRECT 1600 900 24 8 16,
      svga 0x195 MM_DIRECT 1600 900 32 8 16, svga 0x196 MM_DIRECT 2560 1440 16 8 16,
      svga 0x197 MM_DIRECT 2560 1440 24 8 16, svga 0x198 MM_DIRECT 2560 1440 32 8 16,
      svga 0x199 MM_DIRECT 3840 2160 16 8 16, svga 0x19A MM_DIRECT 3840 2160 32 8 16,
      svga 0x19B MM_DIRECT 4096 2160 16 8 16, svga 0x19C MM_DIRECT 4096 2160 32 8 16,
      svga 0x19D MM_DIRECT 5120 2160 16 8 16, svga 0x19E MM_DIRECT 5120 2160 32 8 16]"

section \<open>State\<close>

record cbvga =
  HaveRunInit :: bool
  CBmode :: int
  CBmodeinfo :: vgamode_s
  CBemulinfo :: vgamode_s
  CBlinelength :: u32
  CBred_size :: u8
  CBgreen_size :: u8
  CBblue_size :: u8
  CBred_pos :: u8
  CBgreen_pos :: u8
  CBblue_pos :: u8
  svga_modes :: "generic_svga_mode list"
  svga_mcount :: u32
  VBE_framebuffer :: u32
  VBE_total_memory :: u32
  g_last_vbe_mode_info :: vbe_mode_info
  emul :: emul

text \<open>A pointer to a mode structure is one of the two globals or an entry of the table.\<close>

datatype mode_ref = Ref_CBmodeinfo | Ref_CBemulinfo | Ref_svga nat

fun mode_info :: "cbvga \<Rightarrow> mode_ref \<Rightarrow> vgamode_s" where
  "mode_info c Ref_CBmodeinfo = CBmodeinfo c"
| "mode_info c Ref_CBemulinfo = CBemulinfo c"
| "mode_info c (Ref_svga i) = info (svga_modes c ! i)"

record vga_env =
  CBmodeinfo_offset :: nat
  gfx_clear :: "cbvga \<Rightarrow> u32 \<Rightarrow> u16 \<Rightarrow> mem \<Rightarrow> mem"
  get_font_data :: "u8 \<Rightarrow> u16 \<times> u16"
  bda_save_restore :: "u32 \<Rightarrow> u16 \<Rightarrow> nat \<Rightarrow> mem \<Rightarrow> mem \<times> int"

section \<open>Mode lookup and listing\<close>

fun find_mode_loop :: "cbvga \<Rightarrow> int \<Rightarrow> nat list \<Rightarrow> mode_ref option" where
  "find_mode_loop c md [] = None"
| "find_mode_loop c md (i # is) =
     (let cbmode = uint (mode (svga_modes c ! i)) in
      if cbmode = 0xFFFF then find_mode_loop c md is
      else if cbmode = md then Some (Ref_svga i)
      else find_mode_loop c md is)"

definition cbvga_find_mode :: "cbvga \<Rightarrow> int \<Rightarrow> mode_ref option" where
  "cbvga_find_mode c md =
     (if md = CBmode c then Some Ref_CBmodeinfo
      else if md = 0x03 then Some Ref_CBemulinfo
      else find_mode_loop c md [0..<unat (svga_mcount c)])"

fun list_modes_loop :: "cbvga \<Rightarrow> nat \<Rightarrow> nat \<Rightarrow> nat list \<Rightarrow> nat \<Rightarrow> bool \<Rightarrow> mem \<Rightarrow> nat \<times> bool \<times> mem" where
  "list_modes_loop c seg lst [] dest seen m = (dest, seen, m)"
| "list_modes_loop c seg lst (i # is) dest seen m =
     (if dest < lst then
        let md = mode (svga_modes c ! i) in
        if md = 0xFFFF then list_modes_loop c seg lst is dest seen m
        else list_modes_loop c seg lst is (dest + 2) (if CBmode c = uint md then True else seen)
               (store16 (seg * 16 + dest) md m)
      else (dest, seen, m))"

definition cbvga_list_modes :: "cbvga \<Rightarrow> nat \<Rightarrow> nat \<Rightarrow> nat \<Rightarrow> mem \<Rightarrow> mem" where
  "cbvga_list_modes c seg dest lst m =
     (let (dest, seen, m) =
            (if CBmode c \<noteq> 0x3 then list_modes_loop c seg lst [0..<unat (svga_mcount c)] dest False m
             else (dest, False, m));
          (dest, m) =
            (if dest < lst \<and> \<not> seen then (dest + 2, store16 (seg * 16 + dest) (word_of_int (CBmode c)) m)
             else (dest, m))
      in store16 (seg * 16 + dest) 0xFFFF m)"

section \<open>Window, pitch, display start and colour format\<close>

definition cbvga_get_window :: int where "cbvga_get_window = -1"
definition cbvga_set_window :: int where "cbvga_set_window = -1"

definition cbvga_minimum_linelength :: "cbvga \<Rightarrow> int" where
  "cbvga_minimum_linelength c = sint (CBlinelength c)"

definition cbvga_get_linelength :: "cbvga \<Rightarrow> int" where
  "cbvga_get_linelength c = sint (CBlinelength c)"

definition cbvga_set_linelength :: int where "cbvga_set_linelength = -1"
definition cbvga_get_displaystart :: int where "cbvga_get_displaystart = 0"
definition cbvga_set_displaystart :: int where "cbvga_set_displaystart = -1"
definition cbvga_get_dacformat :: int where "cbvga_get_dacformat = cbvga_emul_get_dacformat"

definition cbvga_set_dacformat :: "int \<Rightarrow> int" where
  "cbvga_set_dacformat val = cbvga_emul_set_dacformat val"

section \<open>Saving state and setting a mode\<close>

definition SR_HARDWARE :: u32 where "SR_HARDWARE = 0x0001"
definition SR_DAC :: u32 where "SR_DAC = 0x0004"
definition SR_REGISTERS :: u32 where "SR_REGISTERS = 0x0008"

definition cbvga_save_restore :: "vga_env \<Rightarrow> u32 \<Rightarrow> u16 \<Rightarrow> nat \<Rightarrow> mem \<Rightarrow> mem \<times> int" where
  "cbvga_save_restore E cmd seg data m =
     (if cmd AND (SR_HARDWARE OR SR_DAC OR SR_REGISTERS) \<noteq> 0 then (m, -1)
      else bda_save_restore E cmd seg data m)"

definition BDA_EXT_flags :: nat where "BDA_EXT_flags = 0x400 + 0xB9"
definition BF_EMULATE_TEXT :: u8 where "BF_EMULATE_TEXT = 0x10"
definition BF_EXTRA_STACK :: u8 where "BF_EXTRA_STACK = 0x40"

definition memset16_far :: "u16 \<Rightarrow> nat \<Rightarrow> u16 \<Rightarrow> nat \<Rightarrow> mem \<Rightarrow> mem" where
  "memset16_far d_seg d_far v len m =
     fold (\<lambda>i. store16 (unat d_seg * 16 + (d_far + 2 * i) mod 0x10000) v) [0..<len div 2] m"

definition min_stride :: "u32 \<Rightarrow> u32 \<Rightarrow> u32" where
  "min_stride bpp w = (if bpp = 32 then w * 4 else if bpp = 24 then w * 3 else if bpp = 16 then w * 2 else 0)"

definition cbvga_set_mode :: "vga_env \<Rightarrow> mode_ref \<Rightarrow> u32 \<Rightarrow> cbvga \<Rightarrow> mem \<Rightarrow> cbvga \<times> mem \<times> int" where
  "cbvga_set_mode E vmode flags c m =
     (let emul_text = (vmode = Ref_CBemulinfo \<or> CBmode c = 0x03);
          extra_stack = m BDA_EXT_flags AND BF_EXTRA_STACK;
          m = m(BDA_EXT_flags := (m BDA_EXT_flags AND NOT BF_EMULATE_TEXT)
                 OR (if emul_text then BF_EMULATE_TEXT else 0));
          clear = (flags AND MF_NOCLEARMEM = 0);
          set = (\<lambda>m e. cbvga_emul_set_mode m (g_last_vbe_mode_info c) (CBmodeinfo_offset E) flags e)
      in if clear \<and> memmodel (CBmodeinfo c) = MM_TEXT then
           let m = memset16_far SEG_CTEXT 0 0x0720 (80 * 25 * 2) m
           in (c\<lparr>emul := set m (emul c)\<rparr>, m, 0)
         else
           let w = ucast (width (CBmodeinfo c));
               m = (if clear \<and> (extra_stack \<noteq> 0 \<or> flags AND MF_LEGACY \<noteq> 0) \<and>
                       CBlinelength c \<ge> min_stride (ucast (depth (CBmodeinfo c))) w \<and> VBE_framebuffer c \<noteq> 0
                    then gfx_clear E c w (height (CBmodeinfo c)) m else m);
               v = mode_info c vmode;
               e = cbvga_emul_setup_modes (ucast (VBE_framebuffer c)) (depth v) (ucast (width v))
                     (ucast (height v)) (CBlinelength c) (emul c)
           in (c\<lparr>emul := set m e\<rparr>, m, 0))"

section \<open>Registering the modes\<close>

definition SVGA_MAX_MODES :: u32 where "SVGA_MAX_MODES = 128"

text \<open>
  One block of \<^verbatim>\<open>add_mode_depths_for_resolution\<close>: the entry at the current count gets the mode number,
  the resolution, the depth and the memory model; \<open>cells\<close> is whether the block also sets the size of a
  character cell, as the first one does.
\<close>

definition add_mode :: "u16 \<Rightarrow> u32 \<Rightarrow> u32 \<Rightarrow> u8 \<Rightarrow> u8 \<Rightarrow> bool \<Rightarrow> cbvga \<Rightarrow> cbvga" where
  "add_mode md x y d mm cells c =
     (let idx = svga_mcount c;
          e = svga_modes c ! unat idx;
          i = info e\<lparr>width := ucast x, height := ucast y, depth := d, memmodel := mm\<rparr>;
          i = (if cells then i\<lparr>cwidth := 8, cheight := 16\<rparr> else i)
      in c\<lparr>svga_mcount := idx + 1, svga_modes := (svga_modes c)[unat idx := e\<lparr>mode := md, info := i\<rparr>]\<rparr>)"

definition add_mode_depths_for_resolution :: "u16 \<Rightarrow> u32 \<Rightarrow> u32 \<Rightarrow> cbvga \<Rightarrow> cbvga" where
  "add_mode_depths_for_resolution base_mode x y c =
     (if svga_mcount c + 5 > SVGA_MAX_MODES then c
      else let c = add_mode (base_mode - 1) x y 4 MM_PACKED True c;
               c = add_mode base_mode x y 8 MM_PACKED False c;
               c = add_mode (base_mode + 1) x y 16 MM_DIRECT False c;
               c = add_mode (base_mode + 2) x y 24 MM_DIRECT False c
           in add_mode (base_mode + 3) x y 32 MM_DIRECT False c)"

definition register_emulated_modes :: "u32 \<Rightarrow> u32 \<Rightarrow> cbvga \<Rightarrow> cbvga" where
  "register_emulated_modes fb_x fb_y c =
     (let c = add_mode_depths_for_resolution 0x100 640 480 c;
          c = add_mode_depths_for_resolution 0x110 800 600 c;
          c = add_mode_depths_for_resolution 0x120 1024 768 c;
          c = add_mode_depths_for_resolution 0x130 1280 1024 c
      in add_mode_depths_for_resolution 0x140 fb_x fb_y c)"

definition cbvga_setup_modes :: "u64 \<Rightarrow> u8 \<Rightarrow> u32 \<Rightarrow> u32 \<Rightarrow> u32 \<Rightarrow> cbvga \<Rightarrow> cbvga" where
  "cbvga_setup_modes addr bpp xlines ylines linelength c =
     (let mi = (CBmodeinfo c)\<lparr>memmodel := MM_DIRECT, width := ucast xlines, height := ucast ylines,
                 depth := bpp, cwidth := 8, cheight := 16\<rparr>;
          c = c\<lparr>svga_mcount := 0, CBmode := 0x143, VBE_framebuffer := ucast addr,
                VBE_total_memory := linelength * ylines, CBlinelength := linelength,
                CBmodeinfo := mi, CBemulinfo := mi\<rparr>;
          c = register_emulated_modes xlines ylines c
      in c\<lparr>emul := cbvga_emul_setup_modes addr bpp xlines ylines linelength (emul c)\<rparr>)"

section \<open>Setup\<close>

definition vga16_argb :: "u32 list" where
  "vga16_argb =
     [0xFF000000, 0xFF800000, 0xFF008000, 0xFF808000, 0xFF000080, 0xFF800080, 0xFF008080, 0xFFC0C0C0,
      0xFF808080, 0xFFFF0000, 0xFF00FF00, 0xFFFFFF00, 0xFF0000FF, 0xFFFF00FF, 0xFF00FFFF, 0xFFFFFFFF]"

definition cbvga_init_text_palette :: "cbvga \<Rightarrow> cbvga" where
  "cbvga_init_text_palette c =
     c\<lparr>emul := (emul c)\<lparr>cbvga_palette_argb :=
       fold (\<lambda>i t. t[i := vga16_argb ! i]) [0..<16] (cbvga_palette_argb (emul c))\<rparr>\<rparr>"

text \<open>The assignments made when there is no usable framebuffer.\<close>

definition text_fallback :: "cbvga \<Rightarrow> cbvga" where
  "text_fallback c =
     c\<lparr>CBmode := 0x03, CBlinelength := 80 * 2,
       CBmodeinfo := \<lparr>memmodel = MM_TEXT, width = 80, height = 25, depth = 4, cwidth = 9, cheight = 16,
         sstart = SEG_CTEXT\<rparr>\<rparr>"

definition effective_bpp :: "u8 \<Rightarrow> u32 \<Rightarrow> u32 \<Rightarrow> u8" where
  "effective_bpp tag_bpp xlines stride =
     (if tag_bpp \<noteq> 16 \<and> tag_bpp \<noteq> 24 \<and> tag_bpp \<noteq> 32 \<and> xlines \<noteq> 0 then
        let bytes_per_px = stride div xlines in
        if bytes_per_px = 4 then 32 else if bytes_per_px = 3 then 24
        else if bytes_per_px = 2 then 16 else tag_bpp
      else tag_bpp)"

definition default_masks :: "u8 \<Rightarrow> cbvga \<Rightarrow> cbvga" where
  "default_masks eff_bpp c =
     (let invalid = (CBred_size c = 0 \<or> CBgreen_size c = 0 \<or> CBblue_size c = 0) in
      if eff_bpp = 16 \<and> invalid then
        c\<lparr>CBred_pos := 11, CBred_size := 5, CBgreen_pos := 5, CBgreen_size := 6, CBblue_pos := 0, CBblue_size := 5\<rparr>
      else if (eff_bpp = 24 \<or> eff_bpp = 32) \<and> invalid then
        c\<lparr>CBred_pos := 16, CBred_size := 8, CBgreen_pos := 8, CBgreen_size := 8, CBblue_pos := 0, CBblue_size := 8\<rparr>
      else c)"

definition setup_framebuffer :: "cb_framebuffer \<Rightarrow> cbvga \<Rightarrow> cbvga option" where
  "setup_framebuffer fb c =
     (let addr = physical_address fb; tag_bpp = cb_framebuffer.bits_per_pixel fb;
          xlines = x_resolution fb; ylines = y_resolution fb; stride = bytes_per_line fb;
          c = c\<lparr>CBred_size := red_mask_size fb, CBgreen_size := green_mask_size fb,
                CBblue_size := blue_mask_size fb, CBred_pos := red_mask_pos fb,
                CBgreen_pos := green_mask_pos fb, CBblue_pos := blue_mask_pos fb\<rparr>;
          eff_bpp = effective_bpp tag_bpp xlines stride
      in if tag_bpp = 24 \<and> xlines = 0 then None
         else
           let eff_bpp = (if tag_bpp = 24 \<and> stride div xlines = 4 then 24 else eff_bpp);
               mins = min_stride (ucast eff_bpp) xlines;
               c = default_masks eff_bpp c;
               c = c\<lparr>emul := cbvga_emul_set_masks (CBred_size c) (CBgreen_size c) (CBblue_size c)
                     (CBred_pos c) (CBgreen_pos c) (CBblue_pos c) (emul c)\<rparr>
           in if addr = 0 \<or> addr > 0xFFFFFFFF \<or> stride = 0 \<or> xlines = 0 \<or> ylines = 0 \<or>
                 (eff_bpp \<noteq> 16 \<and> eff_bpp \<noteq> 24 \<and> eff_bpp \<noteq> 32) \<or> (mins \<noteq> 0 \<and> stride < mins)
              then Some (text_fallback c)
              else Some (cbvga_init_text_palette (cbvga_setup_modes addr eff_bpp xlines ylines stride c)))"

definition cbvga_setup :: "mem \<Rightarrow> cbvga \<Rightarrow> (cbvga \<times> int) option" where
  "cbvga_setup m c =
     (if HaveRunInit c then Some (c, 0)
      else case find_cb_table m of
             None \<Rightarrow> None
           | Some None \<Rightarrow> Some (c, -1)
           | Some (Some cbh) \<Rightarrow>
               (case find_cb_subtable m cbh CB_TAG_FRAMEBUFFER of
                  None \<Rightarrow> Some (text_fallback c, 0)
                | Some cbfb \<Rightarrow>
                    map_option (\<lambda>c. (c, 0)) (setup_framebuffer (read_cb_framebuffer m (unat cbfb)) c)))"

section \<open>Drawing into the framebuffer\<close>

definition pack_rgb16 :: "u8 \<Rightarrow> u8 \<Rightarrow> u8 \<Rightarrow> u8 \<Rightarrow> u8 \<Rightarrow> u8 \<Rightarrow> u8 \<Rightarrow> u8 \<Rightarrow> u8 \<Rightarrow> u16" where
  "pack_rgb16 r g b rsize gsize bsize rpos gpos bpos =
     (let rr = ucast (drop_bit (8 - unat rsize) r) AND (push_bit (unat rsize) 1 - 1);
          gg = ucast (drop_bit (8 - unat gsize) g) AND (push_bit (unat gsize) 1 - 1);
          bb = ucast (drop_bit (8 - unat bsize) b) AND (push_bit (unat bsize) 1 - 1)
      in push_bit (unat rpos) rr OR push_bit (unat gpos) gg OR push_bit (unat bpos) bb)"

definition pack_pixel :: "cbvga \<Rightarrow> u8 \<Rightarrow> u8 \<Rightarrow> u8 \<Rightarrow> u16" where
  "pack_pixel c r g b =
     pack_rgb16 r g b (CBred_size c) (CBgreen_size c) (CBblue_size c) (CBred_pos c) (CBgreen_pos c) (CBblue_pos c)"

definition BDA_char_height :: nat where "BDA_char_height = 0x400 + 0x85"

definition cell_base :: "cbvga \<Rightarrow> u16 \<Rightarrow> u16 \<Rightarrow> int \<Rightarrow> int \<Rightarrow> nat" where
  "cell_base c cx cy char_height row =
     unat (VBE_framebuffer c + word_of_int (uint cy * char_height + row) * CBlinelength c
       + word_of_int (uint cx * uint (cwidth (CBmodeinfo c)) * (uint (depth (CBmodeinfo c)) div 8)))"

definition draw_pixel :: "cbvga \<Rightarrow> nat \<Rightarrow> nat \<Rightarrow> u32 \<Rightarrow> mem \<Rightarrow> mem" where
  "draw_pixel c base col px m =
     (let d = depth (CBmodeinfo c);
          r = ucast (drop_bit 16 px); g = ucast (drop_bit 8 px); b = ucast px
      in if d = 32 then store32 (base + 4 * col) px m
         else if d = 24 then m(base + col * 3 := b, base + col * 3 + 1 := g, base + col * 3 + 2 := r)
         else if d = 16 then store16 (base + 2 * col) (pack_pixel c r g b) m
         else m)"

definition cbvga_render_char :: "vga_env \<Rightarrow> u16 \<Rightarrow> u16 \<Rightarrow> u8 \<Rightarrow> u8 \<Rightarrow> cbvga \<Rightarrow> mem \<Rightarrow> mem" where
  "cbvga_render_char E cx cy ch attr c m =
     (let char_height = uint (load16 m BDA_char_height);
          (fseg, foff) = get_font_data E ch;
          fg = attr AND 0x0F; bg = drop_bit 4 attr AND 0x0F
      in fold (\<lambda>row m.
           let fontline = m (unat fseg * 16 + (unat foff + nat row));
               base = cell_base c cx cy char_height row
           in fold (\<lambda>col. draw_pixel c base col
                  (cbvga_palette_argb (emul c) ! unat (if fontline AND drop_bit col 0x80 \<noteq> 0 then fg else bg)))
                [0..<unat (cwidth (CBmodeinfo c))] m)
         [0..char_height - 1] m)"

definition cbvga_clear_region :: "u16 \<Rightarrow> u16 \<Rightarrow> u16 \<Rightarrow> u16 \<Rightarrow> u8 \<Rightarrow> cbvga \<Rightarrow> mem \<Rightarrow> mem" where
  "cbvga_clear_region x y cols rows attr c m =
     (let char_height = uint (load16 m BDA_char_height);
          bg = drop_bit 4 attr AND 0x0F
      in fold (\<lambda>row. fold (\<lambda>col. draw_pixel c (cell_base c x y char_height row) col
                 (cbvga_palette_argb (emul c) ! unat bg))
                [0..<unat cols * unat (cwidth (CBmodeinfo c))])
         [0..uint rows * char_height - 1] m)"

text \<open>One pixel of the cursor: its channels are inverted, by way of 8-bit channels in 16-bit modes.\<close>

definition widen :: "u16 \<Rightarrow> u8 \<Rightarrow> u8 \<Rightarrow> u8" where
  "widen pix pos sz = push_bit (8 - unat sz) (ucast (drop_bit (unat pos) pix AND (push_bit (unat sz) 1 - 1)))"

definition invert_pixel :: "cbvga \<Rightarrow> nat \<Rightarrow> nat \<Rightarrow> mem \<Rightarrow> mem" where
  "invert_pixel c base col m =
     (let d = depth (CBmodeinfo c); p = base + col * 3; pix = load16 m (base + 2 * col) in
      if d = 32 then store32 (base + 4 * col) (load32 m (base + 4 * col) XOR 0x00FFFFFF) m
      else if d = 24 then m(p := 0xFF - m p, p + 1 := 0xFF - m (p + 1), p + 2 := 0xFF - m (p + 2))
      else if d = 16 then
        store16 (base + 2 * col) (pack_pixel c
          (0xFF - widen pix (CBred_pos c) (CBred_size c))
          (0xFF - widen pix (CBgreen_pos c) (CBgreen_size c))
          (0xFF - widen pix (CBblue_pos c) (CBblue_size c))) m
      else m)"

definition cbvga_draw_cursor :: "u16 \<Rightarrow> u16 \<Rightarrow> u8 \<Rightarrow> int \<Rightarrow> int \<Rightarrow> cbvga \<Rightarrow> mem \<Rightarrow> mem" where
  "cbvga_draw_cursor cx cy attr start en c m =
     (let char_height = uint (load16 m BDA_char_height);
          en = (if en \<ge> char_height then char_height - 1 else en)
      in if start > en then m
         else fold (\<lambda>row. fold (invert_pixel c (cell_base c cx cy char_height row))
                [0..<unat (cwidth (CBmodeinfo c))]) [start..en] m)"

text \<open>\<^verbatim>\<open>vgafb_read_char\<close> finds the character of a cell; it is a parameter here.\<close>

definition cbvga_hide_cursor ::
  "vga_env \<Rightarrow> (u16 \<Rightarrow> u16 \<Rightarrow> mem \<Rightarrow> u8 \<times> u8) \<Rightarrow> u16 \<Rightarrow> u16 \<Rightarrow> u8 \<Rightarrow> cbvga \<Rightarrow> mem \<Rightarrow> mem" where
  "cbvga_hide_cursor E read_char cx cy attr c m =
     (let (car, a) = read_char cx cy m in cbvga_render_char E cx cy car a c m)"

record cbvga_fb_info =
  fb_base :: u32
  fb_width :: u32
  fb_height :: u32
  fb_line :: u32

definition cbvga_get_fb :: "cbvga \<Rightarrow> cbvga_fb_info option" where
  "cbvga_get_fb c =
     (if VBE_framebuffer c = 0 \<or> width (CBmodeinfo c) = 0 \<or> height (CBmodeinfo c) = 0 then None
      else Some \<lparr>fb_base = VBE_framebuffer c, fb_width = ucast (width (CBmodeinfo c)),
             fb_height = ucast (height (CBmodeinfo c)), fb_line = CBlinelength c\<rparr>)"

section \<open>The list of modes\<close>

definition table_modes :: "cbvga \<Rightarrow> nat list \<Rightarrow> u16 list" where
  "table_modes c is = filter (\<lambda>md. md \<noteq> 0xFFFF) (map (\<lambda>i. mode (svga_modes c ! i)) is)"

definition words_bytes :: "u16 list \<Rightarrow> u8 list" where
  "words_bytes ws = concat (map (le_bytes 2) ws)"

lemma length_words_bytes [simp]: "length (words_bytes ws) = 2 * length ws"
  by (induction ws) (auto simp: words_bytes_def)

lemma words_bytes_Nil [simp]: "words_bytes [] = []"
  by (simp add: words_bytes_def)

lemma words_bytes_append [simp]: "words_bytes (xs @ ys) = words_bytes xs @ words_bytes ys"
  by (simp add: words_bytes_def)

lemma store16_words: "store16 a w m = store_bytes a (words_bytes [w]) m"
  by (simp add: store16_def words_bytes_def)

lemma store_words_snoc:
  "store16 (a + 2 * length ws) w (store_bytes a (words_bytes ws) m) = store_bytes a (words_bytes (ws @ [w])) m"
  using store_bytes_append [of a "words_bytes ws" "words_bytes [w]" m] by (simp add: store16_words)

lemma list_modes_loop_words:
  assumes "list_modes_loop c seg lst is (dest + 2 * length ws) seen (store_bytes (seg * 16 + dest) (words_bytes ws) m) = (d', seen', m')"
  shows "\<exists>k. let ws' = take k (table_modes c is) in
      d' = dest + 2 * length (ws @ ws') \<and> m' = store_bytes (seg * 16 + dest) (words_bytes (ws @ ws')) m \<and>
      (seen' \<longleftrightarrow> seen \<or> CBmode c \<in> uint ` set ws') \<and> (d' < lst \<longrightarrow> ws' = table_modes c is) \<and>
      (dest + 2 * length ws < lst + 2 \<longrightarrow> d' < lst + 2)"
  using assms
proof (induction "is" arbitrary: ws seen)
  case Nil
  then show ?case by (intro exI [of _ 0]) (auto simp: table_modes_def)
next
  case (Cons i "is")
  let ?md = "mode (svga_modes c ! i)"
  show ?case
  proof (cases "dest + 2 * length ws < lst")
    case False
    then show ?thesis using Cons.prems by (intro exI [of _ 0]) auto
  next
    case True
    show ?thesis
    proof (cases "?md = 0xFFFF")
      case True
      then show ?thesis using Cons.IH [of ws seen] Cons.prems \<open>_ < lst\<close> by (simp add: table_modes_def)
    next
      case False
      have "list_modes_loop c seg lst is (dest + 2 * length (ws @ [?md])) (seen \<or> CBmode c = uint ?md)
          (store_bytes (seg * 16 + dest) (words_bytes (ws @ [?md])) m) = (d', seen', m')"
        using Cons.prems True False store_words_snoc [of "seg * 16 + dest" ws ?md m]
        by (simp add: Let_def add.assoc split: if_splits)
      from Cons.IH [OF this] obtain k where
        "d' = dest + 2 * length ((ws @ [?md]) @ take k (table_modes c is))"
        "m' = store_bytes (seg * 16 + dest) (words_bytes ((ws @ [?md]) @ take k (table_modes c is))) m"
        "seen' \<longleftrightarrow> (seen \<or> CBmode c = uint ?md) \<or> CBmode c \<in> uint ` set (take k (table_modes c is))"
        "d' < lst \<longrightarrow> take k (table_modes c is) = table_modes c is"
        "dest + 2 * length (ws @ [?md]) < lst + 2 \<longrightarrow> d' < lst + 2" by (auto simp: Let_def)
      then show ?thesis using False True
        by (intro exI [of _ "Suc k"]) (auto simp: table_modes_def Let_def)
    qed
  qed
qed

lemma uint_0xFFFF: "uint (w :: u16) = 0xFFFF \<longleftrightarrow> w = 0xFFFF"
  using word_uint_eq_iff [of w "0xFFFF"] by simp

lemma find_mode_loop_Some:
  assumes "i \<in> set is" "mode (svga_modes c ! i) \<noteq> 0xFFFF"
  shows "find_mode_loop c (uint (mode (svga_modes c ! i))) is \<noteq> None"
  using assms
proof (induction "is")
  case (Cons j "is")
  have "uint (mode (svga_modes c ! i)) \<noteq> 0xFFFF" using Cons.prems(2) by (metis uint_0xFFFF)
  then show ?case using Cons by (auto simp: Let_def)
qed simp

text \<open>
  C22. The list of VBE modes.  In a graphics mode \<^verbatim>\<open>cbvga_list_modes\<close> writes a list of mode numbers
  closed by \<^verbatim>\<open>0xffff\<close> and changes no other byte; the list never passes the given end, it is the whole
  table followed by the native mode when that is not in the table and there is room, and
  \<^verbatim>\<open>cbvga_find_mode\<close> finds every mode that is listed.
\<close>

theorem cbvga_list_modes_correct:
  assumes "CBmode c \<noteq> 3" "0 \<le> CBmode c" "CBmode c < 2 ^ 16" "dest \<le> lst"
  shows "\<exists>ms. cbvga_list_modes c seg dest lst m = store_bytes (seg * 16 + dest) (words_bytes (ms @ [0xFFFF])) m \<and>
    dest + 2 * length ms < lst + 2 \<and>
    (dest + 2 * length ms < lst \<longrightarrow> set ms = set (table_modes c [0..<unat (svga_mcount c)]) \<union> {word_of_int (CBmode c)}) \<and>
    (\<forall>md\<in>set ms. cbvga_find_mode c (uint md) \<noteq> None)"
proof -
  obtain d1 seen1 m1 where loop: "list_modes_loop c seg lst [0..<unat (svga_mcount c)] dest False m = (d1, seen1, m1)"
    by (rule prod_cases3)
  have "list_modes_loop c seg lst [0..<unat (svga_mcount c)] (dest + 2 * length ([] :: u16 list)) False
      (store_bytes (seg * 16 + dest) (words_bytes []) m) = (d1, seen1, m1)" using loop by simp
  from list_modes_loop_words [OF this] obtain k where k:
    "let ws' = take k (table_modes c [0..<unat (svga_mcount c)]) in
      d1 = dest + 2 * length ([] @ ws') \<and> m1 = store_bytes (seg * 16 + dest) (words_bytes ([] @ ws')) m \<and>
      (seen1 \<longleftrightarrow> False \<or> CBmode c \<in> uint ` set ws') \<and>
      (d1 < lst \<longrightarrow> ws' = table_modes c [0..<unat (svga_mcount c)]) \<and>
      (dest + 2 * length ([] :: u16 list) < lst + 2 \<longrightarrow> d1 < lst + 2)" by blast
  define ws where "ws = take k (table_modes c [0..<unat (svga_mcount c)])"
  have ws: "d1 = dest + 2 * length ws"
    "m1 = store_bytes (seg * 16 + dest) (words_bytes ws) m" "seen1 \<longleftrightarrow> CBmode c \<in> uint ` set ws"
    "d1 < lst \<longrightarrow> ws = table_modes c [0..<unat (svga_mcount c)]" "d1 < lst + 2"
    using k assms(4) unfolding ws_def [symmetric] Let_def by simp_all
  have ws6: "set ws \<subseteq> set (table_modes c [0..<unat (svga_mcount c)])"
    by (simp add: ws_def set_take_subset)
  define cb :: u16 where "cb = word_of_int (CBmode c)"
  have cb: "uint cb = CBmode c" using assms(2,3) by (simp add: cb_def uint_word_of_int)
  define ms where "ms = ws @ (if d1 < lst \<and> \<not> seen1 then [cb] else [])"
  have "cbvga_list_modes c seg dest lst m = store_bytes (seg * 16 + dest) (words_bytes (ms @ [0xFFFF])) m"
    using assms(1) loop ws(1,2) store_words_snoc [of "seg * 16 + dest" ws cb m]
      store_words_snoc [of "seg * 16 + dest" ws "0xFFFF" m] store_words_snoc [of "seg * 16 + dest" "ws @ [cb]" "0xFFFF" m]
    by (auto simp: cbvga_list_modes_def ms_def cb_def Let_def add.assoc words_bytes_def)
  moreover have "dest + 2 * length ms < lst + 2" using ws(1,5) by (auto simp: ms_def)
  moreover have "cb \<in> set ws" if "seen1" using that ws(3) cb by (metis imageE word_uint_eq_iff)
  then have "dest + 2 * length ms < lst \<longrightarrow> set ms = set (table_modes c [0..<unat (svga_mcount c)]) \<union> {cb}"
    using ws(1,4) by (auto simp: ms_def)
  moreover have "cbvga_find_mode c (uint md) \<noteq> None" if "md \<in> set ms" for md
  proof -
    have "md \<in> set ws \<or> md = cb" using that by (auto simp: ms_def split: if_splits)
    then have "uint md = CBmode c \<or> (\<exists>i\<in>set [0..<unat (svga_mcount c)]. md = mode (svga_modes c ! i) \<and> md \<noteq> 0xFFFF)"
      using ws6 cb by (auto simp: table_modes_def)
    then show ?thesis using find_mode_loop_Some by (auto simp: cbvga_find_mode_def)
  qed
  ultimately show ?thesis unfolding cb_def by (intro exI [of _ ms]) blast
qed

definition vmode_none :: vgamode_s where
  "vmode_none = \<lparr>memmodel = 0, width = 0, height = 0, depth = 0, cwidth = 0, cheight = 0, sstart = 0\<rparr>"

definition vbe_none :: vbe_mode_info where
  "vbe_none = \<lparr>bytes_per_scanline = 0, bits_per_pixel = 0, red_size = 0, red_pos = 0, green_size = 0,
     green_pos = 0, blue_size = 0, blue_pos = 0, linear_bytes_per_scanline = 0\<rparr>"

definition cbvga_boot :: cbvga where
  "cbvga_boot = \<lparr>HaveRunInit = False, CBmode = 0, CBmodeinfo = vmode_none, CBemulinfo = vmode_none,
     CBlinelength = 0, CBred_size = 0, CBgreen_size = 0, CBblue_size = 0, CBred_pos = 0, CBgreen_pos = 0,
     CBblue_pos = 0, svga_modes = svga_modes_init, svga_mcount = 82, VBE_framebuffer = 0,
     VBE_total_memory = 0x40000, g_last_vbe_mode_info = vbe_none, emul = gray_example\<rparr>"

theorem cbvga_list_modes_correct_witness:
  "\<exists>ms. cbvga_list_modes (cbvga_boot\<lparr>CBmode := 0x143, svga_mcount := 2\<rparr>) 0x2000 0 222 (\<lambda>_. 0) =
     store_bytes 0x20000 (words_bytes (ms @ [0xFFFF])) (\<lambda>_. 0) \<and> 2 * length ms < 224 \<and>
     (2 * length ms < 222 \<longrightarrow> set ms = {0x100, 0x101, 0x143})"
proof -
  let ?c = "cbvga_boot\<lparr>CBmode := 0x143, svga_mcount := 2\<rparr>"
  have "set (table_modes ?c [0..<unat (svga_mcount ?c)]) = {0x100, 0x101}"
    by (simp add: table_modes_def cbvga_boot_def svga_modes_init_def svga_def upt_rec)
  then show ?thesis
    using cbvga_list_modes_correct [of ?c 0 222 "0x2000" "\<lambda>_. 0"] by (auto simp: insert_commute)
qed

section \<open>Setting up from the coreboot table\<close>

text \<open>What a framebuffer record must satisfy to be used, and what the driver's state is then.\<close>

definition fb_sane :: "cb_framebuffer \<Rightarrow> bool" where
  "fb_sane f \<longleftrightarrow>
     physical_address f \<noteq> 0 \<and> physical_address f \<le> 0xFFFFFFFF \<and>
     x_resolution f \<noteq> 0 \<and> x_resolution f < 0x10000 \<and> y_resolution f \<noteq> 0 \<and> y_resolution f < 0x10000 \<and>
     cb_framebuffer.bits_per_pixel f \<in> {16, 24, 32} \<and>
     unat (x_resolution f) * (unat (cb_framebuffer.bits_per_pixel f) div 8) \<le> unat (bytes_per_line f)"

definition fb_ready :: "cbvga \<Rightarrow> bool" where
  "fb_ready c \<longleftrightarrow>
     CBmode c = 0x143 \<and> VBE_framebuffer c \<noteq> 0 \<and> depth (CBmodeinfo c) \<in> {16, 24, 32} \<and>
     memmodel (CBmodeinfo c) = MM_DIRECT \<and> CBemulinfo c = CBmodeinfo c \<and>
     cwidth (CBmodeinfo c) = 8 \<and> cheight (CBmodeinfo c) = 16 \<and>
     unat (width (CBmodeinfo c)) * (unat (depth (CBmodeinfo c)) div 8) \<le> unat (CBlinelength c) \<and>
     CBred_size c \<noteq> 0 \<and> CBgreen_size c \<noteq> 0 \<and> CBblue_size c \<noteq> 0"

definition text_ready :: "cbvga \<Rightarrow> bool" where
  "text_ready c \<longleftrightarrow> CBmode c = 3 \<and> memmodel (CBmodeinfo c) = MM_TEXT \<and> CBlinelength c = 160 \<and>
     width (CBmodeinfo c) = 80 \<and> height (CBmodeinfo c) = 25"

lemma min_stride_exact:
  assumes "bpp \<in> {16, 24, 32}" "x < 0x40000000"
  shows "unat (min_stride bpp x) = unat x * (unat bpp div 8)"
proof -
  have "unat x < 0x40000000" using assms(2) by (simp add: word_less_nat_alt)
  then show ?thesis using assms(1) by (auto simp: min_stride_def unat_word_ariths)
qed

lemma add_mode_fields [simp]:
  "CBmode (add_mode md x y d mm b c) = CBmode c" "CBmodeinfo (add_mode md x y d mm b c) = CBmodeinfo c"
  "CBemulinfo (add_mode md x y d mm b c) = CBemulinfo c" "CBlinelength (add_mode md x y d mm b c) = CBlinelength c"
  "VBE_framebuffer (add_mode md x y d mm b c) = VBE_framebuffer c" "emul (add_mode md x y d mm b c) = emul c"
  "CBred_size (add_mode md x y d mm b c) = CBred_size c" "CBgreen_size (add_mode md x y d mm b c) = CBgreen_size c"
  "CBblue_size (add_mode md x y d mm b c) = CBblue_size c" "CBred_pos (add_mode md x y d mm b c) = CBred_pos c"
  "CBgreen_pos (add_mode md x y d mm b c) = CBgreen_pos c" "CBblue_pos (add_mode md x y d mm b c) = CBblue_pos c"
  by (simp_all add: add_mode_def Let_def)

lemma add_mode_depths_fields [simp]:
  "CBmode (add_mode_depths_for_resolution md x y c) = CBmode c" "CBmodeinfo (add_mode_depths_for_resolution md x y c) = CBmodeinfo c"
  "CBemulinfo (add_mode_depths_for_resolution md x y c) = CBemulinfo c" "CBlinelength (add_mode_depths_for_resolution md x y c) = CBlinelength c"
  "VBE_framebuffer (add_mode_depths_for_resolution md x y c) = VBE_framebuffer c" "emul (add_mode_depths_for_resolution md x y c) = emul c"
  "CBred_size (add_mode_depths_for_resolution md x y c) = CBred_size c" "CBgreen_size (add_mode_depths_for_resolution md x y c) = CBgreen_size c"
  "CBblue_size (add_mode_depths_for_resolution md x y c) = CBblue_size c" "CBred_pos (add_mode_depths_for_resolution md x y c) = CBred_pos c"
  "CBgreen_pos (add_mode_depths_for_resolution md x y c) = CBgreen_pos c" "CBblue_pos (add_mode_depths_for_resolution md x y c) = CBblue_pos c"
  by (simp_all add: add_mode_depths_for_resolution_def Let_def)

lemma register_fields [simp]:
  "CBmode (register_emulated_modes x y c) = CBmode c" "CBmodeinfo (register_emulated_modes x y c) = CBmodeinfo c"
  "CBemulinfo (register_emulated_modes x y c) = CBemulinfo c" "CBlinelength (register_emulated_modes x y c) = CBlinelength c"
  "VBE_framebuffer (register_emulated_modes x y c) = VBE_framebuffer c" "emul (register_emulated_modes x y c) = emul c"
  "CBred_size (register_emulated_modes x y c) = CBred_size c" "CBgreen_size (register_emulated_modes x y c) = CBgreen_size c"
  "CBblue_size (register_emulated_modes x y c) = CBblue_size c" "CBred_pos (register_emulated_modes x y c) = CBred_pos c"
  "CBgreen_pos (register_emulated_modes x y c) = CBgreen_pos c" "CBblue_pos (register_emulated_modes x y c) = CBblue_pos c"
  by (simp_all add: register_emulated_modes_def Let_def)

lemma default_masks_fields [simp]:
  "CBmode (default_masks b c) = CBmode c"
  "CBmodeinfo (default_masks b c) = CBmodeinfo c"
  "CBemulinfo (default_masks b c) = CBemulinfo c"
  "CBlinelength (default_masks b c) = CBlinelength c"
  "VBE_framebuffer (default_masks b c) = VBE_framebuffer c"
  "emul (default_masks b c) = emul c"
  by (simp_all add: default_masks_def Let_def)

lemma default_masks_nonzero:
  assumes "b \<in> {16, 24, 32}"
  shows "CBred_size (default_masks b c) \<noteq> 0 \<and> CBgreen_size (default_masks b c) \<noteq> 0 \<and> CBblue_size (default_masks b c) \<noteq> 0"
  using assms by (auto simp: default_masks_def Let_def)

lemma default_masks_same:
  "CBred_size c \<noteq> 0 \<Longrightarrow> CBgreen_size c \<noteq> 0 \<Longrightarrow> CBblue_size c \<noteq> 0 \<Longrightarrow> default_masks b c = c"
  by (simp add: default_masks_def Let_def)

lemma text_fallback_ready: "text_ready (text_fallback c)"
  by (simp add: text_ready_def text_fallback_def)

text \<open>The state after \<^verbatim>\<open>cbvga_setup_modes\<close> and the seeding of the text palette.\<close>

lemma setup_modes_ready:
  assumes "addr \<noteq> 0" "addr \<le> 0xFFFFFFFF" "b \<in> {16, 24, 32}" "x < 0x10000"
    "unat x * (unat b div 8) \<le> unat l" "CBred_size c \<noteq> 0" "CBgreen_size c \<noteq> 0" "CBblue_size c \<noteq> 0"
  shows "fb_ready (cbvga_init_text_palette (cbvga_setup_modes addr b x y l c))"
proof -
  have "unat (ucast x :: u16) = unat x" using assms(4) by (simp add: unat_ucast_mod word_less_nat_alt)
  moreover have "(ucast addr :: u32) \<noteq> 0"
  proof -
    have "unat addr \<le> 0xFFFFFFFF" using assms(2) by (simp add: word_le_nat_alt)
    then have "unat (ucast addr :: u32) = unat addr" by (simp add: unat_ucast_mod)
    then show ?thesis using assms(1) by (metis unat_eq_zero)
  qed
  ultimately show ?thesis using assms
    by (auto simp: fb_ready_def cbvga_init_text_palette_def cbvga_setup_modes_def Let_def)
qed

definition with_masks :: "cb_framebuffer \<Rightarrow> cbvga \<Rightarrow> cbvga" where
  "with_masks f c =
     (let c = default_masks (effective_bpp (cb_framebuffer.bits_per_pixel f) (x_resolution f) (bytes_per_line f))
          (c\<lparr>CBred_size := red_mask_size f, CBgreen_size := green_mask_size f, CBblue_size := blue_mask_size f,
             CBred_pos := red_mask_pos f, CBgreen_pos := green_mask_pos f, CBblue_pos := blue_mask_pos f\<rparr>)
      in c\<lparr>emul := cbvga_emul_set_masks (CBred_size c) (CBgreen_size c) (CBblue_size c)
           (CBred_pos c) (CBgreen_pos c) (CBblue_pos c) (emul c)\<rparr>)"

lemma setup_framebuffer_cases:
  fixes f c
  defines "b \<equiv> effective_bpp (cb_framebuffer.bits_per_pixel f) (x_resolution f) (bytes_per_line f)"
    and "x \<equiv> x_resolution f" and "l \<equiv> bytes_per_line f"
  shows "setup_framebuffer f c =
    (if cb_framebuffer.bits_per_pixel f = 24 \<and> x = 0 then None
     else if physical_address f = 0 \<or> physical_address f > 0xFFFFFFFF \<or> l = 0 \<or> x = 0 \<or> y_resolution f = 0 \<or>
       b \<notin> {16, 24, 32} \<or> l < min_stride (ucast b) x
     then Some (text_fallback (with_masks f c))
     else Some (cbvga_init_text_palette (cbvga_setup_modes (physical_address f) b x (y_resolution f) l (with_masks f c))))"
proof -
  have e: "(if cb_framebuffer.bits_per_pixel f = 24 \<and> P then 24
      else effective_bpp (cb_framebuffer.bits_per_pixel f) u v) = effective_bpp (cb_framebuffer.bits_per_pixel f) u v" for P u v
    by (simp add: effective_bpp_def)
  have z: "ms \<noteq> 0 \<and> v < ms \<longleftrightarrow> v < ms" for ms v :: u32 by auto
  show ?thesis unfolding setup_framebuffer_def Let_def e z with_masks_def b_def x_def l_def by simp
qed

lemma with_masks_nonzero:
  assumes "effective_bpp (cb_framebuffer.bits_per_pixel f) (x_resolution f) (bytes_per_line f) \<in> {16, 24, 32}"
  shows "CBred_size (with_masks f c) \<noteq> 0" "CBgreen_size (with_masks f c) \<noteq> 0" "CBblue_size (with_masks f c) \<noteq> 0"
  using default_masks_nonzero [OF assms] by (simp_all add: with_masks_def Let_def)

lemma setup_framebuffer_ready:
  assumes "x_resolution f < 0x10000" "setup_framebuffer f c = Some c'"
  shows "text_ready c' \<or> fb_ready c'"
proof -
  let ?b = "effective_bpp (cb_framebuffer.bits_per_pixel f) (x_resolution f) (bytes_per_line f)"
  show ?thesis
  proof (cases "c' = text_fallback (with_masks f c)")
    case False
    then have g: "physical_address f \<noteq> 0" "physical_address f \<le> 0xFFFFFFFF" "?b \<in> {16, 24, 32}"
      "\<not> bytes_per_line f < min_stride (ucast ?b) (x_resolution f)"
      and c': "c' = cbvga_init_text_palette (cbvga_setup_modes (physical_address f) ?b (x_resolution f)
        (y_resolution f) (bytes_per_line f) (with_masks f c))"
      using assms(2) unfolding setup_framebuffer_cases by (auto split: if_splits simp: not_less)
    have "unat (min_stride (ucast ?b) (x_resolution f)) = unat (x_resolution f) * (unat (ucast ?b :: u32) div 8)"
      using g(3) assms(1) by (intro min_stride_exact) (auto simp: word_less_nat_alt)
    then have "unat (x_resolution f) * (unat ?b div 8) \<le> unat (bytes_per_line f)"
      using g(4) by (simp add: word_less_nat_alt)
    then show ?thesis unfolding c' using g with_masks_nonzero [OF g(3)] assms(1)
      by (intro disjI2 setup_modes_ready) auto
  qed (simp add: text_fallback_ready)
qed

text \<open>
  C20. Setup leaves a consistent driver.  Whatever is in memory, when \<^verbatim>\<open>cbvga_setup\<close> returns 0 on the
  first call and the announced width fits 16 bits, the driver is either in 80x25 text mode or has a
  framebuffer of 16, 24 or 32 bits per pixel whose lines fit into its pitch and whose channel masks are
  not empty; otherwise it returns -1, because there is no table, and nothing has changed.
\<close>

theorem cbvga_setup_type:
  assumes "\<not> HaveRunInit c" "cbvga_setup m c = Some (c', r)"
    and "\<forall>cbh cbfb. find_cb_table m = Some (Some cbh) \<and> find_cb_subtable m cbh CB_TAG_FRAMEBUFFER = Some cbfb \<longrightarrow>
       load32 m (unat cbfb + 16) < 0x10000"
  shows "if r = 0 then text_ready c' \<or> fb_ready c' else r = -1 \<and> c' = c \<and> find_cb_table m = Some None"
proof -
  have "x_resolution (read_cb_framebuffer m p) = load32 m (p + 16)" for p
    by (simp add: read_cb_framebuffer_def)
  then show ?thesis
    using assms setup_framebuffer_ready [of "read_cb_framebuffer m _" c c'] text_fallback_ready
    by (fastforce simp: cbvga_setup_def split: option.splits if_splits)
qed

definition table_example :: mem where
  "table_example = fst (build_coreboot_table CSMWRAP_VIDEO_FALLBACK cb_fb_example (0, 0, 0) (\<lambda>_. 0))"

lemma table_example_read:
  "find_cb_table table_example = Some (Some 0x500)"
  "find_cb_subtable table_example 0x500 CB_TAG_FRAMEBUFFER = Some 0x518"
  "read_cb_framebuffer table_example 0x518 = cb_fb_example\<lparr>fb_tag := CB_TAG_FRAMEBUFFER, fb_size := 40\<rparr>"
proof -
  have "load32 (\<lambda>_. 0) a \<noteq> CB_SIGNATURE" for a
    by (simp add: load32_def load_bytes_def upt_rec CB_SIGNATURE_def)
  then show "find_cb_table table_example = Some (Some 0x500)"
    "find_cb_subtable table_example 0x500 CB_TAG_FRAMEBUFFER = Some 0x518"
    "read_cb_framebuffer table_example 0x518 = cb_fb_example\<lparr>fb_tag := CB_TAG_FRAMEBUFFER, fb_size := 40\<rparr>"
    using coreboot_table_read [of CSMWRAP_VIDEO_FALLBACK "\<lambda>_. 0" cb_fb_example "(0, 0, 0)" table_example
        "snd (build_coreboot_table CSMWRAP_VIDEO_FALLBACK cb_fb_example (0, 0, 0) (\<lambda>_. 0))"]
    by (simp_all add: table_example_def)
qed

theorem cbvga_setup_type_witness:
  "\<exists>c'. cbvga_setup table_example cbvga_boot = Some (c', 0) \<and> (text_ready c' \<or> fb_ready c')"
proof -
  have run: "\<not> HaveRunInit cbvga_boot" by (simp add: cbvga_boot_def)
  have "load32 table_example (0x518 + 16) = x_resolution (read_cb_framebuffer table_example 0x518)"
    by (simp add: read_cb_framebuffer_def)
  then have x: "load32 table_example (0x518 + 16) = 1024" by (simp add: table_example_read cb_fb_example_def)
  obtain c' where c': "setup_framebuffer (read_cb_framebuffer table_example 0x518) cbvga_boot = Some c'"
    by (cases "setup_framebuffer (read_cb_framebuffer table_example 0x518) cbvga_boot")
      (auto simp: setup_framebuffer_cases table_example_read cb_fb_example_def split: if_splits)
  then have "cbvga_setup table_example cbvga_boot = Some (c', 0)"
    using run by (simp add: cbvga_setup_def table_example_read)
  then show ?thesis using cbvga_setup_type [OF run, of table_example c' 0] x
    by (simp add: table_example_read)
qed

section \<open>The cursor\<close>

text \<open>
  Inverting a pixel exclusive-ors its colour bytes with ones, in each of the three pixel formats; so
  does drawing the whole cursor, wherever its pixels lie, and drawing it twice undoes it.
\<close>

definition xor_mem :: "(nat \<Rightarrow> u8) \<Rightarrow> mem \<Rightarrow> mem" where
  "xor_mem K m = (\<lambda>a. m a XOR K a)"

definition is_xor :: "(mem \<Rightarrow> mem) \<Rightarrow> bool" where
  "is_xor f \<longleftrightarrow> (\<exists>K. f = xor_mem K)"

lemma is_xor_comp: "is_xor f \<Longrightarrow> is_xor g \<Longrightarrow> is_xor (\<lambda>m. g (f m))"
proof -
  assume "is_xor f" "is_xor g"
  then obtain K L where "f = xor_mem K" "g = xor_mem L" by (auto simp: is_xor_def)
  then have "(\<lambda>m. g (f m)) = xor_mem (\<lambda>a. K a XOR L a)" by (simp add: xor_mem_def fun_eq_iff xor.assoc)
  then show ?thesis by (auto simp: is_xor_def)
qed

lemma is_xor_fold: "(\<And>x. is_xor (f x)) \<Longrightarrow> is_xor (fold f xs)"
proof (induction xs)
  case Nil
  have "id = xor_mem (\<lambda>_. 0)" by (simp add: xor_mem_def fun_eq_iff)
  then show ?case by (simp add: is_xor_def del: id_apply) metis
next
  case (Cons x xs)
  then show ?case using is_xor_comp [of "f x" "fold f xs"] by (simp add: comp_def)
qed

lemma is_xor_twice: "is_xor f \<Longrightarrow> f (f m) = m"
  by (auto simp: is_xor_def xor_mem_def xor.assoc)

definition mask565 :: "cbvga \<Rightarrow> bool" where
  "mask565 c \<longleftrightarrow> CBred_pos c = 11 \<and> CBred_size c = 5 \<and> CBgreen_pos c = 5 \<and> CBgreen_size c = 6 \<and>
     CBblue_pos c = 0 \<and> CBblue_size c = 5"

lemma ff_minus: "0xFF - (b :: u8) = NOT b" "b XOR 0xFF = NOT b"
proof -
  have ff: "0xFF = (- 1 :: u8)" by simp
  show "0xFF - b = NOT b" unfolding ff not_eq_complement by simp
  show "b XOR 0xFF = NOT b" unfolding ff by (rule bit_word_eqI) (simp add: bit_simps)
qed

lemma mask_bits: "push_bit n 1 - 1 = (mask n :: 'a::len word)"
  by (simp add: mask_eq_exp_minus_1 push_bit_eq_mult)

lemma invert565:
  assumes "mask565 c"
  shows "pack_pixel c (0xFF - widen pix (CBred_pos c) (CBred_size c))
      (0xFF - widen pix (CBgreen_pos c) (CBgreen_size c)) (0xFF - widen pix (CBblue_pos c) (CBblue_size c)) = NOT pix"
proof -
  have m: "CBred_pos c = 11" "CBred_size c = 5" "CBgreen_pos c = 5" "CBgreen_size c = 6" "CBblue_pos c = 0" "CBblue_size c = 5"
    using assms by (auto simp: mask565_def)
  show ?thesis
  proof (rule bit_word_eqI)
    fix n assume "n < LENGTH(16)"
    then show "bit (pack_pixel c (0xFF - widen pix (CBred_pos c) (CBred_size c))
        (0xFF - widen pix (CBgreen_pos c) (CBgreen_size c)) (0xFF - widen pix (CBblue_pos c) (CBblue_size c))) n =
        bit (NOT pix) n"
      unfolding m pack_pixel_def pack_rgb16_def widen_def Let_def ff_minus(1) mask_bits
      by (cases "n < 11") (auto simp: bit_simps)
  qed
qed

lemma store32_xor:
  "store32 a (load32 m a XOR k) m = xor_mem (\<lambda>x. if a \<le> x \<and> x < a + 4 then ucast (drop_bit (8 * (x - a)) k) else 0) m"
proof
  fix x
  have "m (a + i) = ucast (drop_bit (8 * i) (load32 m a))" if "i < 4" for i
  proof -
    have "le_bytes 4 (load32 m a) = load_bytes m a 4" by (simp add: load32_def le_bytes_of_le)
    then show ?thesis using that nth_le_bytes [of i 4 "load32 m a"] by simp
  qed
  from this [of "x - a"]
  show "store32 a (load32 m a XOR k) m x = xor_mem (\<lambda>x. if a \<le> x \<and> x < a + 4 then ucast (drop_bit (8 * (x - a)) k) else 0) m x"
    by (auto simp: store32_def store_bytes_def xor_mem_def nth_le_bytes drop_bit_xor unsigned_xor_eq)
qed

lemma store16_xor:
  "store16 a (load16 m a XOR k) m = xor_mem (\<lambda>x. if a \<le> x \<and> x < a + 2 then ucast (drop_bit (8 * (x - a)) k) else 0) m"
proof
  fix x
  have "m (a + i) = ucast (drop_bit (8 * i) (load16 m a))" if "i < 2" for i
  proof -
    have "le_bytes 2 (load16 m a) = load_bytes m a 2" by (simp add: load16_def le_bytes_of_le)
    then show ?thesis using that nth_le_bytes [of i 2 "load16 m a"] by simp
  qed
  from this [of "x - a"]
  show "store16 a (load16 m a XOR k) m x = xor_mem (\<lambda>x. if a \<le> x \<and> x < a + 2 then ucast (drop_bit (8 * (x - a)) k) else 0) m x"
    by (auto simp: store16_def store_bytes_def xor_mem_def nth_le_bytes drop_bit_xor unsigned_xor_eq)
qed

lemma invert_pixel_is_xor:
  assumes "depth (CBmodeinfo c) = 16 \<Longrightarrow> mask565 c"
  shows "is_xor (invert_pixel c base col)"
proof -
  consider "depth (CBmodeinfo c) = 32" | "depth (CBmodeinfo c) = 24" | "depth (CBmodeinfo c) = 16"
    | "depth (CBmodeinfo c) \<notin> {16, 24, 32}" by blast
  then show ?thesis
  proof cases
    case 1
    then show ?thesis unfolding is_xor_def invert_pixel_def fun_eq_iff Let_def
      by (simp add: store32_xor) blast
  next
    case 2
    have "invert_pixel c base col = xor_mem (\<lambda>a. if base + col * 3 \<le> a \<and> a < base + col * 3 + 3 then 0xFF else 0)"
      using 2 by (auto simp: fun_eq_iff invert_pixel_def xor_mem_def ff_minus Let_def)
    then show ?thesis by (auto simp: is_xor_def)
  next
    case 3
    have "store16 a (NOT (load16 m a)) m =
        xor_mem (\<lambda>x. if a \<le> x \<and> x < a + 2 then ucast (drop_bit (8 * (x - a)) (- 1 :: u16)) else 0) m" for a m
      using store16_xor [of a m "- 1"] by simp
    then show ?thesis using 3 assms unfolding is_xor_def invert_pixel_def fun_eq_iff Let_def
      by (simp add: invert565) blast
  next
    case 4
    then have "invert_pixel c base col = xor_mem (\<lambda>_. 0)"
      by (auto simp: fun_eq_iff invert_pixel_def xor_mem_def)
    then show ?thesis by (auto simp: is_xor_def)
  qed
qed

lemma invert_pixel_out: "a < base \<Longrightarrow> invert_pixel c base col m a = m a"
  by (auto simp: invert_pixel_def Let_def store32_def store16_def store_bytes_def)

lemma draw_cursor_out:
  assumes "\<forall>row. start \<le> row \<and> row \<le> en \<longrightarrow> a < cell_base c cx cy (uint (load16 m BDA_char_height)) row"
  shows "cbvga_draw_cursor cx cy attr start en c m a = m a"
  using assms by (auto simp: cbvga_draw_cursor_def Let_def intro!: fold_frame invert_pixel_out)


definition vmode32 :: vgamode_s where
  "vmode32 = \<lparr>memmodel = MM_DIRECT, width = 1024, height = 768, depth = 32, cwidth = 8, cheight = 16, sstart = 0\<rparr>"

definition cursor_example :: cbvga where
  "cursor_example = cbvga_boot\<lparr>CBmodeinfo := vmode32, CBlinelength := 4096, VBE_framebuffer := 0x80000000\<rparr>"


end
