(* ===== verification/Bregs.thy ===== *)
theory Bregs
  imports CSM_Prelude
begin

unbundle bit_operations_syntax

text \<open>
  The register block that the BIOS entry code saves and hands to a handler, \<^verbatim>\<open>struct bregs\<close> of
  \<^verbatim>\<open>seabios/src/bregs.h\<close>, with the registers the modelled handlers use, and the macros for their
  byte halves.
\<close>

record bregs =
  ax :: u16
  bx :: u16
  cx :: u16
  dx :: u16
  ds :: u16
  es :: u16
  bp :: u16

definition lo8 :: "u16 \<Rightarrow> u8" where "lo8 w = ucast w"
definition hi8 :: "u16 \<Rightarrow> u8" where "hi8 w = ucast (drop_bit 8 w)"
definition set_lo8 :: "u8 \<Rightarrow> u16 \<Rightarrow> u16" where "set_lo8 v w = (w AND 0xFF00) OR ucast v"
definition set_hi8 :: "u8 \<Rightarrow> u16 \<Rightarrow> u16" where "set_hi8 v w = (w AND 0x00FF) OR push_bit 8 (ucast v)"

definition AL :: "bregs \<Rightarrow> u8" where "AL r = lo8 (ax r)"
definition AH :: "bregs \<Rightarrow> u8" where "AH r = hi8 (ax r)"
definition BL :: "bregs \<Rightarrow> u8" where "BL r = lo8 (bx r)"
definition BH :: "bregs \<Rightarrow> u8" where "BH r = hi8 (bx r)"
definition CL :: "bregs \<Rightarrow> u8" where "CL r = lo8 (cx r)"
definition CH :: "bregs \<Rightarrow> u8" where "CH r = hi8 (cx r)"
definition DL :: "bregs \<Rightarrow> u8" where "DL r = lo8 (dx r)"
definition DH :: "bregs \<Rightarrow> u8" where "DH r = hi8 (dx r)"

definition SET_AL :: "u8 \<Rightarrow> bregs \<Rightarrow> bregs" where "SET_AL v r = r\<lparr>ax := set_lo8 v (ax r)\<rparr>"
definition SET_AH :: "u8 \<Rightarrow> bregs \<Rightarrow> bregs" where "SET_AH v r = r\<lparr>ax := set_hi8 v (ax r)\<rparr>"
definition SET_BH :: "u8 \<Rightarrow> bregs \<Rightarrow> bregs" where "SET_BH v r = r\<lparr>bx := set_hi8 v (bx r)\<rparr>"
definition SET_DL :: "u8 \<Rightarrow> bregs \<Rightarrow> bregs" where "SET_DL v r = r\<lparr>dx := set_lo8 v (dx r)\<rparr>"
definition SET_DH :: "u8 \<Rightarrow> bregs \<Rightarrow> bregs" where "SET_DH v r = r\<lparr>dx := set_hi8 v (dx r)\<rparr>"

lemma halves [simp]:
  "lo8 (set_lo8 v w) = v" "hi8 (set_lo8 v w) = hi8 w" "hi8 (set_hi8 v w) = v" "lo8 (set_hi8 v w) = lo8 w"
proof -
  have ff: "(0xFF00 :: u16) = NOT (mask 8)" "(0x00FF :: u16) = mask 8" by (simp_all add: mask_eq_exp_minus_1)
  show "lo8 (set_lo8 v w) = v" "hi8 (set_lo8 v w) = hi8 w" "hi8 (set_hi8 v w) = v" "lo8 (set_hi8 v w) = lo8 w"
    unfolding lo8_def hi8_def set_lo8_def set_hi8_def ff
    by (rule bit_word_eqI, auto simp: bit_simps dest: bit_imp_le_length)+
qed

lemma byte_regs [simp]:
  "AL (SET_AL v r) = v" "AH (SET_AL v r) = AH r" "AH (SET_AH v r) = v" "AL (SET_AH v r) = AL r"
  "BH (SET_BH v r) = v" "DL (SET_DL v r) = v" "DH (SET_DH v r) = v" "DH (SET_DL v r) = DH r" "DL (SET_DH v r) = DL r"
  by (simp_all add: AL_def AH_def BH_def DL_def DH_def SET_AL_def SET_AH_def SET_BH_def SET_DL_def SET_DH_def)

end
