(* ===== verification/Text_Mode.thy ===== *)
theory Text_Mode
  imports Cbvga Bregs
begin

unbundle bit_operations_syntax

text \<open>
  The emulated 80x25 text mode of SeaVGABIOS (\<^verbatim>\<open>seabios/vgasrc/16colorsmode.c\<close>): a buffer of cells, a
  cursor, the INT 10h services on them and their drawing into the framebuffer.

  The static variables are the record \<open>tm\<close>; the channel masks come from the driver's state.  The font
  is a parameter, a glyph row for each character and scan line.  An access outside the cell buffer is
  \<open>None\<close>.
\<close>

section \<open>State\<close>

definition TM_COLS :: int where "TM_COLS = 80"
definition TM_ROWS :: int where "TM_ROWS = 25"
definition GLYPH_W :: int where "GLYPH_W = 8"
definition GLYPH_H :: int where "GLYPH_H = 16"

lemmas tm_dims [simp] = TM_COLS_def TM_ROWS_def GLYPH_W_def GLYPH_H_def

record tm_cell =
  ch :: u8
  attr :: u8

record tm =
  tm_buf :: "tm_cell list list"
  tm_row :: int
  tm_col :: int
  tm_attr :: u8
  cursor_start :: u8
  cursor_end :: u8
  tm_active :: bool
  fb_ptr :: u32
  fb_w :: u32
  fb_h :: u32
  fb_pitch :: u32
  fb_bpp :: int
  origin_x :: int
  origin_y :: int
  rgb_cache :: "u32 list"

type_synonym font = "u8 \<Rightarrow> nat \<Rightarrow> u8"

definition get_cell :: "tm \<Rightarrow> int \<Rightarrow> int \<Rightarrow> tm_cell" where
  "get_cell t r c = tm_buf t ! nat r ! nat c"

definition set_cell :: "int \<Rightarrow> int \<Rightarrow> tm_cell \<Rightarrow> tm \<Rightarrow> tm" where
  "set_cell r c x t = t\<lparr>tm_buf := (tm_buf t)[nat r := (tm_buf t ! nat r)[nat c := x]]\<rparr>"

section \<open>Drawing\<close>

definition tm_refresh_palette_cache :: "emul \<Rightarrow> tm \<Rightarrow> tm" where
  "tm_refresh_palette_cache e t = t\<lparr>rgb_cache := map (\<lambda>i. cbvga_palette_lookup e (int i)) [0..<16]\<rparr>"

definition putpx :: "cbvga \<Rightarrow> tm \<Rightarrow> int \<Rightarrow> int \<Rightarrow> u32 \<Rightarrow> mem \<Rightarrow> mem" where
  "putpx cb t x y px m =
     (if word_of_int x \<ge> fb_w t \<or> word_of_int y \<ge> fb_h t then m
      else let row = unat (fb_ptr t + word_of_int y * fb_pitch t) in
        if fb_bpp t = 32 then store32 (row + 4 * nat x) px m
        else if fb_bpp t = 24 then
          let p = row + nat x * 3
          in m(p := ucast px, p + 1 := ucast (drop_bit 8 px), p + 2 := ucast (drop_bit 16 px))
        else if fb_bpp t = 16 then
          store16 (row + 2 * nat x) (pack_pixel cb (ucast (drop_bit 16 px)) (ucast (drop_bit 8 px)) (ucast px)) m
        else m)"

definition render_cell :: "font \<Rightarrow> cbvga \<Rightarrow> tm \<Rightarrow> int \<Rightarrow> int \<Rightarrow> mem \<Rightarrow> mem" where
  "render_cell font cb t r c m =
     (let cell = get_cell t r c;
          fg_rgb = rgb_cache t ! unat (attr cell AND 0x0F);
          bg_rgb = rgb_cache t ! unat (drop_bit 4 (attr cell) AND 0x07);
          x0 = origin_x t + c * GLYPH_W;
          y0 = origin_y t + r * GLYPH_H
      in fold (\<lambda>gy. fold (\<lambda>gx.
             putpx cb t (x0 + gx) (y0 + gy)
               (if font (ch cell) (nat gy) AND drop_bit (nat gx) 0x80 \<noteq> 0 then fg_rgb else bg_rgb))
           [0..GLYPH_W - 1]) [0..GLYPH_H - 1] m)"

definition render_cursor :: "cbvga \<Rightarrow> tm \<Rightarrow> mem \<Rightarrow> mem" where
  "render_cursor cb t m =
     (let x0 = origin_x t + tm_col t * GLYPH_W;
          y0 = origin_y t + tm_row t * GLYPH_H + uint (cursor_start t);
          y1 = origin_y t + tm_row t * GLYPH_H + uint (cursor_end t);
          fg_rgb = rgb_cache t ! unat (tm_attr t AND 0x0F);
          y0 = (if y0 < origin_y t then origin_y t else y0);
          y1 = (if y1 \<ge> origin_y t + GLYPH_H then origin_y t + GLYPH_H - 1 else y1)
      in fold (\<lambda>y. fold (\<lambda>x. putpx cb t x y fg_rgb) [x0..x0 + GLYPH_W - 1]) [y0..y1] m)"

definition mark_all_dirty :: "font \<Rightarrow> cbvga \<Rightarrow> tm \<Rightarrow> mem \<Rightarrow> mem" where
  "mark_all_dirty font cb t m =
     render_cursor cb t
       (fold (\<lambda>r. fold (\<lambda>c. render_cell font cb t r c) [0..TM_COLS - 1]) [0..TM_ROWS - 1] m)"

section \<open>The buffer\<close>

definition tm_clear :: "u8 \<Rightarrow> tm \<Rightarrow> tm" where
  "tm_clear fill_attr t =
     fold (\<lambda>r. fold (\<lambda>c. set_cell r c \<lparr>ch = 0x20, attr = fill_attr\<rparr>) [0..TM_COLS - 1]) [0..TM_ROWS - 1] t"

definition scroll_copy :: "int \<Rightarrow> int \<Rightarrow> int \<Rightarrow> int \<Rightarrow> int \<Rightarrow> tm \<Rightarrow> tm" where
  "scroll_copy lines r0 c0 r1 c1 t =
     fold (\<lambda>r. fold (\<lambda>c t. set_cell r c (get_cell t (r + lines) c) t) [c0..c1]) [r0..r1 - lines] t"

definition scroll_fill :: "int \<Rightarrow> int \<Rightarrow> int \<Rightarrow> int \<Rightarrow> u8 \<Rightarrow> tm \<Rightarrow> tm option" where
  "scroll_fill lines c0 r1 c1 a t =
     (if r1 - lines + 1 < 0 \<and> r1 - lines + 1 \<le> r1 \<and> c0 \<le> c1 then None
      else Some (fold (\<lambda>r. fold (\<lambda>c. set_cell r c \<lparr>ch = 0x20, attr = a\<rparr>) [c0..c1]) [r1 - lines + 1..r1] t))"

definition tm_scroll_up :: "int \<Rightarrow> int \<Rightarrow> int \<Rightarrow> int \<Rightarrow> int \<Rightarrow> u8 \<Rightarrow> tm \<Rightarrow> tm option" where
  "tm_scroll_up lines r0 c0 r1 c1 a t =
     (if lines \<le> 0 then Some t
      else let r0 = (if r0 < 0 then 0 else r0);
               c0 = (if c0 < 0 then 0 else c0);
               r1 = (if r1 \<ge> TM_ROWS then TM_ROWS - 1 else r1);
               c1 = (if c1 \<ge> TM_COLS then TM_COLS - 1 else c1)
           in scroll_fill lines c0 r1 c1 a (scroll_copy lines r0 c0 r1 c1 t))"

definition tm_newline :: "font \<Rightarrow> cbvga \<Rightarrow> tm \<times> mem \<Rightarrow> (tm \<times> mem) option" where
  "tm_newline font cb = (\<lambda>(t, m).
     let t = t\<lparr>tm_row := tm_row t + 1\<rparr> in
     if tm_row t \<ge> TM_ROWS then
       map_option (\<lambda>t. (t, mark_all_dirty font cb t m))
         (tm_scroll_up 1 0 0 (TM_ROWS - 1) (TM_COLS - 1) (tm_attr t) (t\<lparr>tm_row := TM_ROWS - 1\<rparr>))
     else Some (t, m))"

definition tm_putch :: "font \<Rightarrow> cbvga \<Rightarrow> u8 \<Rightarrow> tm \<times> mem \<Rightarrow> (tm \<times> mem) option" where
  "tm_putch font cb c = (\<lambda>(t, m).
     if c = 13 then Some (t\<lparr>tm_col := 0\<rparr>, m)
     else if c = 10 then tm_newline font cb (t, m)
     else if c = 8 then Some (if tm_col t > 0 then t\<lparr>tm_col := tm_col t - 1\<rparr> else t, m)
     else if c = 9 then
       let nxt = (tm_col t div 8 + 1) * 8 in
       if nxt \<ge> TM_COLS then tm_newline font cb (t\<lparr>tm_col := 0\<rparr>, m) else Some (t\<lparr>tm_col := nxt\<rparr>, m)
     else
       let t = set_cell (tm_row t) (tm_col t) \<lparr>ch = c, attr = tm_attr t\<rparr> t;
           m = render_cell font cb t (tm_row t) (tm_col t) m;
           t = t\<lparr>tm_col := tm_col t + 1\<rparr>
       in if tm_col t \<ge> TM_COLS then tm_newline font cb (t\<lparr>tm_col := 0\<rparr>, m) else Some (t, m))"

fun putchs :: "font \<Rightarrow> cbvga \<Rightarrow> u8 list \<Rightarrow> tm \<times> mem \<Rightarrow> (tm \<times> mem) option" where
  "putchs font cb [] s = Some s"
| "putchs font cb (c # cs) s = (case tm_putch font cb c s of None \<Rightarrow> None | Some s \<Rightarrow> putchs font cb cs s)"

section \<open>Public interface\<close>

definition tm_init :: "cbvga \<Rightarrow> mem \<Rightarrow> tm \<Rightarrow> tm \<times> cbvga" where
  "tm_init cb m t =
     (case cbvga_get_fb cb of
        None \<Rightarrow> (t\<lparr>tm_active := False\<rparr>, cb)
      | Some fbinfo \<Rightarrow>
          let t = t\<lparr>fb_ptr := fb_base fbinfo, fb_w := fb_width fbinfo, fb_h := fb_height fbinfo,
                    fb_pitch := fb_line fbinfo\<rparr>;
              bytes_per_px = fb_pitch t div fb_w t;
              t = t\<lparr>fb_bpp := (if bytes_per_px = 4 then 32 else if bytes_per_px = 3 then 24
                     else if bytes_per_px = 2 then 16 else 32),
                    origin_x := sint (fb_w t - 80 * 8) sdiv 2, origin_y := sint (fb_h t - 25 * 16) sdiv 2\<rparr>;
              e = cbvga_palette_set_entries m 0 16 (emul cb)
          in ((tm_refresh_palette_cache e t)\<lparr>tm_active := False\<rparr>, cb\<lparr>emul := e\<rparr>))"

definition tm_enable :: "font \<Rightarrow> cbvga \<Rightarrow> tm \<times> mem \<Rightarrow> tm \<times> mem" where
  "tm_enable font cb = (\<lambda>(t, m).
     let t = tm_clear 0x07 (t\<lparr>tm_active := True, tm_row := 0, tm_col := 0, tm_attr := 0x07,
               cursor_start := 0x0D, cursor_end := 0x0F\<rparr>)
     in (t, mark_all_dirty font cb t m))"

definition tm_disable :: "tm \<Rightarrow> tm" where "tm_disable t = t\<lparr>tm_active := False\<rparr>"

definition clamp_row :: "bregs \<Rightarrow> int" where
  "clamp_row regs = (if uint (DH regs) < TM_ROWS then uint (DH regs) else TM_ROWS - 1)"

definition clamp_col :: "bregs \<Rightarrow> int" where
  "clamp_col regs = (if uint (DL regs) < TM_COLS then uint (DL regs) else TM_COLS - 1)"

text \<open>The string of \<^verbatim>\<open>AH = 13h\<close> is read from ES:BP while it is drawn; the 16-bit offset wraps around.\<close>

fun put_string :: "font \<Rightarrow> cbvga \<Rightarrow> u16 \<Rightarrow> u16 \<Rightarrow> nat \<Rightarrow> tm \<times> mem \<Rightarrow> (tm \<times> mem) option" where
  "put_string font cb seg off 0 s = Some s"
| "put_string font cb seg off (Suc n) s =
     (case tm_putch font cb (snd s (unat seg * 16 + unat off)) s of
        None \<Rightarrow> None | Some s \<Rightarrow> put_string font cb seg (off + 1) n s)"

type_synonym int10 = "(int \<times> bregs \<times> tm \<times> mem) option"

definition handled :: "bregs \<Rightarrow> (tm \<times> mem) option \<Rightarrow> int10" where
  "handled regs s = map_option (\<lambda>(t, m). (1, SET_AH 0 regs, t, m)) s"

definition tm_active_int10 :: "font \<Rightarrow> cbvga \<Rightarrow> bregs \<Rightarrow> tm \<times> mem \<Rightarrow> int10" where
  "tm_active_int10 font cb regs = (\<lambda>(t, m).
     let count = (if cx regs \<noteq> 0 then unat (cx regs) else 1);
         at = (if BL regs \<noteq> 0 then BL regs else tm_attr t)
     in if AH regs = 0x00 then
          (if AL regs = 0x03 then handled regs (Some (tm_enable font cb (t, m))) else Some (0, regs, t, m))
        else if AH regs = 0x01 then
          handled regs (Some (t\<lparr>cursor_start := CH regs AND 0x1F, cursor_end := CL regs AND 0x1F\<rparr>, m))
        else if AH regs = 0x02 then
          handled regs (Some (t\<lparr>tm_row := clamp_row regs, tm_col := clamp_col regs\<rparr>, m))
        else if AH regs = 0x03 then
          (let regs = SET_DL (word_of_int (tm_col t)) (SET_DH (word_of_int (tm_row t)) (SET_BH 0 regs));
               regs = regs\<lparr>cx := push_bit 8 (ucast (cursor_end t)) OR ucast (cursor_start t)\<rparr>
           in handled regs (Some (t, m)))
        else if AH regs = 0x05 then handled regs (Some (t, m))
        else if AH regs = 0x06 then
          handled regs (map_option (\<lambda>t. (t, mark_all_dirty font cb t m))
            (tm_scroll_up (if AL regs \<noteq> 0 then uint (AL regs) else TM_ROWS) (uint (CH regs)) (uint (CL regs))
               (uint (DH regs)) (uint (DL regs)) (BH regs) t))
        else if AH regs = 0x08 then
          (let cell = get_cell t (tm_row t) (tm_col t)
           in Some (1, SET_AH (attr cell) (SET_AL (ch cell) regs), t, m))
        else if AH regs = 0x09 then
          handled regs (putchs font cb (replicate count (AL regs)) (t\<lparr>tm_attr := at\<rparr>, m))
        else if AH regs = 0x0A then handled regs (putchs font cb (replicate count (AL regs)) (t, m))
        else if AH regs = 0x0E then handled regs (tm_putch font cb (AL regs) (t, m))
        else if AH regs = 0x0F then Some (1, SET_BH 0 (SET_AH (word_of_int TM_COLS) (SET_AL 0x03 regs)), t, m)
        else if AH regs = 0x13 then
          handled regs (put_string font cb (es regs) (bp regs) (unat (cx regs))
            (t\<lparr>tm_row := clamp_row regs, tm_col := clamp_col regs, tm_attr := at\<rparr>, m))
        else Some (0, regs, t, m))"

definition tm_handle_int10 :: "font \<Rightarrow> cbvga \<Rightarrow> bregs \<Rightarrow> tm \<times> mem \<Rightarrow> int10" where
  "tm_handle_int10 font cb regs s =
     (if \<not> tm_active (fst s) \<and> AH regs = 0x00 \<and> AL regs = 0x03 then handled regs (Some (tm_enable font cb s))
      else if \<not> tm_active (fst s) then Some (0, regs, fst s, snd s)
      else tm_active_int10 font cb regs s)"

section \<open>The invariant\<close>

text \<open>
  The buffer has 25 rows of 80 cells, the cursor is on it, and there are 16 cached colours.
\<close>

definition tm_ok :: "tm \<Rightarrow> bool" where
  "tm_ok t \<longleftrightarrow>
     length (tm_buf t) = 25 \<and> (\<forall>row\<in>set (tm_buf t). length row = 80) \<and>
     0 \<le> tm_row t \<and> tm_row t < 25 \<and> 0 \<le> tm_col t \<and> tm_col t < 80 \<and> length (rgb_cache t) = 16"

definition same_screen :: "tm \<Rightarrow> tm \<Rightarrow> bool" where
  "same_screen t t' \<longleftrightarrow> fb_ptr t' = fb_ptr t \<and> fb_w t' = fb_w t \<and> fb_h t' = fb_h t \<and> fb_pitch t' = fb_pitch t \<and>
     fb_bpp t' = fb_bpp t"

definition buf_ok :: "tm_cell list list \<Rightarrow> bool" where
  "buf_ok b \<longleftrightarrow> length b = 25 \<and> (\<forall>row\<in>set b. length row = 80)"

lemma set_cell_fields [simp]:
  "tm_row (set_cell r c x t) = tm_row t" "tm_col (set_cell r c x t) = tm_col t" "tm_attr (set_cell r c x t) = tm_attr t"
  "rgb_cache (set_cell r c x t) = rgb_cache t" "fb_ptr (set_cell r c x t) = fb_ptr t" "fb_w (set_cell r c x t) = fb_w t"
  "fb_h (set_cell r c x t) = fb_h t" "fb_pitch (set_cell r c x t) = fb_pitch t" "fb_bpp (set_cell r c x t) = fb_bpp t"
  "cursor_start (set_cell r c x t) = cursor_start t" "cursor_end (set_cell r c x t) = cursor_end t"
  "tm_active (set_cell r c x t) = tm_active t" "origin_x (set_cell r c x t) = origin_x t"
  "origin_y (set_cell r c x t) = origin_y t"
  by (simp_all add: set_cell_def)

lemma set_cell_buf_ok: "buf_ok (tm_buf t) \<Longrightarrow> buf_ok (tm_buf (set_cell r c x t))"
proof (cases "nat r < 25")
  case True
  assume "buf_ok (tm_buf t)"
  then show ?thesis using True set_update_subset_insert [of "tm_buf t" "nat r"]
    by (fastforce simp: buf_ok_def set_cell_def)
qed (simp add: buf_ok_def set_cell_def list_update_beyond)

text \<open>Folds of buffer updates change the buffer only and keep its shape.\<close>

definition buf_only :: "tm \<Rightarrow> tm \<Rightarrow> bool" where
  "buf_only t t' \<longleftrightarrow> (\<exists>b. t' = t\<lparr>tm_buf := b\<rparr>) \<and> (buf_ok (tm_buf t) \<longrightarrow> buf_ok (tm_buf t'))"

lemma buf_only_refl: "buf_only t t"
  by (auto simp: buf_only_def intro: exI [of _ "tm_buf t"])

lemma buf_only_trans: "buf_only t t' \<Longrightarrow> buf_only t' t'' \<Longrightarrow> buf_only t t''"
  by (auto simp: buf_only_def)

lemma buf_only_set_cell: "buf_only t (set_cell r c x t)"
  using set_cell_buf_ok by (auto simp: buf_only_def set_cell_def)

lemma buf_only_fold:
  assumes "\<And>x t. buf_only t (f x t)"
  shows "buf_only t (fold f xs t)"
proof (induction xs arbitrary: t)
  case (Cons x xs)
  then show ?case using assms buf_only_trans by fastforce
qed (simp add: buf_only_refl)

lemma buf_only_ops:
  "buf_only t (tm_clear a t)" "buf_only t (scroll_copy lines r0 c0 r1 c1 t)"
  "scroll_fill lines c0 r1 c1 a t = Some t' \<Longrightarrow> buf_only t t'"
  "tm_scroll_up lines r0 c0 r1 c1 a t = Some t' \<Longrightarrow> buf_only t t'"
proof -
  show clear: "buf_only t (tm_clear a t)" and copy: "buf_only t (scroll_copy lines r0 c0 r1 c1 t)" for lines r0 c0 r1 c1 t
    unfolding tm_clear_def scroll_copy_def by (intro buf_only_fold buf_only_set_cell)+
  have fill: "scroll_fill lines c0 r1 c1 a t = Some t' \<Longrightarrow> buf_only t t'" for lines c0 r1 c1 t
    by (auto simp: scroll_fill_def split: if_splits intro!: buf_only_fold buf_only_set_cell)
  then show "scroll_fill lines c0 r1 c1 a t = Some t' \<Longrightarrow> buf_only t t'" .
  show "tm_scroll_up lines r0 c0 r1 c1 a t = Some t' \<Longrightarrow> buf_only t t'"
    unfolding tm_scroll_up_def Let_def using fill copy buf_only_trans buf_only_refl
    by (metis (no_types, lifting) option.inject)
qed

lemma buf_only_ok: "buf_only t t' \<Longrightarrow> tm_ok t \<Longrightarrow> tm_ok t' \<and> same_screen t t'"
  by (auto simp: buf_only_def tm_ok_def buf_ok_def same_screen_def)

section \<open>Drawing stays on the screen\<close>

text \<open>The framebuffer as \<^verbatim>\<open>tm_init\<close> gets it from the driver: lines fit the pitch, and it ends below 4 GiB.\<close>

definition screen_ok :: "tm \<Rightarrow> bool" where
  "screen_ok t \<longleftrightarrow>
     fb_bpp t \<in> {16, 24, 32} \<and> fb_w t < 0x10000 \<and> fb_h t < 0x10000 \<and>
     unat (fb_w t) * (nat (fb_bpp t) div 8) \<le> unat (fb_pitch t) \<and>
     unat (fb_ptr t) + unat (fb_h t) * unat (fb_pitch t) \<le> 2 ^ 32 \<and>
     - (2 ^ 30) \<le> origin_x t \<and> origin_x t \<le> 2 ^ 30 \<and> - (2 ^ 30) \<le> origin_y t \<and> origin_y t \<le> 2 ^ 30"

definition off_screen :: "tm \<Rightarrow> nat \<Rightarrow> bool" where
  "off_screen t a \<longleftrightarrow> a < unat (fb_ptr t) \<or> unat (fb_ptr t) + unat (fb_h t) * unat (fb_pitch t) \<le> a"

lemma small_index:
  assumes "word_of_int x < (w :: u32)" "w < 0x10000" "- (2 ^ 31) \<le> x" "x < 2 ^ 31"
  shows "0 \<le> x" "nat x < unat w" "unat (word_of_int x :: u32) = nat x"
proof -
  have u: "uint (word_of_int x :: u32) = x mod 2 ^ 32" by (simp add: uint_word_of_int)
  have less: "x mod 2 ^ 32 < uint w" "uint w < 0x10000"
    using assms(1,2) unfolding word_less_def u by simp_all
  show pos: "0 \<le> x"
  proof (rule ccontr)
    assume "\<not> 0 \<le> x"
    then have "(x + 2 ^ 32) mod 2 ^ 32 = x + 2 ^ 32" using assms(3) by (intro mod_pos_pos_trivial) auto
    then have "x mod 2 ^ 32 = x + 2 ^ 32" by (simp only: mod_add_self2)
    moreover have "(2 :: int) ^ 32 = 4294967296" "(2 :: int) ^ 31 = 2147483648" by simp_all
    ultimately show False using less assms(3) by linarith
  qed
  then have x: "x mod 2 ^ 32 = x" using assms(4) by (intro mod_pos_pos_trivial) auto
  have "int (unat (word_of_int x :: u32)) = x" using u unfolding x by (simp only: uint_nat)
  then show "unat (word_of_int x :: u32) = nat x" by linarith
  have "x < int (unat w)" using less(1) unfolding x by (simp only: uint_nat)
  then show "nat x < unat w" using pos by linarith
qed

lemma putpx_out:
  assumes ok: "screen_ok t" and x: "- (2 ^ 31) \<le> x" "x < 2 ^ 31" and y: "- (2 ^ 31) \<le> y" "y < 2 ^ 31"
    and a: "off_screen t a"
  shows "putpx cb t x y px m a = m a"
proof (cases "word_of_int x \<ge> fb_w t \<or> word_of_int y \<ge> fb_h t")
  case False
  then have xs: "nat x < unat (fb_w t)" and ys: "nat y < unat (fb_h t)" "unat (word_of_int y :: u32) = nat y"
    using small_index [of x "fb_w t"] small_index [of y "fb_h t"] ok x y by (auto simp: screen_ok_def not_le)
  define P where "P = unat (fb_pitch t)"
  have rows: "nat y * P + P \<le> unat (fb_h t) * P" using ys mult_le_mono1 [of "Suc (nat y)" "unat (fb_h t)" P] by simp
  have top: "unat (fb_ptr t) + unat (fb_h t) * P \<le> 2 ^ 32" using ok by (simp add: screen_ok_def P_def)
  have line: "unat (fb_w t) * (nat (fb_bpp t) div 8) \<le> P" using ok by (simp add: screen_ok_def P_def)
  show ?thesis
  proof (cases "P = 0")
    case True
    then have "unat (fb_w t) * (nat (fb_bpp t) div 8) = 0" using line by simp
    then show ?thesis using ok xs by (auto simp: screen_ok_def)
  next
    case False
    then have base: "unat (fb_ptr t + word_of_int y * fb_pitch t) = unat (fb_ptr t) + nat y * P"
      using rows top by (simp add: unat_word_ariths ys(2) P_def)
    define B where "B = unat (fb_ptr t) + nat y * P"
    have out: "a < B \<or> B + P \<le> a" using a rows unfolding off_screen_def P_def [symmetric] B_def by linarith
    have wide: "(nat x + 1) * k \<le> unat (fb_w t) * k" for k using xs by (intro mult_le_mono1) simp
    consider "fb_bpp t = 16" | "fb_bpp t = 24" | "fb_bpp t = 32" using ok by (auto simp: screen_ok_def)
    then show ?thesis
    proof cases
      case 1
      then have "a < B + 2 * nat x \<or> B + 2 * nat x + 2 \<le> a" using out line wide [of 2] by auto
      then show ?thesis using 1 by (simp add: putpx_def Let_def base B_def [symmetric] store16_def store_bytes_out)
    next
      case 2
      then have "a < B + nat x * 3 \<or> B + nat x * 3 + 3 \<le> a" using out line wide [of 3] by auto
      then show ?thesis using 2 by (auto simp: putpx_def Let_def base B_def [symmetric])
    next
      case 3
      then have "a < B + 4 * nat x \<or> B + 4 * nat x + 4 \<le> a" using out line wide [of 4] by auto
      then show ?thesis using 3 by (simp add: putpx_def Let_def base B_def [symmetric] store32_out)
    qed
  qed
qed (simp add: putpx_def)

lemma render_cell_out:
  assumes "screen_ok t" "off_screen t a" "0 \<le> r" "r < 25" "0 \<le> c" "c < 80"
  shows "render_cell font cb t r c m a = m a"
  unfolding render_cell_def Let_def using assms
  by (intro fold_frame putpx_out) (auto simp: screen_ok_def)

lemma render_cursor_out:
  assumes "screen_ok t" "off_screen t a" "0 \<le> tm_col t" "tm_col t < 80"
  shows "render_cursor cb t m a = m a"
  unfolding render_cursor_def Let_def using assms
  by (intro fold_frame putpx_out) (auto simp: screen_ok_def split: if_splits)

lemma mark_all_dirty_out:
  assumes "screen_ok t" "off_screen t a" "tm_ok t"
  shows "mark_all_dirty font cb t m a = m a"
proof -
  have "fold (\<lambda>r. fold (\<lambda>c. render_cell font cb t r c) [0..TM_COLS - 1]) [0..TM_ROWS - 1] m a = m a"
    using assms by (intro fold_frame render_cell_out) auto
  then show ?thesis using assms render_cursor_out by (simp add: mark_all_dirty_def tm_ok_def)
qed

section \<open>The services keep the invariant\<close>

definition tm_wf :: "tm \<Rightarrow> bool" where "tm_wf t \<longleftrightarrow> tm_ok t \<and> screen_ok t"

definition tm_steps :: "tm \<times> mem \<Rightarrow> tm \<times> mem \<Rightarrow> bool" where
  "tm_steps s s' \<longleftrightarrow> tm_wf (fst s') \<and> same_screen (fst s) (fst s') \<and>
     (\<forall>a. off_screen (fst s) a \<longrightarrow> snd s' a = snd s a)"

lemma tm_steps_refl: "tm_wf t \<Longrightarrow> tm_steps (t, m) (t, m)"
  by (simp add: tm_steps_def same_screen_def)

lemma tm_steps_trans: "tm_steps s s' \<Longrightarrow> tm_steps s' s'' \<Longrightarrow> tm_steps s s''"
  by (auto simp: tm_steps_def same_screen_def off_screen_def)

lemma buf_only_steps:
  assumes "buf_only t t'" "tm_wf t" "\<And>a. off_screen t' a \<Longrightarrow> m' a = m a"
  shows "tm_steps (t, m) (t', m')"
proof -
  have "screen_ok t' \<longleftrightarrow> screen_ok t" "off_screen t' = off_screen t"
    using assms(1) by (auto simp: buf_only_def screen_ok_def off_screen_def)
  then show ?thesis using assms buf_only_ok [OF assms(1)] by (simp add: tm_steps_def tm_wf_def)
qed

lemma dirty_steps: "buf_only t t' \<Longrightarrow> tm_wf t \<Longrightarrow> tm_steps (t, m) (t', mark_all_dirty font cb t' m)"
proof (rule buf_only_steps)
  fix a assume "buf_only t t'" "tm_wf t" "off_screen t' a"
  moreover from this have "screen_ok t'" by (auto simp: buf_only_def screen_ok_def tm_wf_def)
  ultimately show "mark_all_dirty font cb t' m a = m a"
    using buf_only_ok by (intro mark_all_dirty_out) (auto simp: tm_wf_def)
qed

lemma cursor_wf:
  "tm_wf t \<Longrightarrow> 0 \<le> r \<Longrightarrow> r < 25 \<Longrightarrow> 0 \<le> c \<Longrightarrow> c < 80 \<Longrightarrow>
   tm_wf (t\<lparr>tm_row := r, tm_col := c\<rparr>)"
  by (simp add: tm_wf_def tm_ok_def screen_ok_def)

lemma tm_newline_steps:
  assumes "tm_wf t"
  shows "\<exists>s'. tm_newline font cb (t, m) = Some s' \<and> tm_steps (t, m) s'"
proof (cases "tm_row t + 1 \<ge> TM_ROWS")
  case True
  let ?t = "t\<lparr>tm_row := tm_row t + 1, tm_row := TM_ROWS - 1\<rparr>"
  have wf: "tm_wf ?t" using assms by (simp add: tm_wf_def tm_ok_def screen_ok_def)
  obtain t' where t': "tm_scroll_up 1 0 0 (TM_ROWS - 1) (TM_COLS - 1) (tm_attr t) ?t = Some t'"
    by (simp add: tm_scroll_up_def scroll_fill_def)
  have "tm_newline font cb (t, m) = Some (t', mark_all_dirty font cb t' m)"
    using True t' by (simp add: tm_newline_def)
  moreover have "tm_steps (t, m) (?t, m)" using wf by (simp add: tm_steps_def same_screen_def)
  ultimately show ?thesis using dirty_steps [OF buf_only_ops(4) [OF t'] wf] tm_steps_trans by blast
next
  case False
  then have "tm_newline font cb (t, m) = Some (t\<lparr>tm_row := tm_row t + 1\<rparr>, m)" by (simp add: tm_newline_def)
  then show ?thesis using assms False
    by (auto simp: tm_steps_def same_screen_def tm_wf_def tm_ok_def screen_ok_def)
qed

lemma tm_putch_steps:
  assumes "tm_wf t"
  shows "\<exists>s'. tm_putch font cb c (t, m) = Some s' \<and> tm_steps (t, m) s'"
proof -
  have col: "tm_steps (t, m) (t\<lparr>tm_col := k\<rparr>, m)" if "0 \<le> k" "k < 80" for k
    using assms that by (simp add: tm_steps_def same_screen_def tm_wf_def tm_ok_def screen_ok_def)
  have nl: "\<exists>s'. tm_newline font cb s = Some s' \<and> tm_steps (t, m) s'" if "tm_steps (t, m) s" for s
  proof -
    have "tm_wf (fst s)" using that by (simp add: tm_steps_def)
    then obtain s' where "tm_newline font cb s = Some s'" "tm_steps s s'"
      using tm_newline_steps [of "fst s" font cb "snd s"] by auto
    then show ?thesis using tm_steps_trans [OF that] by blast
  qed
  have pos: "0 \<le> tm_col t" "tm_col t < 80" using assms by (simp_all add: tm_wf_def tm_ok_def)
  consider "c = 13" | "c = 10" | "c = 8" | "c = 9" | "c \<notin> {8, 9, 10, 13}" by blast
  then show ?thesis
  proof cases
    case 1
    then show ?thesis using col [of 0] by (simp add: tm_putch_def)
  next
    case 2
    then show ?thesis using nl [OF tm_steps_refl [OF assms]] by (simp add: tm_putch_def)
  next
    case 3
    then show ?thesis using col [of "tm_col t - 1"] tm_steps_refl [OF assms] pos by (simp add: tm_putch_def)
  next
    case 4
    define nxt where "nxt = (tm_col t div 8 + 1) * 8"
    have "0 \<le> nxt" using pos by (simp add: nxt_def)
    have "tm_putch font cb c (t, m) =
        (if nxt \<ge> 80 then tm_newline font cb (t\<lparr>tm_col := 0\<rparr>, m) else Some (t\<lparr>tm_col := nxt\<rparr>, m))"
      using 4 by (simp add: tm_putch_def nxt_def)
    then show ?thesis using nl [OF col [of 0]] col [of nxt] \<open>0 \<le> nxt\<close> by simp
  next
    case 5
    define t1 where "t1 = set_cell (tm_row t) (tm_col t) \<lparr>ch = c, attr = tm_attr t\<rparr> t"
    define m1 where "m1 = render_cell font cb t1 (tm_row t) (tm_col t) m"
    have scr: "screen_ok t1" using assms by (simp add: t1_def tm_wf_def screen_ok_def)
    have pos': "0 \<le> tm_row t" "tm_row t < 25" using assms by (simp_all add: tm_wf_def tm_ok_def)
    have st: "tm_steps (t, m) (t1, m1)" unfolding m1_def
      by (rule buf_only_steps [OF _ assms]) (simp_all add: t1_def buf_only_set_cell render_cell_out scr [unfolded t1_def] pos pos')
    have "tm_steps (t1, m1) (t1\<lparr>tm_col := k\<rparr>, m1)" if "0 \<le> k" "k < 80" for k
    proof -
      have "tm_wf t1" using st by (simp add: tm_steps_def)
      then show ?thesis using that by (simp add: tm_steps_def same_screen_def tm_wf_def tm_ok_def screen_ok_def)
    qed
    then have st': "tm_steps (t, m) (t1\<lparr>tm_col := k\<rparr>, m1)" if "0 \<le> k" "k < 80" for k
      using tm_steps_trans [OF st] that by blast
    have "tm_putch font cb c (t, m) =
        (if tm_col t + 1 \<ge> 80 then tm_newline font cb (t1\<lparr>tm_col := 0\<rparr>, m1) else Some (t1\<lparr>tm_col := tm_col t + 1\<rparr>, m1))"
      using 5 by (simp add: tm_putch_def Let_def t1_def m1_def)
    then show ?thesis using nl [OF st' [of 0]] st' [of "tm_col t + 1"] pos by simp
  qed
qed

lemma putchs_steps: "tm_wf (fst s) \<Longrightarrow> \<exists>s'. putchs font cb cs s = Some s' \<and> tm_steps s s'"
proof (induction cs arbitrary: s)
  case (Cons c cs)
  obtain s1 where s1: "tm_putch font cb c s = Some s1" "tm_steps s s1"
    using tm_putch_steps [of "fst s" font cb c "snd s"] Cons.prems by auto
  then have "tm_wf (fst s1)" by (simp add: tm_steps_def)
  from Cons.IH [OF this] obtain s2 where "putchs font cb cs s1 = Some s2" "tm_steps s1 s2" by blast
  then show ?case using s1(1) tm_steps_trans [OF s1(2)] by simp
qed (auto intro: tm_steps_refl)

lemma put_string_steps: "tm_wf (fst s) \<Longrightarrow> \<exists>s'. put_string font cb seg off n s = Some s' \<and> tm_steps s s'"
proof (induction n arbitrary: s off)
  case (Suc n)
  obtain s1 where s1: "tm_putch font cb (snd s (unat seg * 16 + unat off)) s = Some s1" "tm_steps s s1"
    using tm_putch_steps [of "fst s" font cb _ "snd s"] Suc.prems by fastforce
  then have "tm_wf (fst s1)" by (simp add: tm_steps_def)
  from Suc.IH [OF this, of "off + 1"] obtain s2 where
    "put_string font cb seg (off + 1) n s1 = Some s2" "tm_steps s1 s2" by blast
  then show ?case using s1(1) tm_steps_trans [OF s1(2)] by simp
qed (auto intro: tm_steps_refl)

definition int10_good :: "tm \<times> mem \<Rightarrow> int10 \<Rightarrow> bool" where
  "int10_good s res \<longleftrightarrow> (\<exists>r regs' t' m'. res = Some (r, regs', t', m') \<and> tm_steps s (t', m'))"

lemma handled_good: "\<exists>s'. x = Some s' \<and> tm_steps s s' \<Longrightarrow> int10_good s (handled regs x)"
  by (auto simp: int10_good_def handled_def)

lemma Some_good: "tm_wf t \<Longrightarrow> int10_good (t, m) (Some (r, regs, t, m))"
  by (simp add: int10_good_def tm_steps_refl)

lemma fields_steps:
  "tm_wf t \<Longrightarrow> tm_steps (t, m) (t\<lparr>cursor_start := a, cursor_end := b\<rparr>, m)"
  "tm_wf t \<Longrightarrow> tm_steps (t, m) (t\<lparr>tm_attr := at\<rparr>, m)"
  "tm_wf t \<Longrightarrow> tm_steps (t, m) (t\<lparr>tm_row := clamp_row regs, tm_col := clamp_col regs\<rparr>, m)"
  "tm_wf t \<Longrightarrow> tm_steps (t, m) (t\<lparr>tm_row := clamp_row regs, tm_col := clamp_col regs, tm_attr := at\<rparr>, m)"
  by (simp_all add: tm_steps_def same_screen_def tm_wf_def tm_ok_def screen_ok_def clamp_row_def clamp_col_def)

lemma tm_enable_steps:
  assumes "tm_wf t"
  shows "tm_steps (t, m) (tm_enable font cb (t, m))"
proof -
  define t1 where "t1 = t\<lparr>tm_active := True, tm_row := 0, tm_col := 0, tm_attr := 0x07,
      cursor_start := 0x0D, cursor_end := 0x0F\<rparr>"
  have wf: "tm_wf t1" using assms by (simp add: t1_def tm_wf_def tm_ok_def screen_ok_def)
  have "tm_steps (t, m) (t1, m)" using wf by (simp add: tm_steps_def same_screen_def t1_def)
  moreover have "tm_steps (t1, m) (tm_enable font cb (t, m))"
    unfolding tm_enable_def case_prod_conv Let_def t1_def [symmetric]
    by (rule dirty_steps [OF buf_only_ops(1) wf])
  ultimately show ?thesis by (rule tm_steps_trans)
qed

text \<open>
  When a scroll writes before the first row: the window is not empty and more lines are to be blanked
  than there are rows down to its last one.
\<close>

definition scroll_overruns :: "bregs \<Rightarrow> bool" where
  "scroll_overruns regs \<longleftrightarrow>
     (let lines = (if AL regs \<noteq> 0 then uint (AL regs) else 25) in
      lines > min (uint (DH regs)) 24 + 1 \<and> uint (CL regs) \<le> min (uint (DL regs)) 79)"

lemma scroll_up_overruns:
  fixes regs :: bregs
  defines "lines \<equiv> if AL regs \<noteq> 0 then uint (AL regs) else TM_ROWS"
  shows "tm_scroll_up lines (uint (CH regs)) (uint (CL regs)) (uint (DH regs)) (uint (DL regs)) a t = None \<longleftrightarrow>
    scroll_overruns regs"
proof -
  have "0 < lines"
    unfolding lines_def using word_neq_0_conv [of "AL regs"] by (auto simp: word_less_def)
  then show ?thesis
    by (auto simp: tm_scroll_up_def scroll_fill_def scroll_overruns_def lines_def Let_def min_def)
qed

lemma tm_active_int10_good:
  assumes wf: "tm_wf t" and no: "\<not> (AH regs = 6 \<and> scroll_overruns regs)"
  shows "int10_good (t, m) (tm_active_int10 font cb regs (t, m))"
proof (cases "AH regs = 6")
  case True
  let ?scr = "tm_scroll_up (if AL regs \<noteq> 0 then uint (AL regs) else TM_ROWS) (uint (CH regs)) (uint (CL regs))
      (uint (DH regs)) (uint (DL regs)) (BH regs) t"
  obtain t' where t': "?scr = Some t'" using no True scroll_up_overruns [of regs "BH regs" t] by (cases ?scr) auto
  have "tm_active_int10 font cb regs (t, m) = handled regs (Some (t', mark_all_dirty font cb t' m))"
    unfolding tm_active_int10_def using True t' by simp
  then show ?thesis using handled_good dirty_steps [OF buf_only_ops(4) [OF t'] wf] by simp
next
  case False
  note sub = handled_good [OF exI, OF conjI, OF refl]
  have put: "\<exists>s'. putchs font cb cs (t', m) = Some s' \<and> tm_steps (t, m) s'" if "tm_steps (t, m) (t', m)" for cs t'
  proof -
    have "tm_wf t'" using that by (simp add: tm_steps_def)
    then obtain s' where "putchs font cb cs (t', m) = Some s'" "tm_steps (t', m) s'"
      using putchs_steps [of "(t', m)" font cb cs] by auto
    then show ?thesis using tm_steps_trans [OF that] by blast
  qed
  have str: "\<exists>s'. put_string font cb seg off n (t', m) = Some s' \<and> tm_steps (t, m) s'" if "tm_steps (t, m) (t', m)" for seg off n t'
  proof -
    have "tm_wf t'" using that by (simp add: tm_steps_def)
    then obtain s' where "put_string font cb seg off n (t', m) = Some s'" "tm_steps (t', m) s'"
      using put_string_steps [of "(t', m)" font cb seg off n] by auto
    then show ?thesis using tm_steps_trans [OF that] by blast
  qed
  show ?thesis unfolding tm_active_int10_def case_prod_conv Let_def
    using False
    by (simp add: sub [OF tm_enable_steps [OF wf]] sub [OF fields_steps(1) [OF wf]] sub [OF fields_steps(3) [OF wf]]
        sub [OF tm_steps_refl [OF wf]] Some_good [OF wf] handled_good [OF put [OF tm_steps_refl [OF wf]]]
        handled_good [OF put [OF fields_steps(2) [OF wf]]] handled_good [OF str [OF fields_steps(4) [OF wf]]]
        handled_good [OF tm_putch_steps [OF wf]])
qed

section \<open>Properties\<close>


definition blank :: tm_cell where "blank = \<lparr>ch = 0x20, attr = 7\<rparr>"

definition tm_example :: tm where
  "tm_example = \<lparr>tm_buf = replicate 25 (replicate 80 blank), tm_row = 3, tm_col = 5, tm_attr = 7,
     cursor_start = 13, cursor_end = 15, tm_active = True, fb_ptr = 0x80000000, fb_w = 1024, fb_h = 768,
     fb_pitch = 4096, fb_bpp = 32, origin_x = 192, origin_y = 184, rgb_cache = replicate 16 0\<rparr>"

definition clear_window :: bregs where
  "clear_window = \<lparr>ax = 0x0600, bx = 0x0700, cx = 0, dx = 0x0A4F, ds = 0, es = 0, bp = 0\<rparr>"

lemma tm_example_wf: "tm_wf tm_example"
  by (simp add: tm_wf_def tm_ok_def screen_ok_def tm_example_def)


text \<open>
  The cursor is only ever drawn on the first row: for a cursor on any other row the upper clamp
  of \<^verbatim>\<open>render_cursor\<close>, which is relative to the top of the screen instead of the cursor's row, leaves no
  scan line to draw.
\<close>

theorem render_cursor_below_first_row:
  assumes "1 \<le> tm_row t"
  shows "render_cursor cb t m = m"
proof -
  have "0 \<le> uint (cursor_start t)" by simp
  then have "\<not> origin_y t + tm_row t * 16 + uint (cursor_start t) < origin_y t + 16" using assms by linarith
  then show ?thesis using assms by (simp add: render_cursor_def Let_def)
qed

theorem render_cursor_below_first_row_witness:
  "1 \<le> tm_row tm_example \<and> render_cursor cbvga_boot tm_example (\<lambda>_. 0) = (\<lambda>_. 0)"
  using render_cursor_below_first_row [of tm_example cbvga_boot "\<lambda>_. 0"] by (simp add: tm_example_def)

text \<open>
  Setting the cursor shape (\<^verbatim>\<open>AH = 1\<close>) and reading it back (\<^verbatim>\<open>AH = 3\<close>) exchanges its two scan
  lines: the service takes the start line in CH and the end line in CL, and returns the end line in CH
  and the start line in CL.
\<close>

theorem cursor_shape_exchanged:
  assumes "tm_active t" "AH regs = 1" "tm_handle_int10 font cb regs (t, m) = Some (r, regs', t', m')" "AH q = 3"
  shows "\<exists>q'. tm_handle_int10 font cb q (t', m') = Some (1, q', t', m') \<and>
    CH q' = CL regs AND 0x1F \<and> CL q' = CH regs AND 0x1F"
proof -
  have t': "t' = t\<lparr>cursor_start := CH regs AND 0x1F, cursor_end := CL regs AND 0x1F\<rparr>" "m' = m"
    using assms(1-3) by (simp_all add: tm_handle_int10_def tm_active_int10_def handled_def)
  have "hi8 (push_bit 8 (ucast a) OR ucast b) = a" "lo8 (push_bit 8 (ucast a) OR ucast b) = b" for a b :: u8
    unfolding hi8_def lo8_def by (rule bit_word_eqI, auto simp: bit_simps dest: bit_imp_le_length)+
  then show ?thesis using assms(1,4)
    by (simp add: t' tm_handle_int10_def tm_active_int10_def handled_def Let_def CH_def CL_def SET_AH_def)
qed

theorem cursor_shape_exchanged_witness:
  "\<exists>t' m' q'. tm_handle_int10 (\<lambda>_ _. 0) cbvga_boot (clear_window\<lparr>ax := 0x0100, cx := 0x0607\<rparr>) (tm_example, \<lambda>_. 0) =
      Some (1, clear_window\<lparr>ax := 0, cx := 0x0607\<rparr>, t', m') \<and>
    tm_handle_int10 (\<lambda>_ _. 0) cbvga_boot (clear_window\<lparr>ax := 0x0300\<rparr>) (t', m') = Some (1, q', t', m') \<and>
    CH q' = 7 \<and> CL q' = 6"
proof -
  let ?r = "clear_window\<lparr>ax := 0x0100, cx := 0x0607\<rparr>" and ?q = "clear_window\<lparr>ax := 0x0300\<rparr>"
  have r: "tm_handle_int10 (\<lambda>_ _. 0) cbvga_boot ?r (tm_example, \<lambda>_. 0) = Some (1, clear_window\<lparr>ax := 0, cx := 0x0607\<rparr>,
      tm_example\<lparr>cursor_start := 6, cursor_end := 7\<rparr>, \<lambda>_. 0)"
    by (simp add: tm_handle_int10_def tm_active_int10_def handled_def AH_def CH_def CL_def hi8_def lo8_def SET_AH_def
        set_hi8_def tm_example_def clear_window_def)
  have a: "tm_active tm_example" "AH ?r = 1" "AH ?q = 3" "CL ?r AND 0x1F = 7" "CH ?r AND 0x1F = 6"
    by (simp_all add: tm_example_def AH_def CH_def CL_def hi8_def lo8_def)
  show ?thesis using cursor_shape_exchanged [OF a(1,2) r a(3)] r a(4,5) by auto
qed

lemma get_set_cell:
  assumes "tm_ok t" "0 \<le> r" "r < 25" "0 \<le> c" "c < 80" "0 \<le> r'" "r' < 25" "0 \<le> c'" "c' < 80"
  shows "get_cell (set_cell r c x t) r' c' = (if r' = r \<and> c' = c then x else get_cell t r' c')"
proof -
  have "length (tm_buf t ! nat r) = 80" using assms by (simp add: tm_ok_def)
  then show ?thesis using assms by (auto simp: get_cell_def set_cell_def tm_ok_def nth_list_update)
qed

lemma putch_printable:
  assumes "tm_wf t" "c \<notin> {8, 9, 10, 13}" "tm_col t + 1 < 80"
  defines "t1 \<equiv> set_cell (tm_row t) (tm_col t) \<lparr>ch = c, attr = tm_attr t\<rparr> t"
  shows "\<exists>m1. tm_putch font cb c (t, m) = Some (t1\<lparr>tm_col := tm_col t + 1\<rparr>, m1)"
    and "tm_wf (t1\<lparr>tm_col := tm_col t + 1\<rparr>)"
proof -
  show p: "\<exists>m1. tm_putch font cb c (t, m) = Some (t1\<lparr>tm_col := tm_col t + 1\<rparr>, m1)"
    using assms(2,3) by (simp add: tm_putch_def Let_def t1_def)
  then show "tm_wf (t1\<lparr>tm_col := tm_col t + 1\<rparr>)"
    using tm_putch_steps [OF assms(1), of font cb c m] by (auto simp: tm_steps_def)
qed



end
