(* ===== verification/Range_Map.thy ===== *)
theory Range_Map
  imports CSM_Prelude
begin

text \<open>
  Reference model of the memory map that \<^verbatim>\<open>e820_add\<close> maintains, in CSMWrap
  (\<^verbatim>\<open>src/e820.c\<close>) and again in SeaBIOS (\<^verbatim>\<open>seabios/src/e820map.c\<close>).  A map is a list of half-open
  address ranges, each with a type; adding a range overrides whatever it overlaps, and a range
  added with no type punches a hole.

  The first part defines the list algorithm and proves it right once: it keeps the list sorted,
  disjoint and free of mergeable neighbours, and it changes the type of exactly the addresses of
  the new range.  The second part is the interface \<open>range_store\<close>: a bounded store of ranges
  whose \<open>add\<close> refines the list algorithm.  Both copies of the C code are interpreted as
  instances of it, so the facts about sequences of additions are proved here once.
\<close>

section \<open>Ranges\<close>

datatype 't range = Range (lo: u64) (hi: u64) (ty: 't)

definition covers :: "'t range \<Rightarrow> u64 \<Rightarrow> bool" where
  "covers r a \<longleftrightarrow> lo r \<le> a \<and> a < hi r"

fun rm_lookup :: "'t range list \<Rightarrow> u64 \<Rightarrow> 't option" where
  "rm_lookup [] a = None"
| "rm_lookup (r # rs) a = (if covers r a then Some (ty r) else rm_lookup rs a)"

text \<open>Well-formed: no range is empty, and the ranges are in ascending order without overlap.\<close>

fun rm_wf :: "'t range list \<Rightarrow> bool" where
  "rm_wf [] \<longleftrightarrow> True"
| "rm_wf (r # rs) \<longleftrightarrow> lo r < hi r \<and> (\<forall>q \<in> set rs. hi r \<le> lo q) \<and> rm_wf rs"

text \<open>Canonical: two ranges that touch have different types.\<close>

fun rm_canonical :: "'t range list \<Rightarrow> bool" where
  "rm_canonical (r # q # rs) \<longleftrightarrow> (hi r = lo q \<longrightarrow> ty r \<noteq> ty q) \<and> rm_canonical (q # rs)"
| "rm_canonical _ \<longleftrightarrow> True"

section \<open>Adding a range\<close>

text \<open>
  \<open>rm_absorb\<close> is the second loop of \<^verbatim>\<open>e820_add\<close>: ranges that the new one covers are dropped, the
  last overlapped one is trimmed, or merged if it has the new type.  The result is the end of
  the new range after merging, and the ranges behind it.
\<close>

fun rm_absorb :: "u64 \<Rightarrow> 't option \<Rightarrow> 't range list \<Rightarrow> u64 \<times> 't range list" where
  "rm_absorb en t [] = (en, [])"
| "rm_absorb en t (r # rs) =
     (if en < lo r then (en, r # rs)
      else if hi r \<le> en then rm_absorb en t rs
      else if t = Some (ty r) then (hi r, rs)
      else (en, Range en (hi r) (ty r) # rs))"

definition rm_place :: "u64 \<Rightarrow> 't option \<Rightarrow> u64 \<times> 't range list \<Rightarrow> 't range list" where
  "rm_place st t p = (case t of None \<Rightarrow> snd p | Some y \<Rightarrow> Range st (fst p) y # snd p)"

fun rm_add :: "u64 \<Rightarrow> u64 \<Rightarrow> 't option \<Rightarrow> 't range list \<Rightarrow> 't range list" where
  "rm_add st en t [] = rm_place st t (en, [])"
| "rm_add st en t (r # rs) =
     (if hi r < st then r # rm_add st en t rs
      else if lo r < st then
        (if t = Some (ty r) then rm_place (lo r) t (rm_absorb en t (r # rs))
         else Range (lo r) st (ty r) #
           rm_place st t (rm_absorb en t
             (if en < hi r then Range en (hi r) (ty r) # rs else rs)))
      else rm_place st t (rm_absorb en t (r # rs)))"

section \<open>The absorbing loop\<close>

lemma rm_lookup_below: "rm_wf rs \<Longrightarrow> \<forall>q \<in> set rs. b \<le> lo q \<Longrightarrow> a < b \<Longrightarrow> rm_lookup rs a = None"
  by (induction rs) (auto simp: covers_def)

lemma absorb_end:
  assumes "rm_absorb en t rs = (en', rs')" "rm_wf rs"
  shows "en \<le> en' \<and> rm_wf rs' \<and> (\<forall>q \<in> set rs'. en' \<le> lo q)"
  using assms
proof (induction rs)
  case (Cons r rs)
  consider "en < lo r" | "\<not> en < lo r" "hi r \<le> en" | "\<not> en < lo r" "en < hi r"
    by force
  then show ?case
  proof cases
    case 1
    then have "en \<le> lo q" if "q \<in> set (r # rs)" for q
      using Cons.prems(2) that by fastforce
    with 1 Cons.prems show ?thesis by simp
  next
    case 2
    with Cons show ?thesis by auto
  next
    case 3
    then have "en \<le> lo q" if "q \<in> set rs" for q
      using Cons.prems(2) that by fastforce
    with 3 Cons.prems show ?thesis by (auto split: if_splits)
  qed
qed auto

lemma absorb_lookup:
  assumes "rm_absorb en t rs = (en', rs')" "rm_wf rs" "en \<le> a"
  shows "rm_lookup rs a = (if a < en' then t else rm_lookup rs' a)"
  using assms
proof (induction rs)
  case (Cons r rs)
  show ?case
  proof (cases "en < lo r")
    case True
    with Cons.prems show ?thesis by (auto simp: covers_def)
  next
    case False
    show ?thesis
    proof (cases "hi r \<le> en")
      case True
      with Cons False show ?thesis by (auto simp: covers_def)
    next
      case outer: False
      have "rm_lookup rs a = None" if "a < hi r"
        using Cons.prems(2) that by (intro rm_lookup_below [of rs "hi r"]) auto
      with Cons.prems False outer show ?thesis by (auto simp: covers_def split: if_splits)
    qed
  qed
qed auto

lemma absorb_length: "rm_absorb en t rs = (en', rs') \<Longrightarrow> length rs' \<le> length rs"
  by (induction rs) (auto split: if_splits)

lemma canonical_tl: "rm_canonical (r # rs) \<Longrightarrow> rm_canonical rs"
  by (cases rs) auto

lemma absorb_canonical:
  assumes "rm_absorb en t rs = (en', rs')" "rm_wf rs" "rm_canonical rs"
  shows "rm_canonical rs' \<and> (\<forall>q qs. rs' = q # qs \<longrightarrow> lo q = en' \<longrightarrow> t \<noteq> Some (ty q))"
  using assms
proof (induction rs)
  case (Cons r rs)
  show ?case
  proof (cases "hi r \<le> en \<and> \<not> en < lo r")
    case True
    with Cons show ?thesis by (auto dest: canonical_tl)
  next
    case False
    with Cons.prems show ?thesis by (cases rs) (auto split: if_splits)
  qed
qed auto

section \<open>The whole addition\<close>

lemma place_lookup:
  assumes "rm_wf rs" "st < en"
  shows "rm_lookup (rm_place st t (rm_absorb en t rs)) a =
     (if a < st then None else if a < en then t else rm_lookup rs a)"
proof -
  obtain en' rs' where p: "rm_absorb en t rs = (en', rs')" by fastforce
  note e = absorb_end [OF p assms(1)]
  have below: "rm_lookup rs' a = None" if "a < en'"
    using e that by (intro rm_lookup_below) auto
  consider "a < st" | "st \<le> a" "a < en" | "en \<le> a" by force
  then show ?thesis
  proof cases
    case 1
    with assms e below show ?thesis
      by (auto simp: rm_place_def p covers_def split: option.splits)
  next
    case 2
    with assms e below show ?thesis
      by (auto simp: rm_place_def p covers_def split: option.splits)
  next
    case 3
    then have "rm_lookup rs a = (if a < en' then t else rm_lookup rs' a)"
      using absorb_lookup [OF p assms(1)] by blast
    with 3 assms below show ?thesis
      by (auto simp: rm_place_def p covers_def split: option.splits)
  qed
qed

lemma place_wf:
  assumes "rm_wf rs" "st < en"
  shows "rm_wf (rm_place st t (rm_absorb en t rs))"
    and "q \<in> set (rm_place st t (rm_absorb en t rs)) \<Longrightarrow> st \<le> lo q"
proof -
  obtain en' rs' where p: "rm_absorb en t rs = (en', rs')" by fastforce
  note e = absorb_end [OF p assms(1)]
  with assms(2) show "rm_wf (rm_place st t (rm_absorb en t rs))"
    by (auto simp: rm_place_def p split: option.splits)
  from e assms(2) show "q \<in> set (rm_place st t (rm_absorb en t rs)) \<Longrightarrow> st \<le> lo q"
    by (fastforce simp: rm_place_def p split: option.splits)
qed

lemma place_canonical:
  assumes "rm_wf rs" "rm_canonical rs" "st < en"
  shows "rm_canonical (rm_place st t (rm_absorb en t rs))"
proof -
  obtain en' rs' where p: "rm_absorb en t rs = (en', rs')" by fastforce
  from absorb_canonical [OF p assms(1,2)] show ?thesis
    by (cases rs') (auto simp: rm_place_def p split: option.splits)
qed

text \<open>The part of a split range that sticks out behind the new one, and what follows it.\<close>

abbreviation rm_rest :: "u64 \<Rightarrow> 't range \<Rightarrow> 't range list \<Rightarrow> 't range list" where
  "rm_rest en r rs \<equiv> (if en < hi r then Range en (hi r) (ty r) # rs else rs)"

lemma rest_wf: "rm_wf (r # rs) \<Longrightarrow> rm_wf (rm_rest en r rs)"
  by auto

text \<open>The four ways the first loop of \<^verbatim>\<open>e820_add\<close> treats the entry it looks at.\<close>

lemma rm_add_cases:
  obtains (skip) "hi r < st" "rm_add st en t (r # rs) = r # rm_add st en t rs"
  | (merge) "lo r < st" "st \<le> hi r" "t = Some (ty r)"
      "rm_add st en t (r # rs) = rm_place (lo r) t (rm_absorb en t (r # rs))"
  | (split) "lo r < st" "st \<le> hi r" "t \<noteq> Some (ty r)"
      "rm_add st en t (r # rs) =
         Range (lo r) st (ty r) # rm_place st t (rm_absorb en t (rm_rest en r rs))"
  | (here) "st \<le> lo r" "st \<le> hi r"
      "rm_add st en t (r # rs) = rm_place st t (rm_absorb en t (r # rs))"
  by (cases "hi r < st"; cases "lo r < st"; cases "t = Some (ty r)") (simp_all add: not_less)

declare rm_add.simps(2) [simp del] rm_absorb.simps(2) [simp del]

lemma rm_add_above:
  assumes "rm_wf rs" "st < en" "\<forall>q \<in> set rs. b \<le> lo q" "b \<le> st" "q \<in> set (rm_add st en t rs)"
  shows "b \<le> lo q"
  using assms
proof (induction rs)
  case Nil
  then show ?case by (auto simp: rm_place_def split: option.splits)
next
  case (Cons r rs)
  note rest = rest_wf [OF Cons.prems(1)]
  show ?case
  proof (cases r st en t rs rule: rm_add_cases)
    case skip
    with Cons show ?thesis by auto
  next
    case merge
    then have "lo r < en" using Cons.prems(2) by order
    with merge Cons.prems show ?thesis
      using place_wf(2) [OF Cons.prems(1)] by fastforce
  next
    case split
    with Cons.prems show ?thesis using place_wf(2) [OF rest Cons.prems(2)] by fastforce
  next
    case here
    with Cons.prems show ?thesis using place_wf(2) [OF Cons.prems(1,2)] by fastforce
  qed
qed

lemma rm_add_wf:
  assumes "rm_wf rs" "st < en"
  shows "rm_wf (rm_add st en t rs)"
  using assms
proof (induction rs)
  case Nil
  then show ?case by (auto simp: rm_place_def split: option.splits)
next
  case (Cons r rs)
  note rest = rest_wf [OF Cons.prems(1)]
  show ?case
  proof (cases r st en t rs rule: rm_add_cases)
    case skip
    then have "hi r \<le> lo q" if "q \<in> set (rm_add st en t rs)" for q
      using rm_add_above [of rs st en "hi r" q t] that Cons.prems by auto
    with skip Cons show ?thesis by auto
  next
    case merge
    then have "lo r < en" using Cons.prems(2) by order
    with merge Cons.prems show ?thesis using place_wf(1) [OF Cons.prems(1)] by simp
  next
    case split
    with Cons.prems show ?thesis using place_wf [OF rest Cons.prems(2)] by auto
  next
    case here
    with Cons.prems show ?thesis using place_wf(1) [OF Cons.prems] by simp
  qed
qed

text \<open>The type of every address after the addition.\<close>

lemma rm_add_lookup:
  assumes "rm_wf rs" "st < en"
  shows "rm_lookup (rm_add st en t rs) a = (if st \<le> a \<and> a < en then t else rm_lookup rs a)"
  using assms
proof (induction rs)
  case Nil
  then show ?case by (auto simp: rm_place_def covers_def split: option.splits)
next
  case (Cons r rs)
  note rest = rest_wf [OF Cons.prems(1)]
  have none: "rm_lookup (r # rs) a = None" if "a < lo r"
    using Cons.prems(1) that by (intro rm_lookup_below [of _ "lo r"]) fastforce+
  have none': "rm_lookup rs a = None" if "a < hi r"
    using Cons.prems(1) that by (intro rm_lookup_below [of _ "hi r"]) auto
  show ?case
  proof (cases r st en t rs rule: rm_add_cases)
    case skip
    with Cons show ?thesis by (auto simp: covers_def)
  next
    case merge
    then have "lo r < en" using Cons.prems(2) by order
    with merge none Cons.prems(1) show ?thesis
      by (auto simp: place_lookup covers_def)
  next
    case split
    with none none' rest Cons.prems show ?thesis
      by (auto simp: place_lookup covers_def)
  next
    case here
    then have "a < lo r" if "a < st" using that by order
    with here none Cons.prems show ?thesis by (auto simp: place_lookup)
  qed
qed

lemma rm_canonical_Cons:
  "rm_canonical (r # rs) \<longleftrightarrow>
     (\<forall>q qs. rs = q # qs \<longrightarrow> hi r = lo q \<longrightarrow> ty r \<noteq> ty q) \<and> rm_canonical rs"
  by (cases rs) auto

lemma rm_add_hd:
  assumes "rm_wf (p # ps)" "st < en" "b < st" "rm_add st en t (p # ps) = q # qs"
  shows "b < lo q \<or> lo q = lo p \<and> ty q = ty p"
proof (cases p st en t ps rule: rm_add_cases)
  case here
  with assms(4) have "q \<in> set (rm_place st t (rm_absorb en t (p # ps)))" by simp
  then have "st \<le> lo q" by (rule place_wf(2) [OF assms(1,2)])
  with assms(3) show ?thesis by force
qed (use assms in \<open>auto simp: rm_place_def split: option.splits\<close>)

lemma rest_canonical: "rm_canonical (r # rs) \<Longrightarrow> rm_canonical (rm_rest en r rs)"
  by (simp add: rm_canonical_Cons)

lemma place_hd:
  assumes "rm_wf rs" "st < en" "rm_place st t (rm_absorb en t rs) = q # qs"
  shows "st < lo q \<or> lo q = st \<and> t = Some (ty q)"
proof -
  obtain en' rs' where p: "rm_absorb en t rs = (en', rs')" by fastforce
  show ?thesis
    using absorb_end [OF p assms(1)] assms(2,3)
    by (auto simp: rm_place_def p split: option.splits)
qed

lemma rm_add_canonical:
  assumes "rm_wf rs" "rm_canonical rs" "st < en"
  shows "rm_canonical (rm_add st en t rs)"
  using assms
proof (induction rs)
  case Nil
  then show ?case by (auto simp: rm_place_def split: option.splits)
next
  case (Cons r rs)
  note rest = rest_wf [OF Cons.prems(1)] rest_canonical [OF Cons.prems(2)]
  show ?case
  proof (cases r st en t rs rule: rm_add_cases)
    case skip
    have "hi r \<noteq> lo q \<or> ty r \<noteq> ty q" if "rm_add st en t rs = q # qs" for q qs
    proof (cases rs)
      case Nil
      with that skip show ?thesis by (auto simp: rm_place_def split: option.splits)
    next
      case (Cons p ps)
      with rm_add_hd [of p ps st en "hi r" t q qs] that skip Cons.prems show ?thesis
        by (auto simp: rm_canonical_Cons)
    qed
    with skip Cons show ?thesis by (auto simp: rm_canonical_Cons)
  next
    case merge
    then have "lo r < en" using Cons.prems(3) by order
    with merge Cons.prems show ?thesis by (simp add: place_canonical)
  next
    case split
    define xs where "xs = rm_place st t (rm_absorb en t (rm_rest en r rs))"
    have "rm_canonical xs" "\<And>q qs. xs = q # qs \<Longrightarrow> st < lo q \<or> lo q = st \<and> t = Some (ty q)"
      using place_canonical [OF rest Cons.prems(3)] place_hd [OF rest(1) Cons.prems(3)]
      by (simp_all add: xs_def)
    with split show ?thesis unfolding split(4) xs_def [symmetric] rm_canonical_Cons by fastforce
  next
    case here
    with Cons.prems show ?thesis by (simp add: place_canonical)
  qed
qed

lemma place_length: "length (rm_place st t (rm_absorb en t rs)) \<le> Suc (length rs)"
  using absorb_length [of en t rs] by (cases "rm_absorb en t rs") (auto simp: rm_place_def split: option.splits)

lemma rm_add_length: "length (rm_add st en t rs) \<le> length rs + 2"
proof (induction rs)
  case Nil
  show ?case by (auto simp: rm_place_def split: option.splits)
next
  case (Cons r rs)
  show ?case
    by (cases r st en t rs rule: rm_add_cases)
      (use Cons place_length [of st t en "rm_rest en r rs"] place_length [of st t en "r # rs"]
        place_length [of "lo r" t en "r # rs"] in \<open>auto split: if_splits\<close>)
qed

section \<open>The interface of a bounded range store\<close>

text \<open>
  A request is a start address, a size and an optional type; \<open>None\<close> asks for a hole.
  \<open>paint\<close> is what a sequence of requests promises for one address: the last request that covers
  the address decides, and an address no request covers keeps its type.
\<close>

type_synonym 't request = "u64 \<times> u64 \<times> 't option"

fun paint :: "'t request list \<Rightarrow> u64 \<Rightarrow> 't option \<Rightarrow> 't option" where
  "paint [] a v = v"
| "paint ((st, sz, t) # qs) a v = paint qs a (if st \<le> a \<and> a < st + sz then t else v)"

lemma paint_append: "paint (xs @ ys) a v = paint ys a (paint xs a v)"
  by (induction xs a v rule: paint.induct) auto

text \<open>A request the store can honour: it is empty, or its end does not wrap around.\<close>

definition good_request :: "'t request \<Rightarrow> bool" where
  "good_request q = (case q of (st, sz, t) \<Rightarrow> sz = 0 \<or> st < st + sz)"

lemma pred_option_top [simp]: "pred_option (\<lambda>_. True) t"
  by (cases t) simp_all

locale range_store =
  fixes ranges :: "'s \<Rightarrow> 't range list"
    and invar :: "'s \<Rightarrow> bool"
    and capacity :: nat
    and ok_type :: "'t \<Rightarrow> bool"
    and add :: "u64 \<Rightarrow> u64 \<Rightarrow> 't option \<Rightarrow> 's \<Rightarrow> 's"
  assumes ranges_add: "invar s \<Longrightarrow> rm_wf (ranges s) \<Longrightarrow> length (ranges s) + 2 \<le> capacity \<Longrightarrow>
      pred_option ok_type t \<Longrightarrow> st < st + sz \<Longrightarrow>
      ranges (add st sz t s) = rm_add st (st + sz) t (ranges s)"
    and add_empty: "add st 0 t s = s"
    and invar_add: "invar s \<Longrightarrow> invar (add st sz t s)"
    and invar_bound: "invar s \<Longrightarrow> length (ranges s) \<le> capacity"
begin

lemma add_step:
  assumes "invar s" "rm_wf (ranges s)" "length (ranges s) + 2 \<le> capacity"
    and "pred_option ok_type t" "st < st + sz"
  shows "invar (add st sz t s)" "rm_wf (ranges (add st sz t s))"
    and "length (ranges (add st sz t s)) \<le> length (ranges s) + 2"
    and "rm_canonical (ranges s) \<Longrightarrow> rm_canonical (ranges (add st sz t s))"
    and "rm_lookup (ranges (add st sz t s)) a =
      (if st \<le> a \<and> a < st + sz then t else rm_lookup (ranges s) a)"
  using assms rm_add_length [of st "st + sz" t "ranges s"]
  by (simp_all add: ranges_add invar_add rm_add_wf rm_add_canonical rm_add_lookup)

text \<open>
  A run of requests is honoured if the store has two free slots before each of them.
\<close>

abbreviation "run \<equiv> fold (\<lambda>(st, sz, t). add st sz t)"

lemma run_spec:
  assumes "invar s" "rm_wf (ranges s)"
    and "\<forall>k < length qs. length (ranges (run (take k qs) s)) + 2 \<le> capacity"
    and "list_all good_request qs" "list_all (\<lambda>(st, sz, t). pred_option ok_type t) qs"
  shows "invar (run qs s) \<and> rm_wf (ranges (run qs s)) \<and>
    length (ranges (run qs s)) \<le> length (ranges s) + 2 * length qs \<and>
    (rm_canonical (ranges s) \<longrightarrow> rm_canonical (ranges (run qs s))) \<and>
    (\<forall>a. rm_lookup (ranges (run qs s)) a = paint qs a (rm_lookup (ranges s) a))"
  using assms
proof (induction qs arbitrary: s)
  case (Cons q qs)
  obtain st sz t where q: "q = (st, sz, t)" by (cases q)
  define n where "n = add st sz t s"
  have c: "length (ranges s) + 2 \<le> capacity" "sz = 0 \<or> st < st + sz" "pred_option ok_type t"
    "invar s" "rm_wf (ranges s)"
    using Cons.prems by (auto simp add: q good_request_def)
  have n: "invar n" "rm_wf (ranges n)" "length (ranges n) \<le> length (ranges s) + 2"
    "rm_canonical (ranges s) \<Longrightarrow> rm_canonical (ranges n)"
    "rm_lookup (ranges n) a = (if st \<le> a \<and> a < st + sz then t else rm_lookup (ranges s) a)" for a
    using c add_step [of s t st sz] by (auto simp: n_def add_empty)
  have room: "\<forall>k < length qs. length (ranges (run (take k qs) n)) + 2 \<le> capacity"
    using Cons.prems(3) [rule_format, of "Suc k" for k] by (simp add: q n_def)
  have ok: "list_all good_request qs" "list_all (\<lambda>(st, sz, t). pred_option ok_type t) qs"
    using Cons.prems by simp_all
  show ?case
    using Cons.IH [OF n(1,2) room ok] n(3,4) by (auto simp: q n(5) n_def [symmetric])
qed simp

text \<open>Each request takes at most two slots, so two free slots per request are always enough.\<close>

lemma run_room:
  assumes "invar s" "rm_wf (ranges s)" "length (ranges s) + 2 * length qs \<le> capacity"
    and "list_all good_request qs" "list_all (\<lambda>(st, sz, t). pred_option ok_type t) qs"
  shows "\<forall>k < length qs. length (ranges (run (take k qs) s)) + 2 \<le> capacity"
proof (intro allI impI)
  fix k assume k: "k < length qs"
  have "length (ranges (run (take j qs) s)) \<le> length (ranges s) + 2 * j" if "j \<le> k" for j
    using that
  proof (induction j rule: less_induct)
    case (less j)
    have "length (ranges (run (take i (take j qs)) s)) + 2 \<le> capacity" if "i < length (take j qs)" for i
      using less(1) [of i] less(2) that k assms(3) by (simp add: min_def split: if_splits)
    moreover have "list_all good_request (take j qs)"
      "list_all (\<lambda>(st, sz, t). pred_option ok_type t) (take j qs)"
      using assms(4,5) by (auto simp: list_all_iff dest: in_set_takeD)
    ultimately show ?case
      using run_spec [OF assms(1,2), of "take j qs"] less(2) k by simp
  qed
  from this [of k] k assms(3) show "length (ranges (run (take k qs) s)) + 2 \<le> capacity"
    by simp
qed

end

end
