(* ===== verification/E820.thy ===== *)
theory E820
  imports Range_Map
begin

text \<open>
  The E820 memory map of CSMWrap, \<^verbatim>\<open>src/e820.c\<close>: the entry array in the low stub, insertion and
  removal of entries, \<^verbatim>\<open>e820_add\<close> with its two loops, and \<^verbatim>\<open>build_e820_map\<close>, which
  turns the UEFI memory map into the map handed to the CSM16 image.

  Addresses and sizes stay 64-bit words, so a range whose end wraps around is visible as such.
  The development follows the x86_64 build, where \<^verbatim>\<open>EfiAcpiAddressRangeHole\<close> (\<^verbatim>\<open>-1UL\<close>) has
  64 bits and therefore is no 32-bit entry type.
\<close>

section \<open>Entries and the array in the low stub\<close>

record EFI_E820_ENTRY64 =
  BaseAddr :: u64
  Length :: u64
  Type :: u32

definition EfiAcpiAddressRangeMemory :: u32 where "EfiAcpiAddressRangeMemory = 1"
definition EfiAcpiAddressRangeReserved :: u32 where "EfiAcpiAddressRangeReserved = 2"
definition EfiAcpiAddressRangeACPI :: u32 where "EfiAcpiAddressRangeACPI = 3"
definition EfiAcpiAddressRangeNVS :: u32 where "EfiAcpiAddressRangeNVS = 4"

definition EfiAcpiAddressRangeHole :: u64 where "EfiAcpiAddressRangeHole = 0xFFFFFFFFFFFFFFFF"

lemmas e820_type_defs = EfiAcpiAddressRangeMemory_def EfiAcpiAddressRangeReserved_def
  EfiAcpiAddressRangeACPI_def EfiAcpiAddressRangeNVS_def

definition E820_MAX_ENTRIES :: nat where "E820_MAX_ENTRIES = 128"

text \<open>The two E820 fields of \<^verbatim>\<open>struct low_stub\<close>.\<close>

record e820_area =
  e820_entries :: nat
  e820_map :: "EFI_E820_ENTRY64 list"

definition e820_type_name :: "u32 \<Rightarrow> string" where
  "e820_type_name t =
     (if t = EfiAcpiAddressRangeMemory then ''RAM''
      else if t = EfiAcpiAddressRangeReserved then ''RESERVED''
      else if t = EfiAcpiAddressRangeACPI then ''ACPI''
      else if t = EfiAcpiAddressRangeNVS then ''NVS''
      else ''UNKNOWN'')"

text \<open>Remove the entry at index \<open>i\<close>; an index out of range is reported and ignored.\<close>

definition remove_e820 :: "e820_area \<Rightarrow> int \<Rightarrow> e820_area" where
  "remove_e820 s i =
     (if i < 0 \<or> i \<ge> int (e820_entries s) then s
      else let c = e820_entries s - 1 in
        s\<lparr>e820_entries := c,
          e820_map := array_move (nat i) (Suc (nat i)) (c - nat i) (e820_map s)\<rparr>)"

text \<open>Insert an entry at index \<open>i\<close>; a full map is reported and left alone.\<close>

definition insert_e820 :: "e820_area \<Rightarrow> nat \<Rightarrow> u64 \<Rightarrow> u64 \<Rightarrow> u64 \<Rightarrow> e820_area" where
  "insert_e820 s i start sz t =
     (if e820_entries s \<ge> E820_MAX_ENTRIES then s
      else let m = array_move (Suc i) i (e820_entries s - i) (e820_map s) in
        s\<lparr>e820_entries := Suc (e820_entries s),
          e820_map := m[i := \<lparr>BaseAddr = start, Length = sz, Type = ucast t\<rparr>]\<rparr>)"

text \<open>The arguments of each line \<^verbatim>\<open>dump_map\<close> prints.\<close>

definition dump_map :: "e820_area \<Rightarrow> (nat \<times> u64 \<times> u64 \<times> u32 \<times> string) list" where
  "dump_map s = map (\<lambda>i. let e = e820_map s ! i; e_end = BaseAddr e + Length e in
     (i, BaseAddr e, e_end, Type e, e820_type_name (Type e))) [0..<e820_entries s]"

section \<open>Adding a range\<close>

text \<open>
  The first loop: the position of the new item.  An entry of the same type that starts before
  the new item is merged into it by moving the item's start; an entry of another type is cut at
  the new start, and what sticks out behind the new end is inserted as an entry of its own.
\<close>

function e820_find ::
  "u64 \<Rightarrow> u64 \<Rightarrow> e820_area \<Rightarrow> nat \<Rightarrow> u64 \<Rightarrow> u64 \<Rightarrow> e820_area \<times> nat \<times> u64 \<times> u64" where
  "e820_find t en s i start sz =
     (if i < e820_entries s then
        let e = e820_map s ! i; e_end = BaseAddr e + Length e in
        if start > e_end then e820_find t en s (Suc i) start sz
        else if start > BaseAddr e then
          (if t = ucast (Type e) then (s, i, BaseAddr e, sz + (start - BaseAddr e))
           else
             let s1 = s\<lparr>e820_map := (e820_map s)[i := e\<lparr>Length := start - BaseAddr e\<rparr>]\<rparr>;
                 s2 = (if e_end > en then insert_e820 s1 (Suc i) en (e_end - en) (ucast (Type e))
                       else s1)
             in (s2, Suc i, start, sz))
        else (s, i, start, sz)
      else (s, i, start, sz))"
  by pat_completeness auto
termination
  by (relation "measure (\<lambda>(t, en, s, i, start, sz). e820_entries s - i)") auto

text \<open>
  The second loop: entries the new item covers are removed, the last one it overlaps is moved
  up to the new end, or merged if it has the same type.
\<close>

function e820_absorb :: "u64 \<Rightarrow> u64 \<Rightarrow> e820_area \<Rightarrow> nat \<Rightarrow> u64 \<Rightarrow> e820_area \<times> u64" where
  "e820_absorb t en s i sz =
     (if i < e820_entries s then
        let e = e820_map s ! i in
        if en < BaseAddr e then (s, sz)
        else let e_end = BaseAddr e + Length e in
          if en \<ge> e_end then e820_absorb t en (remove_e820 s (int i)) i sz
          else let e' = e\<lparr>BaseAddr := en, Length := e_end - en\<rparr>;
                   s1 = s\<lparr>e820_map := (e820_map s)[i := e']\<rparr> in
            if t = ucast (Type e') then (remove_e820 s1 (int i), sz + Length e')
            else (s1, sz)
      else (s, sz))"
  by pat_completeness auto
termination
  by (relation "measure (\<lambda>(t, en, s, i, sz). e820_entries s)")
    (auto simp: remove_e820_def Let_def)

declare e820_find.simps [simp del] e820_absorb.simps [simp del]

definition e820_add :: "e820_area \<Rightarrow> u64 \<Rightarrow> u64 \<Rightarrow> u64 \<Rightarrow> e820_area" where
  "e820_add s start sz t =
     (if sz = 0 then s
      else
        let en = start + sz;
            (s1, i, start1, sz1) = e820_find t en s 0 start sz;
            (s2, sz2) = e820_absorb t en s1 i sz1
        in if t \<noteq> EfiAcpiAddressRangeHole then insert_e820 s2 i start1 sz2 t else s2)"

definition e820_remove :: "e820_area \<Rightarrow> u64 \<Rightarrow> u64 \<Rightarrow> e820_area" where
  "e820_remove s start sz = e820_add s start sz EfiAcpiAddressRangeHole"

section \<open>The UEFI memory map\<close>

definition EFI_PAGE_SIZE :: u64 where "EFI_PAGE_SIZE = 4096"

definition EfiReservedMemoryType :: u32 where "EfiReservedMemoryType = 0"
definition EfiLoaderCode :: u32 where "EfiLoaderCode = 1"
definition EfiLoaderData :: u32 where "EfiLoaderData = 2"
definition EfiBootServicesCode :: u32 where "EfiBootServicesCode = 3"
definition EfiBootServicesData :: u32 where "EfiBootServicesData = 4"
definition EfiRuntimeServicesCode :: u32 where "EfiRuntimeServicesCode = 5"
definition EfiRuntimeServicesData :: u32 where "EfiRuntimeServicesData = 6"
definition EfiConventionalMemory :: u32 where "EfiConventionalMemory = 7"
definition EfiUnusableMemory :: u32 where "EfiUnusableMemory = 8"
definition EfiACPIReclaimMemory :: u32 where "EfiACPIReclaimMemory = 9"
definition EfiACPIMemoryNVS :: u32 where "EfiACPIMemoryNVS = 10"

lemmas efi_memory_type_defs = EfiReservedMemoryType_def EfiLoaderCode_def EfiLoaderData_def
  EfiBootServicesCode_def EfiBootServicesData_def EfiRuntimeServicesCode_def
  EfiRuntimeServicesData_def EfiConventionalMemory_def EfiUnusableMemory_def
  EfiACPIReclaimMemory_def EfiACPIMemoryNVS_def

definition convert_memory_type :: "u32 \<Rightarrow> u32" where
  "convert_memory_type t =
     (if t \<in> {EfiConventionalMemory, EfiLoaderCode, EfiLoaderData, EfiBootServicesCode,
              EfiBootServicesData} then EfiAcpiAddressRangeMemory
      else if t = EfiACPIReclaimMemory then EfiAcpiAddressRangeACPI
      else if t = EfiACPIMemoryNVS then EfiAcpiAddressRangeNVS
      else EfiAcpiAddressRangeReserved)"

text \<open>The fields of \<^verbatim>\<open>EFI_MEMORY_DESCRIPTOR\<close> the code reads.\<close>

record EFI_MEMORY_DESCRIPTOR =
  md_Type :: u32
  PhysicalStart :: u64
  NumberOfPages :: u64

definition e820_add_descriptor :: "EFI_MEMORY_DESCRIPTOR \<Rightarrow> e820_area \<Rightarrow> e820_area" where
  "e820_add_descriptor d s =
     (let start = PhysicalStart d;
          en = start + NumberOfPages d * EFI_PAGE_SIZE;
          t = convert_memory_type (md_Type d)
      in if start = en then s
         else if t = 0 then s
         else e820_add s start (en - start) (ucast t))"

definition EBDA_BASE :: u64 where "EBDA_BASE = 0x80000"

text \<open>
  The descriptors lie in memory \<^verbatim>\<open>descriptor_size\<close> bytes apart; the loop visits them until it
  has passed the end of the map.  A zero \<^verbatim>\<open>descriptor_size\<close> makes the loop run forever, which is
  the value \<open>None\<close>.
\<close>

definition memory_descriptor :: "mem \<Rightarrow> nat \<Rightarrow> EFI_MEMORY_DESCRIPTOR" where
  "memory_descriptor m p =
     \<lparr>md_Type = load32 m p, PhysicalStart = load64 m (p + 8), NumberOfPages = load64 m (p + 24)\<rparr>"

partial_function (option) e820_walk ::
  "mem \<Rightarrow> nat \<Rightarrow> nat \<Rightarrow> nat \<Rightarrow> e820_area \<Rightarrow> e820_area option" where
  "e820_walk m memory_map_ptr memory_map_end descriptor_size s =
     (if memory_map_ptr < memory_map_end then
        e820_walk m (memory_map_ptr + descriptor_size) memory_map_end descriptor_size
          (e820_add_descriptor (memory_descriptor m memory_map_ptr) s)
      else Some s)"

definition e820_low_memory :: "e820_area \<Rightarrow> e820_area" where
  "e820_low_memory s1 =
     (let s2 = e820_remove s1 0 0x100000;
          s3 = e820_add s2 0 0x80000 (ucast EfiAcpiAddressRangeMemory);
          s4 = e820_add s3 EBDA_BASE 0x20000 (ucast EfiAcpiAddressRangeReserved)
      in e820_add s4 0xa0000 (0x100000 - 0xa0000) (ucast EfiAcpiAddressRangeReserved))"

definition build_e820_map ::
  "mem \<Rightarrow> nat \<Rightarrow> nat \<Rightarrow> nat \<Rightarrow> e820_area \<Rightarrow> (e820_area \<times> int) option" where
  "build_e820_map m memory_map memory_map_size descriptor_size s =
     (case e820_walk m memory_map (memory_map + memory_map_size) descriptor_size s of
        None \<Rightarrow> None
      | Some s1 \<Rightarrow> Some (e820_low_memory s1, 0))"

section \<open>The array as a range list\<close>

definition entry_range :: "EFI_E820_ENTRY64 \<Rightarrow> u32 range" where
  "entry_range e = Range (BaseAddr e) (BaseAddr e + Length e) (Type e)"

definition e820_ranges :: "e820_area \<Rightarrow> u32 range list" where
  "e820_ranges s = map entry_range (take (e820_entries s) (e820_map s))"

definition e820_invar :: "e820_area \<Rightarrow> bool" where
  "e820_invar s \<longleftrightarrow> length (e820_map s) = E820_MAX_ENTRIES \<and> e820_entries s \<le> E820_MAX_ENTRIES"

lemma entry_range_sel [simp]:
  "lo (entry_range e) = BaseAddr e" "hi (entry_range e) = BaseAddr e + Length e"
  "ty (entry_range e) = Type e"
  by (simp_all add: entry_range_def)

lemma length_e820_ranges: "e820_invar s \<Longrightarrow> length (e820_ranges s) = e820_entries s"
  by (simp add: e820_ranges_def e820_invar_def)

lemma nth_e820_ranges:
  "e820_invar s \<Longrightarrow> i < e820_entries s \<Longrightarrow> e820_ranges s ! i = entry_range (e820_map s ! i)"
  by (simp add: e820_ranges_def e820_invar_def)

lemma drop_e820_ranges:
  "e820_invar s \<Longrightarrow> i < e820_entries s \<Longrightarrow>
   drop i (e820_ranges s) = entry_range (e820_map s ! i) # drop (Suc i) (e820_ranges s)"
  by (simp add: length_e820_ranges nth_e820_ranges flip: Cons_nth_drop_Suc)

lemma remove_e820_ranges:
  assumes "e820_invar s" "i < e820_entries s"
  shows "e820_invar (remove_e820 s (int i))"
    and "e820_ranges (remove_e820 s (int i)) =
      take i (e820_ranges s) @ drop (Suc i) (e820_ranges s)"
    and "e820_entries (remove_e820 s (int i)) = e820_entries s - 1"
  using assms
  by (auto simp: remove_e820_def e820_invar_def e820_ranges_def Let_def array_simps
      take_map drop_map)

lemma insert_e820_invar: "e820_invar s \<Longrightarrow> e820_invar (insert_e820 s i start sz t)"
  by (auto simp: insert_e820_def e820_invar_def Let_def)

lemma insert_e820_ranges:
  assumes "e820_invar s" "e820_entries s < E820_MAX_ENTRIES" "i \<le> e820_entries s"
  shows "e820_ranges (insert_e820 s i start sz t) =
      take i (e820_ranges s) @ Range start (start + sz) (ucast t) # drop i (e820_ranges s)"
    and "e820_entries (insert_e820 s i start sz t) = Suc (e820_entries s)"
  using assms
  by (auto simp: insert_e820_def e820_invar_def e820_ranges_def Let_def array_simps
      take_map drop_map entry_range_def)

lemma update_ranges:
  assumes "e820_invar s" "i < e820_entries s"
  shows "e820_invar (s\<lparr>e820_map := (e820_map s)[i := e]\<rparr>)"
    and "e820_ranges (s\<lparr>e820_map := (e820_map s)[i := e]\<rparr>) =
      take i (e820_ranges s) @ entry_range e # drop (Suc i) (e820_ranges s)"
  using assms
  by (simp_all add: e820_invar_def e820_ranges_def take_map drop_map min_def
      upd_conv_take_nth_drop take_Cons' drop_take)

section \<open>Refinement of the list algorithm\<close>

text \<open>How the C code passes a request's type: a hole is the 64-bit constant.\<close>

definition e820_code :: "u32 option \<Rightarrow> u64" where
  "e820_code t = (case t of None \<Rightarrow> EfiAcpiAddressRangeHole | Some y \<Rightarrow> ucast y)"

lemma ucast_not_hole [simp]: "ucast (y :: u32) \<noteq> EfiAcpiAddressRangeHole"
proof
  assume "ucast y = EfiAcpiAddressRangeHole"
  then have "bit (ucast y :: u64) 32 = bit EfiAcpiAddressRangeHole 32" by simp
  then show False by (auto simp: EfiAcpiAddressRangeHole_def bit_simps dest: bit_imp_le_length)
qed

lemmas hole_not_ucast [simp] = ucast_not_hole [symmetric]

lemma e820_code_eq [simp]:
  "e820_code t = ucast y \<longleftrightarrow> t = Some y"
  "e820_code t = EfiAcpiAddressRangeHole \<longleftrightarrow> t = None"
  "EfiAcpiAddressRangeHole = e820_code t \<longleftrightarrow> t = None"
  by (auto simp: e820_code_def split: option.splits)

lemma e820_absorb_refines:
  assumes "e820_invar s" "i \<le> e820_entries s"
    and "rm_absorb en t (drop i (e820_ranges s)) = (en', rs')"
  shows "\<exists>s'. e820_absorb (e820_code t) en s i sz = (s', sz + (en' - en)) \<and> e820_invar s' \<and>
    e820_ranges s' = take i (e820_ranges s) @ rs' \<and> e820_entries s' \<le> e820_entries s"
  using assms
proof (induction "e820_code t" en s i sz rule: e820_absorb.induct)
  case (1 en s i sz)
  show ?case
  proof (cases "i < e820_entries s")
    case False
    with "1.prems" show ?thesis
      by (auto simp: e820_absorb.simps [of _ _ s] length_e820_ranges)
  next
    case True
    define e where "e = e820_map s ! i"
    note dr = drop_e820_ranges [OF "1.prems"(1) True, folded e_def]
    note code = e820_absorb.simps [of "e820_code t" en s i sz, folded e_def] rm_absorb.simps(2)
    consider "en < BaseAddr e" | "\<not> en < BaseAddr e" "BaseAddr e + Length e \<le> en"
      | "\<not> en < BaseAddr e" "\<not> BaseAddr e + Length e \<le> en" by blast
    then show ?thesis
    proof cases
      case 1
      then have "e820_absorb (e820_code t) en s i sz = (s, sz)" using True by (simp add: code Let_def)
      moreover have "en' = en" "rs' = drop i (e820_ranges s)"
        using 1 "1.prems"(3) dr by (simp_all add: code)
      ultimately show ?thesis using "1.prems"(1) by simp
    next
      case 2
      let ?s = "remove_e820 s (int i)"
      note rem = remove_e820_ranges [OF "1.prems"(1) True]
      have len: "min (length (e820_ranges s)) i = i"
        using "1.prems"(1) True by (simp add: length_e820_ranges)
      have "rm_absorb en t (drop i (e820_ranges ?s)) = (en', rs')"
        using "1.prems"(3) 2 dr by (simp add: rem(2) len code)
      moreover have "e820_absorb (e820_code t) en s i sz = e820_absorb (e820_code t) en ?s i sz"
        using 2 True by (simp add: code Let_def)
      moreover have "i \<le> e820_entries ?s" using True rem(3) by simp
      ultimately obtain s' where "e820_absorb (e820_code t) en s i sz = (s', sz + (en' - en))"
        "e820_invar s'" "e820_ranges s' = take i (e820_ranges ?s) @ rs'"
        "e820_entries s' \<le> e820_entries ?s"
        using "1.hyps" [OF True e_def _ refl _ rem(1)] 2 by auto
      then show ?thesis by (auto simp: rem(2,3) len)
    next
      case 3
      let ?e = "e\<lparr>BaseAddr := en, Length := BaseAddr e + Length e - en\<rparr>"
      let ?s = "s\<lparr>e820_map := (e820_map s)[i := ?e]\<rparr>"
      note upd = update_ranges [OF "1.prems"(1) True, of ?e]
      have "i < e820_entries ?s" using True by simp
      note rem = remove_e820_ranges [OF upd(1) this]
      have len: "min (length (e820_ranges s)) i = i"
        using "1.prems"(1) True by (simp add: length_e820_ranges)
      have "e820_absorb (e820_code t) en s i sz =
          (if t = Some (Type e) then (remove_e820 ?s (int i), sz + (BaseAddr e + Length e - en))
           else (?s, sz))"
        using 3 True by (simp add: code Let_def)
      moreover have "(en', rs') = (if t = Some (Type e) then (hi (entry_range e), drop (Suc i) (e820_ranges s))
          else (en, entry_range ?e # drop (Suc i) (e820_ranges s)))"
        using 3 "1.prems"(3) dr by (auto simp: code entry_range_def split: if_splits)
      ultimately show ?thesis
        using upd rem True by (auto simp: len split: if_splits)
    qed
  qed
qed

text \<open>What \<^verbatim>\<open>e820_add\<close> does once the first loop has found a position.\<close>

abbreviation e820_finish :: "u64 \<Rightarrow> u64 \<Rightarrow> e820_area \<times> nat \<times> u64 \<times> u64 \<Rightarrow> e820_area" where
  "e820_finish t en p \<equiv> (case p of (s1, i, start1, sz1) \<Rightarrow>
     case e820_absorb t en s1 i sz1 of (s2, sz2) \<Rightarrow>
       if t \<noteq> EfiAcpiAddressRangeHole then insert_e820 s2 i start1 sz2 t else s2)"

lemma e820_finish_refines:
  assumes "e820_invar s" "i \<le> e820_entries s" "e820_entries s < E820_MAX_ENTRIES" "st + sz = en"
  shows "e820_ranges (e820_finish (e820_code t) en (s, i, st, sz)) =
    take i (e820_ranges s) @ rm_place st t (rm_absorb en t (drop i (e820_ranges s)))"
proof -
  obtain en' rs' where p: "rm_absorb en t (drop i (e820_ranges s)) = (en', rs')" by fastforce
  from e820_absorb_refines [OF assms(1,2) p, of sz] obtain s' where
    s': "e820_absorb (e820_code t) en s i sz = (s', sz + (en' - en))" "e820_invar s'"
      "e820_ranges s' = take i (e820_ranges s) @ rs'" "e820_entries s' \<le> e820_entries s" by blast
  have len: "min (length (e820_ranges s)) i = i"
    using assms by (simp add: length_e820_ranges)
  have i: "i \<le> e820_entries s'"
    using length_e820_ranges [OF s'(2)] len by (simp add: s'(3))
  have "st + (sz + (en' - en)) = en'" using assms(4) by (simp flip: assms(4))
  then show ?thesis
    using insert_e820_ranges [OF s'(2) _ i] s' assms(3) len
    by (auto simp: p rm_place_def e820_code_def split: option.splits)
qed

lemma e820_find_refines:
  assumes "e820_invar s" "e820_entries s + 2 \<le> E820_MAX_ENTRIES" "i \<le> e820_entries s" "st + sz = en"
  shows "e820_ranges (e820_finish (e820_code t) en (e820_find (e820_code t) en s i st sz)) =
    take i (e820_ranges s) @ rm_add st en t (drop i (e820_ranges s))"
  using assms
proof (induction "e820_code t" en s i st sz rule: e820_find.induct)
  case (1 en s i st sz)
  have fin: "e820_ranges (e820_finish (e820_code t) en (s, i, st', sz')) =
    take i (e820_ranges s) @ rm_place st' t (rm_absorb en t (drop i (e820_ranges s)))"
    if "st' + sz' = en" for st' sz'
    using "1.prems" that by (intro e820_finish_refines) auto
  have len: "min (length (e820_ranges s)) i = i"
    using "1.prems" by (simp add: length_e820_ranges)
  show ?case
  proof (cases "i < e820_entries s")
    case False
    then show ?thesis
      using "1.prems" fin [OF "1.prems"(4)]
      by (simp add: e820_find.simps [of _ _ s] length_e820_ranges)
  next
    case True
    define e where "e = e820_map s ! i"
    note dr = drop_e820_ranges [OF "1.prems"(1) True, folded e_def]
    note code = e820_find.simps [of "e820_code t" en s i st sz, folded e_def] 
    have take: "take (Suc i) (e820_ranges s) = take i (e820_ranges s) @ [entry_range e]"
      using "1.prems"(1) True
      by (simp add: take_Suc_conv_app_nth length_e820_ranges nth_e820_ranges e_def)
    show ?thesis
    proof (cases "entry_range e" st en t "drop (Suc i) (e820_ranges s)" rule: rm_add_cases)
      case skip
      then have "e820_find (e820_code t) en s i st sz = e820_find (e820_code t) en s (Suc i) st sz"
        using True by (simp add: code Let_def)
      with skip "1.hyps" [OF True e_def refl] "1.prems" True show ?thesis
        by (simp add: dr take)
    next
      case merge
      then have "e820_find (e820_code t) en s i st sz = (s, i, BaseAddr e, sz + (st - BaseAddr e))"
        unfolding code using True by (auto simp: Let_def)
      moreover have "BaseAddr e + (sz + (st - BaseAddr e)) = en"
        using "1.prems"(4) by (simp add: add.commute)
      ultimately show ?thesis using merge fin by (simp add: dr)
    next
      case split
      let ?e = "e\<lparr>Length := st - BaseAddr e\<rparr>"
      let ?s1 = "s\<lparr>e820_map := (e820_map s)[i := ?e]\<rparr>"
      let ?s2 = "if en < BaseAddr e + Length e
        then insert_e820 ?s1 (Suc i) en (BaseAddr e + Length e - en) (ucast (Type e)) else ?s1"
      have find: "e820_find (e820_code t) en s i st sz = (?s2, Suc i, st, sz)"
        unfolding code using split True by (auto simp: Let_def)
      note upd = update_ranges [OF "1.prems"(1) True, of ?e]
      have room: "e820_entries ?s1 < E820_MAX_ENTRIES" "Suc i \<le> e820_entries ?s1"
        using "1.prems"(2) True by simp_all
      note ins = insert_e820_ranges [OF upd(1) room]
      have s2: "e820_invar ?s2" "Suc i \<le> e820_entries ?s2" "e820_entries ?s2 < E820_MAX_ENTRIES"
        "e820_ranges ?s2 = take i (e820_ranges s) @
           Range (BaseAddr e) st (Type e) # rm_rest en (entry_range e) (drop (Suc i) (e820_ranges s))"
        using upd ins room insert_e820_invar "1.prems"(2)
        by (auto simp: entry_range_def len)
      show ?thesis
        unfolding find e820_finish_refines [OF s2(1-3) "1.prems"(4)] dr split(4)
        by (simp add: s2(4) len)
    next
      case here
      then have "e820_find (e820_code t) en s i st sz = (s, i, st, sz)"
        unfolding code using True by (auto simp: Let_def)
      with here fin [OF "1.prems"(4)] show ?thesis by (simp add: dr)
    qed
  qed
qed

text \<open>The position stays inside the used part of the array, so no loop leaves its 128 slots.\<close>

lemma remove_e820_invar: "e820_invar s \<Longrightarrow> e820_invar (remove_e820 s i)"
  by (auto simp: remove_e820_def e820_invar_def Let_def)

lemma insert_e820_entries: "e820_entries s \<le> e820_entries (insert_e820 s i start sz t)"
  by (simp add: insert_e820_def Let_def)

lemma e820_find_bounds:
  assumes "e820_find t en s i start sz = (s', i', start', sz')" "e820_invar s" "i \<le> e820_entries s"
  shows "e820_invar s' \<and> i' \<le> e820_entries s'"
  using assms
proof (induction t en s i start sz rule: e820_find.induct)
  case (1 t en s i start sz)
  define e where "e = e820_map s ! i"
  let ?e = "e\<lparr>Length := start - BaseAddr e\<rparr>"
  let ?s1 = "s\<lparr>e820_map := (e820_map s)[i := ?e]\<rparr>"
  let ?s2 = "insert_e820 ?s1 (Suc i) en (BaseAddr e + Length e - en) (ucast (Type e))"
  have "e820_invar ?s1" using "1.prems"(2) by (simp add: e820_invar_def)
  then have s2: "e820_invar ?s1" "e820_invar ?s2" "e820_entries s \<le> e820_entries ?s2"
    using insert_e820_invar insert_e820_entries [of ?s1] by auto
  show ?case
    using "1.prems" "1.IH" [OF _ e_def refl] s2
    by (subst (asm) e820_find.simps)
      (auto simp: Let_def e_def [symmetric] split: if_splits)
qed

lemma e820_absorb_bounds:
  assumes "e820_absorb t en s i sz = (s', sz')" "e820_invar s" "i \<le> e820_entries s"
  shows "e820_invar s' \<and> i \<le> e820_entries s'"
  using assms
proof (induction t en s i sz rule: e820_absorb.induct)
  case (1 t en s i sz)
  define e where "e = e820_map s ! i"
  let ?e = "e\<lparr>BaseAddr := en, Length := BaseAddr e + Length e - en\<rparr>"
  let ?s = "s\<lparr>e820_map := (e820_map s)[i := ?e]\<rparr>"
  have s: "e820_invar ?s" "e820_invar (remove_e820 ?s (int i))" "e820_invar (remove_e820 s (int i))"
    using "1.prems"(2) by (auto intro!: remove_e820_invar) (simp_all add: e820_invar_def)
  have entries: "i \<le> e820_entries (remove_e820 ?s (int i))" "i \<le> e820_entries (remove_e820 s (int i))"
    if "i < e820_entries s" using that by (simp_all add: remove_e820_def Let_def)
  show ?case
    using "1.prems" "1.IH" [OF _ e_def _ refl] s entries
    by (subst (asm) e820_absorb.simps)
      (auto simp: Let_def e_def [symmetric] split: if_splits)
qed

lemma e820_add_invar: "e820_invar s \<Longrightarrow> e820_invar (e820_add s start sz t)"
  by (auto simp: e820_add_def Let_def intro!: insert_e820_invar
      dest!: e820_find_bounds e820_absorb_bounds split: prod.splits)

section \<open>The array as a range store\<close>

definition e820_request :: "u64 \<Rightarrow> u64 \<Rightarrow> u32 option \<Rightarrow> e820_area \<Rightarrow> e820_area" where
  "e820_request start sz t s =
     (case t of None \<Rightarrow> e820_remove s start sz | Some y \<Rightarrow> e820_add s start sz (ucast y))"

lemma e820_request_code: "e820_request start sz t s = e820_add s start sz (e820_code t)"
  by (simp add: e820_request_def e820_remove_def e820_code_def split: option.splits)

interpretation csm: range_store e820_ranges e820_invar E820_MAX_ENTRIES "\<lambda>_. True" e820_request
proof
  fix s :: e820_area and st sz :: u64 and t :: "u32 option"
  assume s: "e820_invar s" and "length (e820_ranges s) + 2 \<le> E820_MAX_ENTRIES" "st < st + sz"
  then have "e820_ranges (e820_finish (e820_code t) (st + sz) (e820_find (e820_code t) (st + sz) s 0 st sz)) =
      rm_add st (st + sz) t (e820_ranges s)"
    using e820_find_refines [of s 0 st sz "st + sz" t] by (simp add: length_e820_ranges)
  moreover have "sz \<noteq> 0" using \<open>st < st + sz\<close> by auto
  ultimately show "e820_ranges (e820_request st sz t s) = rm_add st (st + sz) t (e820_ranges s)"
    by (simp add: e820_request_code e820_add_def Let_def)
next
  show "e820_request st 0 t s = s" for st t s
    by (simp add: e820_request_code e820_add_def)
  show "e820_invar s \<Longrightarrow> e820_invar (e820_request st sz t s)" for s st sz t
    by (simp add: e820_request_code e820_add_invar)
  show "e820_invar s \<Longrightarrow> length (e820_ranges s) \<le> E820_MAX_ENTRIES" for s
    by (simp add: length_e820_ranges) (simp add: e820_invar_def)
qed

section \<open>The map built from the UEFI memory map\<close>

text \<open>The descriptors a map of the given size holds, the last one possibly cut off.\<close>

definition memory_descriptors :: "mem \<Rightarrow> nat \<Rightarrow> nat \<Rightarrow> nat \<Rightarrow> EFI_MEMORY_DESCRIPTOR list" where
  "memory_descriptors m p sz d =
     map (\<lambda>k. memory_descriptor m (p + k * d)) [0..<(sz + d - 1) div d]"

lemma memory_descriptors_done: "0 < d \<Longrightarrow> memory_descriptors m p 0 d = []"
  by (simp add: memory_descriptors_def)

lemma memory_descriptors_step:
  assumes "0 < d" "0 < sz"
  shows "memory_descriptors m p sz d =
    memory_descriptor m p # memory_descriptors m (p + d) (sz - d) d"
proof -
  have "(sz + d - 1) div d = Suc ((sz - d + d - 1) div d)"
  proof (cases "sz \<le> d")
    case True
    then have "(sz + d - 1) div d = 1" using assms by (intro div_nat_eqI) auto
    then show ?thesis using True assms by simp
  next
    case False
    then show ?thesis using assms le_div_geq [of d "sz + d - 1"] by simp
  qed
  then show ?thesis
    by (simp add: memory_descriptors_def upt_conv_Cons map_Suc_upt [symmetric] comp_def ac_simps
        del: upt_Suc)
qed

lemma e820_walk_fold:
  assumes "0 < d"
  shows "e820_walk m p (p + sz) d s =
    Some (fold e820_add_descriptor (memory_descriptors m p sz d) s)"
  using assms
proof (induction sz arbitrary: p s rule: less_induct)
  case (less sz)
  show ?case
  proof (cases "sz = 0")
    case True
    with less.prems show ?thesis by (simp add: e820_walk.simps memory_descriptors_done)
  next
    case False
    have "e820_walk m (p + d) (p + sz) d s' =
        Some (fold e820_add_descriptor (memory_descriptors m (p + d) (sz - d) d) s')" for s'
    proof (cases "d \<le> sz")
      case True
      then show ?thesis using less.IH [of "sz - d" "p + d" s'] less.prems False by simp
    next
      case False
      then show ?thesis using less.prems by (simp add: e820_walk.simps memory_descriptors_done)
    qed
    then show ?thesis
      using False less.prems by (subst e820_walk.simps) (simp add: memory_descriptors_step)
  qed
qed

definition descriptor_request :: "EFI_MEMORY_DESCRIPTOR \<Rightarrow> u32 request" where
  "descriptor_request d = (PhysicalStart d, NumberOfPages d * EFI_PAGE_SIZE,
     Some (convert_memory_type (md_Type d)))"

lemma convert_memory_type_nonzero [simp]: "convert_memory_type t \<noteq> 0"
  by (simp add: convert_memory_type_def e820_type_defs)

lemma e820_add_descriptor_request:
  "e820_add_descriptor d = (\<lambda>s. case descriptor_request d of (st, sz, t) \<Rightarrow> e820_request st sz t s)"
  by (rule ext) (simp add: e820_add_descriptor_def descriptor_request_def e820_request_def Let_def
      csm.add_empty [of _ "Some _", unfolded e820_request_def, simplified])

lemma fold_descriptors:
  "fold e820_add_descriptor ds = fold (\<lambda>(st, sz, t). e820_request st sz t) (map descriptor_request ds)"
  by (induction ds) (simp_all add: e820_add_descriptor_request split: prod.splits)

definition low_requests :: "u32 request list" where
  "low_requests =
     [(0, 0x100000, None), (0, 0x80000, Some EfiAcpiAddressRangeMemory),
      (0x80000, 0x20000, Some EfiAcpiAddressRangeReserved),
      (0xa0000, 0x60000, Some EfiAcpiAddressRangeReserved)]"

lemma e820_low_memory_requests:
  "e820_low_memory = fold (\<lambda>(st, sz, t). e820_request st sz t) low_requests"
  by (rule ext) (simp add: e820_low_memory_def low_requests_def e820_request_def EBDA_BASE_def Let_def)

lemma low_requests_paint:
  "paint low_requests a v =
    (if a < 0x80000 then Some EfiAcpiAddressRangeMemory
     else if a < 0x100000 then Some EfiAcpiAddressRangeReserved else v)"
  by (auto simp: low_requests_def word_less_nat_alt word_le_nat_alt)

lemma low_requests_good: "list_all good_request low_requests"
  by (simp add: low_requests_def good_request_def)

section \<open>Properties\<close>

text \<open>
  C7.  Adding a range to a map with two free slots gives the new type (or a hole) to exactly the
  addresses of the range; every other address keeps its type.  The entries stay non-empty,
  sorted and disjoint, and a map without mergeable neighbours stays without.
\<close>

theorem e820_add_correct:
  fixes s :: e820_area and start sz :: u64 and t :: "u32 option"
  defines "s' \<equiv> e820_add s start sz (e820_code t)"
  assumes "e820_invar s" "rm_wf (e820_ranges s)" "e820_entries s + 2 \<le> E820_MAX_ENTRIES"
    and "start < start + sz"
  shows "e820_invar s' \<and> rm_wf (e820_ranges s') \<and>
    (rm_canonical (e820_ranges s) \<longrightarrow> rm_canonical (e820_ranges s')) \<and>
    (\<forall>a. rm_lookup (e820_ranges s') a =
      (if start \<le> a \<and> a < start + sz then t else rm_lookup (e820_ranges s) a))"
  using assms csm.add_step [of s t start sz]
  by (simp add: e820_request_code length_e820_ranges)

definition e820_example :: e820_area where
  "e820_example = \<lparr>e820_entries = 1, e820_map = replicate 128
     \<lparr>BaseAddr = 0x1000, Length = 0x5000, Type = EfiAcpiAddressRangeMemory\<rparr>\<rparr>"

lemma e820_example_simps [simp]:
  "e820_invar e820_example" "e820_entries e820_example = 1"
  "e820_ranges e820_example = [Range 0x1000 0x6000 EfiAcpiAddressRangeMemory]"
  by (simp_all add: e820_example_def e820_invar_def E820_MAX_ENTRIES_def e820_ranges_def
      entry_range_def)

theorem e820_add_correct_witness:
  "rm_lookup (e820_ranges (e820_add e820_example 0x2000 0x1000 (e820_code (Some 2)))) 0x2800 = Some 2"
  using e820_add_correct [where s = e820_example and start = "0x2000" and sz = "0x1000" and t = "Some 2"]
  by (simp add: E820_MAX_ENTRIES_def)

text \<open>
  C32.  Whatever the request and however full the map, \<^verbatim>\<open>e820_add\<close> keeps the entry count
  within the 128 slots of the array, and the position at which it finally inserts lies inside
  the used part of the array, so that the \<^verbatim>\<open>memmove\<close> of the insertion stays in the array.
\<close>

theorem e820_add_bounds:
  assumes "e820_invar s"
    and "e820_find t (start + sz) s 0 start sz = (s1, i, start1, sz1)"
    and "e820_absorb t (start + sz) s1 i sz1 = (s2, sz2)"
  shows "e820_invar (e820_add s start sz t) \<and> i \<le> e820_entries s2 \<and> e820_entries s2 \<le> E820_MAX_ENTRIES"
  using e820_add_invar [OF assms(1)] e820_find_bounds [OF assms(2,1)] e820_absorb_bounds [OF assms(3)]
  by (auto simp: e820_invar_def)

theorem e820_add_bounds_witness:
  "e820_invar (e820_add e820_example 0x8000 0x1000 2)"
proof -
  have "e820_find 2 (0x8000 + 0x1000) e820_example 0 0x8000 0x1000 = (e820_example, 1, 0x8000, 0x1000)"
    by (simp add: e820_find.simps e820_example_def)
  moreover have "e820_absorb 2 (0x8000 + 0x1000) e820_example 1 0x1000 = (e820_example, 0x1000)"
    by (simp add: e820_absorb.simps)
  ultimately show ?thesis using e820_add_bounds [of e820_example] by simp
qed

lemma e820_built:
  fixes m :: mem and p sz d :: nat
  defines "ds \<equiv> memory_descriptors m p sz d"
  assumes "e820_entries s = 0" "length (e820_map s) = E820_MAX_ENTRIES" "0 < d"
    and "list_all (\<lambda>d. good_request (descriptor_request d)) ds"
    and "\<forall>k \<le> length ds. e820_entries (fold e820_add_descriptor (take k ds) s) + 8 \<le> E820_MAX_ENTRIES"
  shows "\<exists>s'. build_e820_map m p sz d s = Some (s', 0) \<and> e820_invar s' \<and>
    rm_wf (e820_ranges s') \<and> rm_canonical (e820_ranges s') \<and> length (e820_ranges s') \<le> 2 * length ds + 8 \<and>
    (\<forall>a. rm_lookup (e820_ranges s') a =
      (if a < 0x80000 then Some EfiAcpiAddressRangeMemory
       else if a < 0x100000 then Some EfiAcpiAddressRangeReserved
       else paint (map descriptor_request ds) a None))"
proof -
  define s1 where "s1 = fold e820_add_descriptor ds s"
  have r: "e820_ranges s = []" "e820_invar s"
    using assms by (simp_all add: e820_ranges_def e820_invar_def)
  have inv: "e820_invar (fold e820_add_descriptor qs s)" for qs
    by (induction qs rule: rev_induct)
      (simp_all add: r e820_add_descriptor_def Let_def e820_add_invar)
  have "length (e820_ranges (fold e820_add_descriptor (take k ds) s)) + 2 \<le> E820_MAX_ENTRIES"
    if "k < length ds" for k
    using assms(6) [rule_format, of k] that by (simp add: length_e820_ranges [OF inv])
  then have one: "e820_invar s1 \<and> rm_wf (e820_ranges s1) \<and> length (e820_ranges s1) \<le> 2 * length ds \<and>
      rm_canonical (e820_ranges s1) \<and>
      (\<forall>a. rm_lookup (e820_ranges s1) a = paint (map descriptor_request ds) a None)"
    using csm.run_spec [of s "map descriptor_request ds"] assms(5) r
    by (simp add: s1_def fold_descriptors take_map list_all_iff descriptor_request_def)
  have "e820_entries s1 + 8 \<le> E820_MAX_ENTRIES"
    using assms(6) [rule_format, of "length ds"] by (simp add: s1_def)
  then have room: "length (e820_ranges s1) + 2 * length low_requests \<le> E820_MAX_ENTRIES"
    using one by (simp add: length_e820_ranges low_requests_def)
  have ok: "list_all (\<lambda>(st, sz, t). pred_option (\<lambda>_. True) t) low_requests"
    by (simp add: low_requests_def)
  note run = csm.run_spec [OF _ _ csm.run_room [OF _ _ room low_requests_good ok] low_requests_good ok]
  have "build_e820_map m p sz d s = Some (e820_low_memory s1, 0)"
    using assms(4) by (simp add: build_e820_map_def e820_walk_fold s1_def ds_def)
  moreover have "length low_requests \<le> 4" by (simp add: low_requests_def)
  ultimately show ?thesis
    using one run by (auto simp: e820_low_memory_requests low_requests_paint)
qed

text \<open>
  C8.  The map built from a UEFI memory map of which no descriptor wraps around, as long as it
  stays 8 entries below the limit: the build returns, addresses below 0x80000 are RAM, the rest
  of the first MiB is reserved, and every other address has the type of the last descriptor that
  covers it.  The entries are sorted, disjoint and merged.
\<close>

theorem build_e820_map_layout:
  fixes m :: mem and p sz d :: nat
  defines "ds \<equiv> memory_descriptors m p sz d"
  assumes "e820_entries s = 0" "length (e820_map s) = E820_MAX_ENTRIES" "0 < d"
    and "list_all (\<lambda>d. good_request (descriptor_request d)) ds"
    and "\<forall>k \<le> length ds. e820_entries (fold e820_add_descriptor (take k ds) s) + 8 \<le> E820_MAX_ENTRIES"
  shows "\<exists>s'. build_e820_map m p sz d s = Some (s', 0) \<and> e820_invar s' \<and>
    rm_wf (e820_ranges s') \<and> rm_canonical (e820_ranges s') \<and>
    (\<forall>a. rm_lookup (e820_ranges s') a =
      (if a < 0x80000 then Some EfiAcpiAddressRangeMemory
       else if a < 0x100000 then Some EfiAcpiAddressRangeReserved
       else paint (map descriptor_request ds) a None))"
  using e820_built [OF assms(2-4), of m p sz] assms(5,6) unfolding ds_def by blast

text \<open>A map of one descriptor: one MiB of conventional memory at 1 MiB.\<close>

definition memory_map_example :: mem where
  "memory_map_example = store64 24 0x100 (store64 8 0x100000 (store32 0 7 (\<lambda>_. 0)))"

lemma memory_map_example_simps:
  "memory_descriptors memory_map_example 0 48 48 =
    [\<lparr>md_Type = 7, PhysicalStart = 0x100000, NumberOfPages = 0x100\<rparr>]"
  by code_simp

theorem build_e820_map_layout_witness:
  "\<exists>s'. build_e820_map memory_map_example 0 48 48 (e820_example\<lparr>e820_entries := 0\<rparr>) = Some (s', 0) \<and>
    rm_lookup (e820_ranges s') 0x150000 = Some EfiAcpiAddressRangeMemory"
proof -
  let ?s = "e820_example\<lparr>e820_entries := 0\<rparr>"
  let ?d = "\<lparr>md_Type = 7, PhysicalStart = 0x100000, NumberOfPages = 0x100\<rparr>"
  have d: "convert_memory_type 7 = EfiAcpiAddressRangeMemory"
    by (simp add: convert_memory_type_def efi_memory_type_defs)
  have s: "e820_invar ?s" "length (e820_map e820_example) = E820_MAX_ENTRIES"
    using e820_example_simps(1) by (simp_all add: e820_invar_def)
  have "e820_entries (e820_add_descriptor ?d ?s) \<le> 2"
    using csm.add_step(3) [of ?s "Some EfiAcpiAddressRangeMemory" "0x100000" "0x100000"] s(1)
    by (simp add: e820_add_descriptor_request descriptor_request_def d EFI_PAGE_SIZE_def
        length_e820_ranges csm.invar_add E820_MAX_ENTRIES_def e820_ranges_def [of ?s])
  then have "\<forall>k \<le> length [?d]. e820_entries (fold e820_add_descriptor (take k [?d]) ?s) + 8 \<le> E820_MAX_ENTRIES"
    by (auto simp: le_Suc_eq E820_MAX_ENTRIES_def)
  then show ?thesis
    using build_e820_map_layout [of ?s 48 memory_map_example 0 48] s(2)
    by (auto simp: memory_map_example_simps descriptor_request_def good_request_def d EFI_PAGE_SIZE_def)
qed

end
