(* ===== verification/Seabios_E820.thy ===== *)
theory Seabios_E820
  imports E820
begin

text \<open>
  The memory map of SeaBIOS, \<^verbatim>\<open>seabios/src/e820map.c\<close>, from which the code in CSMWrap's
  \<^verbatim>\<open>e820.c\<close> descends.  The two differ in the width of the type and in the value that marks a
  hole: SeaBIOS uses the 32-bit all-ones type, which no stored entry may have.  The operations
  are shown equal to those of \<open>E820\<close> through \<open>sea_abs\<close>, and the array is the second instance
  of \<open>range_store\<close>.
\<close>

section \<open>Definitions\<close>

record e820entry =
  e_start :: u64
  e_size :: u64
  e_type :: u32

record sea_map =
  e820_count :: nat
  e820_list :: "e820entry list"

definition BUILD_MAX_E820 :: nat where "BUILD_MAX_E820 = 128"
definition E820_RAM :: u32 where "E820_RAM = 1"
definition E820_RESERVED :: u32 where "E820_RESERVED = 2"
definition E820_ACPI :: u32 where "E820_ACPI = 3"
definition E820_NVS :: u32 where "E820_NVS = 4"
definition E820_UNUSABLE :: u32 where "E820_UNUSABLE = 5"
definition E820_HOLE :: u32 where "E820_HOLE = - 1"

definition sea_remove_e820 :: "sea_map \<Rightarrow> nat \<Rightarrow> sea_map" where
  "sea_remove_e820 s i =
     (let c = e820_count s - 1 in
      s\<lparr>e820_count := c, e820_list := array_move i (Suc i) (c - i) (e820_list s)\<rparr>)"

definition sea_insert_e820 :: "sea_map \<Rightarrow> nat \<Rightarrow> u64 \<Rightarrow> u64 \<Rightarrow> u32 \<Rightarrow> sea_map" where
  "sea_insert_e820 s i st sz t =
     (if e820_count s \<ge> BUILD_MAX_E820 then s
      else let l = array_move (Suc i) i (e820_count s - i) (e820_list s) in
        s\<lparr>e820_count := Suc (e820_count s),
          e820_list := l[i := \<lparr>e_start = st, e_size = sz, e_type = t\<rparr>]\<rparr>)"

definition sea_type_name :: "u32 \<Rightarrow> string" where
  "sea_type_name t =
     (if t = E820_RAM then ''RAM''
      else if t = E820_RESERVED then ''RESERVED''
      else if t = E820_ACPI then ''ACPI''
      else if t = E820_NVS then ''NVS''
      else if t = E820_UNUSABLE then ''UNUSABLE''
      else ''UNKNOWN'')"

text \<open>The arguments of each line \<^verbatim>\<open>dump_map\<close> prints, which is all \<^verbatim>\<open>e820_prepboot\<close> does.\<close>

definition sea_dump_map :: "sea_map \<Rightarrow> (nat \<times> u64 \<times> u64 \<times> u32 \<times> string) list" where
  "sea_dump_map s = map (\<lambda>i. let e = e820_list s ! i; e_end = e_start e + e_size e in
     (i, e_start e, e_end, e_type e, sea_type_name (e_type e))) [0..<e820_count s]"

definition sea_e820_prepboot :: "sea_map \<Rightarrow> (nat \<times> u64 \<times> u64 \<times> u32 \<times> string) list" where
  "sea_e820_prepboot s = sea_dump_map s"

function sea_find :: "u32 \<Rightarrow> u64 \<Rightarrow> sea_map \<Rightarrow> nat \<Rightarrow> u64 \<Rightarrow> u64 \<Rightarrow> sea_map \<times> nat \<times> u64 \<times> u64" where
  "sea_find t en s i st sz =
     (if i < e820_count s then
        let e = e820_list s ! i; e_end = e_start e + e_size e in
        if st > e_end then sea_find t en s (Suc i) st sz
        else if st > e_start e then
          (if t = e_type e then (s, i, e_start e, sz + (st - e_start e))
           else
             let s1 = s\<lparr>e820_list := (e820_list s)[i := e\<lparr>e_size := st - e_start e\<rparr>]\<rparr>;
                 s2 = (if e_end > en then sea_insert_e820 s1 (Suc i) en (e_end - en) (e_type e)
                       else s1)
             in (s2, Suc i, st, sz))
        else (s, i, st, sz)
      else (s, i, st, sz))"
  by pat_completeness auto
termination
  by (relation "measure (\<lambda>(t, en, s, i, st, sz). e820_count s - i)") auto

function sea_absorb :: "u32 \<Rightarrow> u64 \<Rightarrow> sea_map \<Rightarrow> nat \<Rightarrow> u64 \<Rightarrow> sea_map \<times> u64" where
  "sea_absorb t en s i sz =
     (if i < e820_count s then
        let e = e820_list s ! i in
        if en < e_start e then (s, sz)
        else let e_end = e_start e + e_size e in
          if en \<ge> e_end then sea_absorb t en (sea_remove_e820 s i) i sz
          else let e' = e\<lparr>e_start := en, e_size := e_end - en\<rparr>;
                   s1 = s\<lparr>e820_list := (e820_list s)[i := e']\<rparr> in
            if t = e_type e' then (sea_remove_e820 s1 i, sz + e_size e')
            else (s1, sz)
      else (s, sz))"
  by pat_completeness auto
termination
  by (relation "measure (\<lambda>(t, en, s, i, sz). e820_count s)") (auto simp: sea_remove_e820_def Let_def)

declare sea_find.simps [simp del] sea_absorb.simps [simp del]

definition sea_e820_add :: "u64 \<Rightarrow> u64 \<Rightarrow> u32 \<Rightarrow> sea_map \<Rightarrow> sea_map" where
  "sea_e820_add st sz t s =
     (if sz = 0 then s
      else
        let en = st + sz;
            (s1, i, st1, sz1) = sea_find t en s 0 st sz;
            (s2, sz2) = sea_absorb t en s1 i sz1
        in if t \<noteq> E820_HOLE then sea_insert_e820 s2 i st1 sz2 t else s2)"

definition sea_e820_remove :: "u64 \<Rightarrow> u64 \<Rightarrow> sea_map \<Rightarrow> sea_map" where
  "sea_e820_remove st sz s = sea_e820_add st sz E820_HOLE s"

definition e820_is_used :: "u64 \<Rightarrow> u64 \<Rightarrow> sea_map \<Rightarrow> bool" where
  "e820_is_used st sz s \<longleftrightarrow>
     (\<exists>e \<in> set (take (e820_count s) (e820_list s)).
        \<not> st + sz \<le> e_start e \<and> \<not> st \<ge> e_start e + e_size e)"

section \<open>The two copies of the code agree\<close>

definition sea_entry :: "e820entry \<Rightarrow> EFI_E820_ENTRY64" where
  "sea_entry e = \<lparr>BaseAddr = e_start e, Length = e_size e, Type = e_type e\<rparr>"

definition sea_abs :: "sea_map \<Rightarrow> e820_area" where
  "sea_abs s = \<lparr>e820_entries = e820_count s, e820_map = map sea_entry (e820_list s)\<rparr>"

text \<open>The 32-bit hole type stands for the 64-bit one of \<open>E820\<close>.\<close>

definition sea_wide :: "u32 \<Rightarrow> u64" where
  "sea_wide t = (if t = E820_HOLE then EfiAcpiAddressRangeHole else ucast t)"

definition sea_ranges :: "sea_map \<Rightarrow> u32 range list" where
  "sea_ranges s = e820_ranges (sea_abs s)"

definition sea_invar :: "sea_map \<Rightarrow> bool" where
  "sea_invar s \<longleftrightarrow> e820_invar (sea_abs s) \<and> (\<forall>r \<in> set (sea_ranges s). ty r \<noteq> E820_HOLE)"

lemma sea_abs_sel [simp]:
  "e820_entries (sea_abs s) = e820_count s" "e820_map (sea_abs s) = map sea_entry (e820_list s)"
  "BaseAddr (sea_entry e) = e_start e" "Length (sea_entry e) = e_size e" "Type (sea_entry e) = e_type e"
  by (simp_all add: sea_abs_def sea_entry_def)

lemma sea_wide_eq:
  "y \<noteq> E820_HOLE \<Longrightarrow> sea_wide t = ucast y \<longleftrightarrow> t = y" "sea_wide t = EfiAcpiAddressRangeHole \<longleftrightarrow> t = E820_HOLE"
  by (auto simp: sea_wide_def)

lemma sea_invar_len: "sea_invar s \<Longrightarrow> length (e820_list s) = 128 \<and> e820_count s \<le> 128"
  by (simp add: sea_invar_def e820_invar_def E820_MAX_ENTRIES_def)

lemma sea_invar_type: "sea_invar s \<Longrightarrow> i < e820_count s \<Longrightarrow> e_type (e820_list s ! i) \<noteq> E820_HOLE"
  using sea_invar_len [of s] nth_mem [of i "sea_ranges s"] length_e820_ranges [of "sea_abs s"]
  by (auto simp: sea_invar_def sea_ranges_def nth_e820_ranges)

lemma map_array_move:
  "s + n \<le> length xs \<Longrightarrow> array_move d s n (map f xs) = map f (array_move d s n xs)"
  by (auto simp: array_move_def)

lemma sea_remove_abs:
  assumes "sea_invar s" "i < e820_count s"
  shows "sea_abs (sea_remove_e820 s i) = remove_e820 (sea_abs s) (int i)"
  using assms sea_invar_len [OF assms(1)]
  by (auto simp: sea_abs_def sea_remove_e820_def remove_e820_def Let_def map_array_move)

lemma sea_insert_abs:
  assumes "sea_invar s" "i \<le> e820_count s"
  shows "sea_abs (sea_insert_e820 s i st sz t) = insert_e820 (sea_abs s) i st sz (ucast t)"
  using assms sea_invar_len [OF assms(1)]
  by (auto simp: sea_abs_def sea_insert_e820_def insert_e820_def Let_def map_array_move map_update
      sea_entry_def E820_MAX_ENTRIES_def BUILD_MAX_E820_def)

lemma sea_update_abs:
  "sea_abs (s\<lparr>e820_list := (e820_list s)[i := e]\<rparr>) =
     (sea_abs s)\<lparr>e820_map := (e820_map (sea_abs s))[i := sea_entry e]\<rparr>"
  by (simp add: sea_abs_def map_update)

lemma sea_remove_invar: "sea_invar s \<Longrightarrow> i < e820_count s \<Longrightarrow> sea_invar (sea_remove_e820 s i)"
  using remove_e820_ranges [of "sea_abs s" i]
  by (auto simp: sea_invar_def sea_ranges_def sea_remove_abs [unfolded sea_invar_def sea_ranges_def]
      dest: in_set_takeD in_set_dropD)

lemma sea_insert_invar:
  assumes "sea_invar s" "i \<le> e820_count s" "t \<noteq> E820_HOLE"
  shows "sea_invar (sea_insert_e820 s i st sz t)"
proof (cases "e820_count s < 128")
  case True
  then show ?thesis
    using assms insert_e820_ranges(1) [of "sea_abs s" i st sz "ucast t"] sea_insert_abs [OF assms(1,2)]
    by (auto simp: sea_invar_def sea_ranges_def insert_e820_invar E820_MAX_ENTRIES_def
        dest: in_set_takeD in_set_dropD)
next
  case False
  then show ?thesis using assms by (simp add: sea_insert_e820_def BUILD_MAX_E820_def)
qed

lemma sea_update_invar:
  assumes "sea_invar s" "i < e820_count s" "e_type e \<noteq> E820_HOLE"
  shows "sea_invar (s\<lparr>e820_list := (e820_list s)[i := e]\<rparr>)"
  using assms update_ranges [of "sea_abs s" i "sea_entry e"]
  by (auto simp: sea_invar_def sea_ranges_def sea_update_abs dest: in_set_takeD in_set_dropD)

lemma sea_find_abs:
  assumes "sea_find t en s i st sz = (s', i', st', sz')" "sea_invar s" "i \<le> e820_count s"
  shows "e820_find (sea_wide t) en (sea_abs s) i st sz = (sea_abs s', i', st', sz') \<and>
    sea_invar s' \<and> i' \<le> e820_count s'"
  using assms
proof (induction t en s i st sz rule: sea_find.induct)
  case (1 t en s i st sz)
  show ?case
  proof (cases "i < e820_count s")
    case False
    with "1.prems" show ?thesis by (simp add: sea_find.simps e820_find.simps)
  next
    case True
    define e where "e = e820_list s ! i"
    define s1 where "s1 = s\<lparr>e820_list := (e820_list s)[i := e\<lparr>e_size := st - e_start e\<rparr>]\<rparr>"
    define s2 where "s2 = sea_insert_e820 s1 (Suc i) en (e_start e + e_size e - en) (e_type e)"
    have ty: "e_type e \<noteq> E820_HOLE" using sea_invar_type "1.prems"(2) True by (simp add: e_def)
    have s1: "sea_invar s1" "e820_count s1 = e820_count s"
      using sea_update_invar [OF "1.prems"(2) True] ty by (simp_all add: s1_def)
    have s2: "sea_invar s2" "e820_count s \<le> e820_count s2"
      using sea_insert_invar [OF s1(1) _ ty, of "Suc i"] True s1(2)
      by (simp_all add: s2_def sea_insert_e820_def Let_def)
    have abs: "sea_abs s1 = (sea_abs s)\<lparr>e820_map := (map sea_entry (e820_list s))
        [i := (sea_entry e)\<lparr>Length := st - e_start e\<rparr>]\<rparr>"
      "sea_abs s2 = insert_e820 (sea_abs s1) (Suc i) en (e_start e + e_size e - en) (ucast (e_type e))"
      using sea_insert_abs [OF s1(1), of "Suc i"] True s1(2)
      by (simp_all add: s1_def s2_def sea_update_abs) (simp add: sea_entry_def)
    have nth: "map sea_entry (e820_list s) ! i = sea_entry e"
      using True sea_invar_len [OF "1.prems"(2)] by (simp add: e_def)
    show ?thesis
      using "1.prems" "1.IH" [OF True e_def refl] True s1 s2 abs nth
      unfolding sea_find.simps [of t en s i st sz] e820_find.simps [of "sea_wide t" en "sea_abs s" i st sz]
      by (auto simp: Let_def sea_wide_eq(1) [OF ty] e_def [symmetric] s1_def [symmetric]
          s2_def [symmetric] split: if_splits)
  qed
qed

lemma sea_absorb_abs:
  assumes "sea_absorb t en s i sz = (s', sz')" "sea_invar s" "i \<le> e820_count s"
  shows "e820_absorb (sea_wide t) en (sea_abs s) i sz = (sea_abs s', sz') \<and>
    sea_invar s' \<and> i \<le> e820_count s'"
  using assms
proof (induction t en s i sz rule: sea_absorb.induct)
  case (1 t en s i sz)
  show ?case
  proof (cases "i < e820_count s")
    case False
    with "1.prems" show ?thesis by (simp add: sea_absorb.simps e820_absorb.simps)
  next
    case True
    define e where "e = e820_list s ! i"
    define e' where "e' = e\<lparr>e_start := en, e_size := e_start e + e_size e - en\<rparr>"
    define s1 where "s1 = s\<lparr>e820_list := (e820_list s)[i := e']\<rparr>"
    have ty: "e_type e \<noteq> E820_HOLE" using sea_invar_type "1.prems"(2) True by (simp add: e_def)
    have s1: "sea_invar s1" "e820_count s1 = e820_count s"
      using sea_update_invar [OF "1.prems"(2) True] ty by (simp_all add: s1_def e'_def)
    note rem = sea_remove_invar [OF "1.prems"(2) True] sea_remove_abs [OF "1.prems"(2) True]
    have rem1: "sea_invar (sea_remove_e820 s1 i)"
      "sea_abs (sea_remove_e820 s1 i) = remove_e820 (sea_abs s1) (int i)"
      using sea_remove_invar [OF s1(1)] sea_remove_abs [OF s1(1)] True s1(2) by simp_all
    have le: "i \<le> e820_count (sea_remove_e820 s i)" "i \<le> e820_count (sea_remove_e820 s1 i)"
      using True s1(2) by (simp_all add: sea_remove_e820_def Let_def)
    have abs: "sea_abs s1 = (sea_abs s)\<lparr>e820_map := (map sea_entry (e820_list s))
        [i := (sea_entry e)\<lparr>BaseAddr := en, Length := e_start e + e_size e - en\<rparr>]\<rparr>"
      by (simp add: s1_def sea_update_abs) (simp add: sea_entry_def e'_def)
    have nth: "map sea_entry (e820_list s) ! i = sea_entry e"
      using True sea_invar_len [OF "1.prems"(2)] by (simp add: e_def)
    show ?thesis
      using "1.prems" "1.IH" [OF True e_def _ refl] True s1 rem rem1 le abs nth
      unfolding sea_absorb.simps [of t en s i sz] e820_absorb.simps [of "sea_wide t" en "sea_abs s" i sz]
      by (auto simp: Let_def sea_wide_eq(1) [OF ty] e_def [symmetric] e'_def [symmetric]
          s1_def [symmetric] split: if_splits) (auto simp: e'_def)
  qed
qed

lemma sea_e820_add_abs:
  assumes "sea_invar s"
  shows "sea_invar (sea_e820_add st sz t s)"
    and "sea_abs (sea_e820_add st sz t s) = e820_add (sea_abs s) st sz (sea_wide t)"
proof -
  obtain s1 i st1 sz1 where f: "sea_find t (st + sz) s 0 st sz = (s1, i, st1, sz1)"
    by (metis prod_cases4)
  obtain s2 sz2 where a: "sea_absorb t (st + sz) s1 i sz1 = (s2, sz2)" by fastforce
  note F = sea_find_abs [OF f assms le0]
  note A = sea_absorb_abs [OF a]
  show "sea_invar (sea_e820_add st sz t s)"
    using F A assms by (auto simp: sea_e820_add_def f a Let_def intro!: sea_insert_invar)
  show "sea_abs (sea_e820_add st sz t s) = e820_add (sea_abs s) st sz (sea_wide t)"
    using F A assms
    by (auto simp: sea_e820_add_def e820_add_def f a Let_def sea_wide_eq sea_insert_abs)
      (auto simp: sea_wide_def)
qed

section \<open>The second range store\<close>

definition sea_request :: "u64 \<Rightarrow> u64 \<Rightarrow> u32 option \<Rightarrow> sea_map \<Rightarrow> sea_map" where
  "sea_request st sz t s =
     (case t of None \<Rightarrow> sea_e820_remove st sz s | Some y \<Rightarrow> sea_e820_add st sz y s)"

lemma sea_request_abs:
  assumes "sea_invar s" "pred_option (\<lambda>y. y \<noteq> E820_HOLE) t"
  shows "sea_abs (sea_request st sz t s) = e820_request st sz t (sea_abs s)"
  using assms
  by (auto simp: sea_request_def e820_request_def sea_e820_remove_def e820_remove_def
      sea_e820_add_abs sea_wide_def split: option.splits)

interpretation sea: range_store sea_ranges sea_invar BUILD_MAX_E820 "\<lambda>y. y \<noteq> E820_HOLE" sea_request
proof
  show "sea_ranges (sea_request st sz t s) = rm_add st (st + sz) t (sea_ranges s)"
    if "sea_invar s" "rm_wf (sea_ranges s)" "length (sea_ranges s) + 2 \<le> BUILD_MAX_E820"
      "pred_option (\<lambda>y. y \<noteq> E820_HOLE) t" "st < st + sz" for s st sz t
    using that csm.ranges_add [of "sea_abs s" t st sz]
    by (simp add: sea_ranges_def sea_request_abs BUILD_MAX_E820_def E820_MAX_ENTRIES_def sea_invar_def)
  show "sea_request st 0 t s = s" for st t s
    by (simp add: sea_request_def sea_e820_remove_def sea_e820_add_def split: option.splits)
  show "sea_invar s \<Longrightarrow> sea_invar (sea_request st sz t s)" for s st sz t
    by (simp add: sea_request_def sea_e820_remove_def sea_e820_add_abs split: option.splits)
  show "sea_invar s \<Longrightarrow> length (sea_ranges s) \<le> BUILD_MAX_E820" for s
    using csm.invar_bound [of "sea_abs s"]
    by (simp add: sea_invar_def sea_ranges_def BUILD_MAX_E820_def E820_MAX_ENTRIES_def)
qed

section \<open>Is a range in use\<close>

lemma range_overlap:
  assumes "rm_wf rs" "st < en"
  shows "(\<exists>r \<in> set rs. lo r < en \<and> st < hi r) \<longleftrightarrow> (\<exists>a. st \<le> a \<and> a < en \<and> rm_lookup rs a \<noteq> None)"
  using assms(1)
proof (induction rs)
  case (Cons r rs)
  have "lo r < hi r" using Cons.prems by simp
  then have "lo r < en \<and> st < hi r \<longleftrightarrow> (\<exists>a. st \<le> a \<and> a < en \<and> covers r a)"
    using assms(2) by (auto simp: covers_def intro: exI [of _ "max st (lo r)"])
  with Cons show ?case by auto
qed simp

lemma e820_is_used_ranges:
  "e820_is_used st sz s \<longleftrightarrow> (\<exists>r \<in> set (sea_ranges s). lo r < st + sz \<and> st < hi r)"
  by (auto simp: e820_is_used_def sea_ranges_def e820_ranges_def not_le take_map)

section \<open>Properties\<close>

text \<open>
  C9.  CSMWrap's \<^verbatim>\<open>e820_add\<close> and the SeaBIOS function it descends from compute the same
  map, entry by entry, full arrays and wrapping ranges included, although they mark a hole with
  different values.
\<close>

theorem sea_e820_add_equiv:
  assumes "sea_invar s"
  shows "sea_abs (sea_e820_add st sz t s) =
      (if t = E820_HOLE then e820_remove (sea_abs s) st sz else e820_add (sea_abs s) st sz (ucast t)) \<and>
    sea_invar (sea_e820_add st sz t s)"
  using assms by (simp add: sea_e820_add_abs sea_wide_def e820_remove_def)

definition sea_example :: sea_map where
  "sea_example = \<lparr>e820_count = 1, e820_list =
     replicate 128 \<lparr>e_start = 0x1000, e_size = 0x5000, e_type = E820_RAM\<rparr>\<rparr>"

lemma sea_example_invar: "sea_invar sea_example"
  by (simp add: sea_example_def sea_invar_def e820_invar_def E820_MAX_ENTRIES_def sea_ranges_def
      e820_ranges_def E820_RAM_def E820_HOLE_def)

theorem sea_e820_add_equiv_witness:
  "sea_abs (sea_e820_add 0x2000 0x1000 E820_RESERVED sea_example) =
    e820_add (sea_abs sea_example) 0x2000 0x1000 2"
  using sea_e820_add_equiv [OF sea_example_invar, of "0x2000" "0x1000" E820_RESERVED]
  by (simp add: E820_RESERVED_def E820_HOLE_def)

text \<open>
  C10.  A sequence of SeaBIOS map updates of which none wraps around, with two free slots before
  each: every address ends with the type of the last update that covers it, the
  entries stay sorted, disjoint and merged, and \<^verbatim>\<open>e820_is_used\<close> answers whether any address of
  a range has a type.
\<close>

theorem sea_requests_correct:
  fixes s :: sea_map and qs :: "u32 request list"
  defines "s' \<equiv> fold (\<lambda>(st, sz, t). sea_request st sz t) qs s"
  assumes "sea_invar s" "rm_wf (sea_ranges s)" "rm_canonical (sea_ranges s)"
    and "\<forall>k < length qs. length (sea_ranges (fold (\<lambda>(st, sz, t). sea_request st sz t) (take k qs) s)) + 2
      \<le> BUILD_MAX_E820"
    and "list_all good_request qs" "list_all (\<lambda>(st, sz, t). pred_option (\<lambda>y. y \<noteq> E820_HOLE) t) qs"
    and "st < st + sz"
  shows "rm_wf (sea_ranges s') \<and> rm_canonical (sea_ranges s') \<and>
    (\<forall>a. rm_lookup (sea_ranges s') a = paint qs a (rm_lookup (sea_ranges s) a)) \<and>
    (e820_is_used st sz s' \<longleftrightarrow>
      (\<exists>a. st \<le> a \<and> a < st + sz \<and> paint qs a (rm_lookup (sea_ranges s) a) \<noteq> None))"
  using sea.run_spec [OF assms(2,3,5,6,7)] assms(4)
  by (simp add: s'_def e820_is_used_ranges range_overlap [OF _ assms(8)])

theorem sea_requests_correct_witness:
  "e820_is_used 0x5000 0x10 (sea_request 0x9000 0x1000 (Some 2) sea_example)"
proof -
  have r: "sea_ranges sea_example = [Range 0x1000 0x6000 1]"
    by (simp add: sea_example_def sea_ranges_def e820_ranges_def entry_range_def E820_RAM_def)
  let ?p = "\<lambda>a. paint [(0x9000, 0x1000, Some (2 :: u32))] a (rm_lookup (sea_ranges sea_example) a)"
  have "e820_is_used 0x5000 0x10 (sea_request 0x9000 0x1000 (Some 2) sea_example) \<longleftrightarrow>
      (\<exists>a. 0x5000 \<le> a \<and> a < 0x5000 + 0x10 \<and> ?p a \<noteq> None)"
    using sea_requests_correct [OF sea_example_invar, where qs = "[(0x9000, 0x1000, Some 2)]"
        and st = "0x5000" and sz = "0x10"]
    by (simp add: r good_request_def E820_HOLE_def BUILD_MAX_E820_def)
  moreover have "0x5000 \<le> (0x5008 :: u64) \<and> (0x5008 :: u64) < 0x5000 + 0x10 \<and> ?p 0x5008 \<noteq> None"
    by (simp add: r covers_def)
  ultimately show ?thesis by blast
qed

end
