(* ===== verification/Seabios_Malloc.thy ===== *)
theory Seabios_Malloc
  imports Seabios_E820 Libc
begin

text \<open>
  The memory allocator of SeaBIOS, \<^verbatim>\<open>seabios/src/malloc.c\<close>, in the configuration of this
  repository (\<^verbatim>\<open>CONFIG_MALLOC_UPPERMEMORY\<close>, so \<^verbatim>\<open>zonelow_expand\<close> and \<^verbatim>\<open>relocate_ebda\<close> are compiled
  out).  A zone is a list of \<^verbatim>\<open>allocinfo_s\<close> in list order, from high to low addresses.  Each
  entry knows its node: the address of the structure it is embedded in, or the temporary on the stack
  that stands for it until the bookkeeping structure is allocated.
  Symbols of the linker script are parameters.
\<close>

section \<open>Definitions\<close>

datatype zone = ZoneLow | ZoneHigh | ZoneFSeg | ZoneTmpLow | ZoneTmpHigh

definition Zones :: "zone list" where
  "Zones = [ZoneTmpLow, ZoneLow, ZoneFSeg, ZoneTmpHigh, ZoneHigh]"

datatype node = TempDetail | TempData | Node u32

record allocinfo =
  ai_node :: node
  range_start :: u32
  range_end :: u32
  alloc_size :: u32

text \<open>
  \<open>handles\<close> is the \<^verbatim>\<open>handle\<close> field of the \<^verbatim>\<open>allocdetail_s\<close> at an address.  In that structure
  \<^verbatim>\<open>detailinfo\<close> is at offset 0 and \<^verbatim>\<open>datainfo\<close> at offset 20.
\<close>

record sea_heap =
  zones :: "zone \<Rightarrow> allocinfo list"
  handles :: "u32 \<Rightarrow> u32"
  RomEnd :: u32
  RomBase :: "node option"
  LegacyRamSize :: u32

definition ALIGN_DOWN :: "u32 \<Rightarrow> u32 \<Rightarrow> u32" where
  "ALIGN_DOWN x a = x AND NOT (a - 1)"

definition ALIGN :: "u32 \<Rightarrow> u32 \<Rightarrow> u32" where
  "ALIGN x a = (x + (a - 1)) AND NOT (a - 1)"

definition MALLOC_MIN_ALIGN :: u32 where "MALLOC_MIN_ALIGN = 16"
definition MALLOC_DEFAULT_HANDLE :: u32 where "MALLOC_DEFAULT_HANDLE = 0xFFFFFFFF"
definition sizeof_allocdetail :: u32 where "sizeof_allocdetail = 44"
definition BUILD_MIN_HIGHTABLE :: u32 where "BUILD_MIN_HIGHTABLE = 256 * 1024"
definition BUILD_MAX_HIGHTABLE :: u32 where "BUILD_MAX_HIGHTABLE = 16 * 1024 * 1024"

fun alloc_scan :: "u32 \<Rightarrow> u32 \<Rightarrow> node \<Rightarrow> allocinfo list \<Rightarrow> (u32 \<times> allocinfo list) option" where
  "alloc_scan sz align fill [] = None"
| "alloc_scan sz align fill (info # infos) =
     (let alloc_end = range_start info + alloc_size info;
          new_range_end = ALIGN_DOWN (range_end info - sz) align
      in if new_range_end \<ge> alloc_end \<and> new_range_end \<le> range_end info then
           Some (new_range_end,
             \<lparr>ai_node = fill, range_start = new_range_end, range_end = range_end info, alloc_size = sz\<rparr>
             # info\<lparr>range_end := new_range_end\<rparr> # infos)
         else map_option (\<lambda>(a, l). (a, info # l)) (alloc_scan sz align fill infos))"

definition alloc_new :: "zone \<Rightarrow> u32 \<Rightarrow> u32 \<Rightarrow> node \<Rightarrow> sea_heap \<Rightarrow> u32 \<times> sea_heap" where
  "alloc_new z sz align fill h =
     (case alloc_scan sz align fill (zones h z) of
        None \<Rightarrow> (0, h)
      | Some (a, l) \<Rightarrow> (a, h\<lparr>zones := (zones h)(z := l)\<rparr>))"

text \<open>\<^verbatim>\<open>hlist_replace\<close> of the two temporary nodes by those of the structure at \<open>detail\<close>.\<close>

definition settle :: "u32 \<Rightarrow> allocinfo \<Rightarrow> allocinfo" where
  "settle detail i = (case ai_node i of
     TempDetail \<Rightarrow> i\<lparr>ai_node := Node detail\<rparr>
   | TempData \<Rightarrow> i\<lparr>ai_node := Node (detail + 20)\<rparr>
   | Node a \<Rightarrow> i)"

definition alloc_new_detail :: "u32 \<Rightarrow> sea_heap \<Rightarrow> u32 \<times> sea_heap" where
  "alloc_new_detail handle h =
     (let (a, h) = alloc_new ZoneTmpHigh sizeof_allocdetail MALLOC_MIN_ALIGN TempDetail h;
          (a, h) = (if a = 0 then alloc_new ZoneTmpLow sizeof_allocdetail MALLOC_MIN_ALIGN TempDetail h
                    else (a, h))
      in if a = 0 then (0, h)
         else (a, h\<lparr>zones := (\<lambda>z. map (settle a) (zones h z)), handles := (handles h)(a := handle)\<rparr>))"

fun zone_insert :: "allocinfo \<Rightarrow> allocinfo list \<Rightarrow> allocinfo list" where
  "zone_insert new [] = [new]"
| "zone_insert new (info # infos) =
     (if range_start info < range_start new then new # info # infos
      else info # zone_insert new infos)"

definition alloc_add :: "zone \<Rightarrow> u32 \<Rightarrow> u32 \<Rightarrow> sea_heap \<Rightarrow> sea_heap" where
  "alloc_add z start en h =
     (let new = \<lparr>ai_node = TempData, range_start = start, range_end = en, alloc_size = 0\<rparr>;
          h = h\<lparr>zones := (zones h)(z := zone_insert new (zones h z))\<rparr>;
          (detail, h) = alloc_new_detail MALLOC_DEFAULT_HANDLE h
      in if detail = 0 then h\<lparr>zones := (\<lambda>z. filter (\<lambda>i. ai_node i \<noteq> TempData) (zones h z))\<rparr> else h)"

fun free_node :: "node \<Rightarrow> allocinfo list \<Rightarrow> allocinfo list" where
  "free_node n [] = []"
| "free_node n (info # infos) =
     (if ai_node info = n then
        (case infos of
           [] \<Rightarrow> []
         | next # rest \<Rightarrow>
             (if range_end next = range_start info then next\<lparr>range_end := range_end info\<rparr> else next) # rest)
      else info # free_node n infos)"

definition alloc_free :: "node \<Rightarrow> sea_heap \<Rightarrow> sea_heap" where
  "alloc_free n h = h\<lparr>zones := (\<lambda>z. free_node n (zones h z))\<rparr>"

definition alloc_find :: "u32 \<Rightarrow> sea_heap \<Rightarrow> allocinfo option" where
  "alloc_find data h = find (\<lambda>i. range_start i = data) (concat (map (zones h) Zones))"

definition alloc_find_lowest :: "zone \<Rightarrow> sea_heap \<Rightarrow> allocinfo option" where
  "alloc_find_lowest z h = fold (\<lambda>info last. Some info) (zones h z) None"

section \<open>Tracked allocations\<close>

definition malloc_palloc :: "zone \<Rightarrow> u32 \<Rightarrow> u32 \<Rightarrow> sea_heap \<Rightarrow> u32 \<times> sea_heap" where
  "malloc_palloc z sz align h =
     (if sz = 0 then (0, h)
      else
        let (data, h) = alloc_new z sz align TempData h in
        if data = 0 then (0, h)
        else
          let (detail, h) = alloc_new_detail MALLOC_DEFAULT_HANDLE h in
          if detail = 0 then (0, alloc_free TempData h) else (data, h))"

text \<open>The node of \<^verbatim>\<open>detailinfo\<close>, from the node of \<^verbatim>\<open>datainfo\<close> in the same structure.\<close>

definition detail_node :: "node \<Rightarrow> node" where
  "detail_node n = (case n of Node a \<Rightarrow> Node (a - 20) | _ \<Rightarrow> TempDetail)"

definition malloc_pfree :: "u32 \<Rightarrow> sea_heap \<Rightarrow> int \<times> sea_heap" where
  "malloc_pfree data h =
     (case alloc_find data h of
        None \<Rightarrow> (- 1, h)
      | Some info \<Rightarrow>
          if ai_node info = Node data \<or> alloc_size info = 0 then (- 1, h)
          else (0, alloc_free (detail_node (ai_node info)) (alloc_free (ai_node info) h)))"

definition malloc_getspace :: "zone \<Rightarrow> sea_heap \<Rightarrow> u32" where
  "malloc_getspace z h =
     (let maxspace = fold (\<lambda>info maxspace.
            let space = range_end info - range_start info - alloc_size info
            in if space > maxspace then space else maxspace) (zones h z) 0
      in if z \<noteq> ZoneTmpHigh \<and> z \<noteq> ZoneTmpLow then maxspace
         else let reserve = ALIGN sizeof_allocdetail MALLOC_MIN_ALIGN in
           if maxspace \<le> reserve then 0 else maxspace - reserve)"

definition malloc_sethandle :: "u32 \<Rightarrow> u32 \<Rightarrow> sea_heap \<Rightarrow> sea_heap" where
  "malloc_sethandle data handle h =
     (case alloc_find data h of
        None \<Rightarrow> h
      | Some info \<Rightarrow>
          if ai_node info = Node data \<or> alloc_size info = 0 then h
          else (case detail_node (ai_node info) of
                  Node a \<Rightarrow> h\<lparr>handles := (handles h)(a := handle)\<rparr>
                | _ \<Rightarrow> h))"

definition find_node :: "node \<Rightarrow> sea_heap \<Rightarrow> allocinfo option" where
  "find_node n h = find (\<lambda>i. ai_node i = n) (concat (map (zones h) Zones))"

fun findhandle_scan :: "u32 \<Rightarrow> sea_heap \<Rightarrow> allocinfo list \<Rightarrow> u32" where
  "findhandle_scan handle h [] = 0"
| "findhandle_scan handle h (info # infos) =
     (if Node (range_start info) \<noteq> ai_node info then findhandle_scan handle h infos
      else if handles h (range_start info) = handle then
        (case find_node (Node (range_start info + 20)) h of
           Some datainfo \<Rightarrow> range_start datainfo
         | None \<Rightarrow> 0)
      else findhandle_scan handle h infos)"

definition malloc_findhandle :: "u32 \<Rightarrow> sea_heap \<Rightarrow> u32" where
  "malloc_findhandle handle h = findhandle_scan handle h (concat (map (zones h) Zones))"

section \<open>The option ROM area\<close>

definition OPROM_HEADER_RESERVE :: u32 where "OPROM_HEADER_RESERVE = 16"
definition OPTION_ROM_ALIGN :: u32 where "OPTION_ROM_ALIGN = 2048"
definition OPTION_ROM_SIGNATURE :: u16 where "OPTION_ROM_SIGNATURE = 0xAA55"
definition BUILD_ROM_START :: u32 where "BUILD_ROM_START = 0xC0000"
definition BUILD_LOWRAM_END :: u32 where "BUILD_LOWRAM_END = 0xA0000"
definition BUILD_BIOS_ADDR :: u32 where "BUILD_BIOS_ADDR = 0xF0000"
definition BUILD_BIOS_SIZE :: u32 where "BUILD_BIOS_SIZE = 0x10000"
definition BUILD_STACK_ADDR :: u32 where "BUILD_STACK_ADDR = 0x7000"
definition BUILD_EBDA_MINIMUM :: u32 where "BUILD_EBDA_MINIMUM = 0x90000"
definition PAGE_SIZE :: u32 where "PAGE_SIZE = 4096"

record link_layout =
  zonelow_base :: u32
  final_varlow_start :: u32
  varlow_start :: u32
  varlow_end :: u32
  zonefseg_start :: u32
  zonefseg_end :: u32

definition rom_base_info :: "sea_heap \<Rightarrow> allocinfo option" where
  "rom_base_info h = (case RomBase h of None \<Rightarrow> None | Some n \<Rightarrow> find_node n h)"

text \<open>\<open>None\<close> stands for following the pointer \<^verbatim>\<open>RomBase\<close> before \<^verbatim>\<open>malloc_init\<close> has set it.\<close>

definition rom_get_max :: "sea_heap \<Rightarrow> u32 option" where
  "rom_get_max h =
     map_option (\<lambda>i. ALIGN_DOWN (range_end i - OPROM_HEADER_RESERVE) OPTION_ROM_ALIGN) (rom_base_info h)"

definition rom_get_last :: "sea_heap \<Rightarrow> u32" where
  "rom_get_last h = RomEnd h"

definition set_range_start :: "node \<Rightarrow> u32 \<Rightarrow> sea_heap \<Rightarrow> sea_heap" where
  "set_range_start n v h =
     h\<lparr>zones := (\<lambda>z. map (\<lambda>i. if ai_node i = n then i\<lparr>range_start := v\<rparr> else i) (zones h z))\<rparr>"

text \<open>The result is the pointer, \<open>None\<close> for \<^verbatim>\<open>NULL\<close>.\<close>

definition rom_reserve :: "link_layout \<Rightarrow> u32 \<Rightarrow> sea_heap \<Rightarrow> (u32 option \<times> sea_heap) option" where
  "rom_reserve L sz h =
     (let newend = ALIGN (RomEnd h + sz) OPTION_ROM_ALIGN in
      case rom_get_max h of
        None \<Rightarrow> None
      | Some rommax \<Rightarrow>
          if newend > rommax then Some (None, h)
          else
            let newend = (if newend < zonelow_base L then zonelow_base L else newend)
            in Some (Some (RomEnd h),
                 set_range_start (the (RomBase h)) (newend + OPROM_HEADER_RESERVE) h))"

definition rom_confirm :: "link_layout \<Rightarrow> u32 \<Rightarrow> sea_heap \<Rightarrow> (int \<times> sea_heap) option" where
  "rom_confirm L sz h =
     (case rom_reserve L sz h of
        None \<Rightarrow> None
      | Some (None, h) \<Rightarrow> Some (- 1, h)
      | Some (Some _, h) \<Rightarrow> Some (0, h\<lparr>RomEnd := ALIGN (RomEnd h + sz) OPTION_ROM_ALIGN\<rparr>))"

section \<open>Setup\<close>

text \<open>
  The loop of \<^verbatim>\<open>malloc_preinit\<close> over the memory map from its end: the entry the high zone is cut
  from, and the ranges added to the temporary high zone.
\<close>

fun preinit_scan :: "e820entry list \<Rightarrow> u32 \<Rightarrow> u32 \<Rightarrow> sea_heap \<Rightarrow> u32 \<times> u32 \<times> sea_heap" where
  "preinit_scan [] highram_start highram_size h = (highram_start, highram_size, h)"
| "preinit_scan (entry # entries) highram_start highram_size h =
     (let en = e_start entry + e_size entry in
      if en < 1024 * 1024 then (highram_start, highram_size, h)
      else if e_type entry \<noteq> E820_RAM \<or> en > 0xFFFFFFFF then
        preinit_scan entries highram_start highram_size h
      else
        let s = ucast (e_start entry) :: u32; e = ucast en :: u32;
            new_max = ALIGN_DOWN (e - BUILD_MAX_HIGHTABLE) MALLOC_MIN_ALIGN;
            new_min = ALIGN_DOWN (e - BUILD_MIN_HIGHTABLE) MALLOC_MIN_ALIGN;
            (highram_start, highram_size, e) =
              (if highram_start \<noteq> 0 then (highram_start, highram_size, e)
               else if new_max \<le> e \<and> new_max \<ge> s + BUILD_MAX_HIGHTABLE then
                 (new_max, BUILD_MAX_HIGHTABLE, new_max)
               else if new_min \<le> e \<and> new_min \<ge> s then (new_min, BUILD_MIN_HIGHTABLE, new_min)
               else (highram_start, highram_size, e))
        in preinit_scan entries highram_start highram_size (alloc_add ZoneTmpHigh s e h))"

definition malloc_preinit :: "sea_map \<Rightarrow> sea_heap \<Rightarrow> sea_map \<times> sea_heap" where
  "malloc_preinit em h =
     (let em = sea_e820_remove (ucast BUILD_LOWRAM_END) (ucast (BUILD_BIOS_ADDR - BUILD_LOWRAM_END)) em;
          em = sea_e820_add (ucast BUILD_BIOS_ADDR) (ucast BUILD_BIOS_SIZE) E820_RESERVED em;
          (highram_start, highram_size, h) =
            preinit_scan (rev (take (e820_count em) (e820_list em))) 0 0 h;
          h = alloc_add ZoneTmpLow BUILD_STACK_ADDR BUILD_EBDA_MINIMUM h
      in if highram_start \<noteq> 0 then
           (sea_e820_add (ucast highram_start) (ucast highram_size) E820_RESERVED em,
            alloc_add ZoneHigh highram_start (highram_start + highram_size) h)
         else (em, h))"

definition malloc_csm_preinit :: "u32 \<Rightarrow> u32 \<Rightarrow> u32 \<Rightarrow> u32 \<Rightarrow> sea_heap \<Rightarrow> sea_heap" where
  "malloc_csm_preinit low_pmm low_pmm_size hi_pmm hi_pmm_size h =
     (let h = (if hi_pmm_size > BUILD_MIN_HIGHTABLE then
                 let hi_pmm_end = hi_pmm + hi_pmm_size;
                     h = alloc_add ZoneTmpHigh hi_pmm (hi_pmm_end - BUILD_MIN_HIGHTABLE) h
                 in alloc_add ZoneHigh (hi_pmm_end - BUILD_MIN_HIGHTABLE) hi_pmm_end h
               else alloc_add ZoneTmpHigh hi_pmm (hi_pmm + hi_pmm_size) h)
      in alloc_add ZoneTmpLow low_pmm (low_pmm + low_pmm_size) h)"

fun calc_scan :: "e820entry list \<Rightarrow> u32" where
  "calc_scan [] = 0"
| "calc_scan (entry # entries) =
     (let en = e_start entry + e_size entry; t = e_type entry in
      if en \<le> 0xFFFFFFFF \<and> (t = E820_ACPI \<or> t = E820_RAM) then ucast en else calc_scan entries)"

definition calcRamSize :: "sea_map \<Rightarrow> sea_heap \<Rightarrow> sea_heap" where
  "calcRamSize em h =
     (let rs = calc_scan (rev (take (e820_count em) (e820_list em)))
      in h\<lparr>LegacyRamSize := (if rs \<ge> 1024 * 1024 then rs else 1024 * 1024)\<rparr>)"

definition malloc_init :: "link_layout \<Rightarrow> sea_map \<Rightarrow> mem \<Rightarrow> sea_heap \<Rightarrow> mem \<times> sea_heap" where
  "malloc_init L em m h =
     (let m = block_copy (unat (final_varlow_start L)) (unat (varlow_start L))
                (unat (varlow_end L - varlow_start L)) m;
          h = alloc_add ZoneLow (zonelow_base L + OPROM_HEADER_RESERVE) (final_varlow_start L) h;
          h = h\<lparr>RomBase := map_option ai_node (alloc_find_lowest ZoneLow h)\<rparr>;
          m = block_fill (unat (zonefseg_start L)) 0 (unat (zonefseg_end L - zonefseg_start L)) m;
          h = alloc_add ZoneFSeg (zonefseg_start L) (zonefseg_end L) h
      in (m, calcRamSize em h))"

text \<open>\<open>None\<close> stands for following a null pointer: no ROM base, or no F-segment zone.\<close>

definition malloc_prepboot :: "sea_map \<Rightarrow> mem \<Rightarrow> sea_heap \<Rightarrow> (sea_map \<times> mem \<times> sea_heap) option" where
  "malloc_prepboot em m h =
     (case (rom_get_max h, alloc_find_lowest ZoneFSeg h) of
        (Some base, Some fseg) \<Rightarrow>
          let m = block_fill (unat (RomEnd h)) 0 (unat (base - RomEnd h)) m;
              m = store16 (unat base) OPTION_ROM_SIGNATURE m;
              sz = (BUILD_BIOS_ADDR - base) div 512;
              m = m(unat base + 2 := (if sz > 255 then 255 else ucast sz));
              endlow = ucast (load16 m 0x413) * 1024 :: u32;
              em = sea_e820_add (ucast endlow) (ucast (BUILD_LOWRAM_END - endlow)) E820_RESERVED em;
              m = block_fill (unat (range_start fseg)) 0 (unat (range_end fseg - range_start fseg)) m;
              em = (case alloc_find_lowest ZoneHigh h of
                      None \<Rightarrow> em
                    | Some info \<Rightarrow>
                        sea_e820_add (ucast (range_start info))
                          (ucast (ALIGN_DOWN (range_end info - range_start info) PAGE_SIZE)) E820_RAM em)
          in Some (em, m, calcRamSize em h)
      | _ \<Rightarrow> None)"

section \<open>Zones\<close>

text \<open>
  A well-formed zone: what an entry has allocated lies in its range, and the ranges descend
  without overlap.  The block of an entry is the allocated part at the start of its range.
\<close>

fun zone_wf :: "allocinfo list \<Rightarrow> bool" where
  "zone_wf [] \<longleftrightarrow> True"
| "zone_wf (i # is) \<longleftrightarrow>
     unat (range_start i) + unat (alloc_size i) \<le> unat (range_end i) \<and>
     (\<forall>j \<in> set is. range_end j \<le> range_start i) \<and> zone_wf is"

definition block :: "allocinfo \<Rightarrow> nat set" where
  "block i = {unat (range_start i) ..< unat (range_start i) + unat (alloc_size i)}"

definition free_part :: "allocinfo \<Rightarrow> nat set" where
  "free_part i = {unat (range_start i) + unat (alloc_size i) ..< unat (range_end i)}"

lemma unat_ALIGN_DOWN:
  assumes "k < 32"
  shows "unat (ALIGN_DOWN x (2 ^ k)) = unat x - unat x mod 2 ^ k"
  using unat_and_not_mask [of x k] by (simp add: ALIGN_DOWN_def mask_eq_exp_minus_1)

text \<open>
  The comparison with the end of the range rejects a size beyond it, although the
  subtraction wraps around: sizes are below 2 GiB and the alignment is a power of two.
\<close>

lemma alloc_fits:
  assumes "ALIGN_DOWN (re - sz) (2 ^ k) \<le> re" "k < 32" "unat sz < 2 ^ 31"
  shows "unat sz \<le> unat re"
    and "unat (ALIGN_DOWN (re - sz) (2 ^ k)) = unat re - unat sz - (unat re - unat sz) mod 2 ^ k"
proof -
  show le: "unat sz \<le> unat re"
  proof (rule ccontr)
    assume less: "\<not> unat sz \<le> unat re"
    then have "unat (re - sz) = 2 ^ 32 + unat re - unat sz"
      by (simp add: unat_sub_if_size word_size)
    then have big: "2 ^ 31 \<le> unat (re - sz)" using assms(3) less by simp
    have "(2 :: nat) ^ 31 = 2 ^ k * 2 ^ (31 - k)" using assms(2) by (simp flip: power_add)
    then have "2 ^ 31 \<le> unat (re - sz) - unat (re - sz) mod 2 ^ k"
      using big by (metis dvd_triv_left minus_mod_eq_mult_div mult_le_mono2 div_le_mono
          nonzero_mult_div_cancel_left power_not_zero zero_neq_numeral)
    moreover have "unat (ALIGN_DOWN (re - sz) (2 ^ k)) \<le> unat re"
      using assms(1) by (simp add: word_le_nat_alt)
    ultimately show False using less assms(2,3) by (simp add: unat_ALIGN_DOWN)
  qed
  then have "unat (re - sz) = unat re - unat sz" by (simp add: unat_sub word_le_nat_alt)
  then show "unat (ALIGN_DOWN (re - sz) (2 ^ k)) = unat re - unat sz - (unat re - unat sz) mod 2 ^ k"
    using assms(2) by (simp add: unat_ALIGN_DOWN)
qed

lemma zone_wf_range: "zone_wf l \<Longrightarrow> i \<in> set l \<Longrightarrow> unat (range_start i) + unat (alloc_size i) \<le> unat (range_end i)"
  by (induction l) auto

lemma zone_disjoint: "zone_wf l \<Longrightarrow> i \<in> set l \<Longrightarrow> j \<in> set l \<Longrightarrow> free_part i \<inter> block j = {}"
proof (induction l)
  case (Cons x l)
  have "free_part a \<inter> block b = {}"
    if "a \<in> set l \<and> b = x \<or> a = x \<and> b \<in> set l" for a b
    using that Cons.prems(1) zone_wf_range [of l] by (fastforce simp: free_part_def block_def word_le_nat_alt)
  moreover have "free_part x \<inter> block x = {}" by (auto simp: free_part_def block_def)
  ultimately show ?case using Cons by auto
qed simp

lemma alloc_scan_ends:
  "alloc_scan sz al n l = Some (a, l') \<Longrightarrow> \<forall>j \<in> set l'. \<exists>i \<in> set l. range_end j \<le> range_end i"
proof (induction l arbitrary: l')
  case (Cons x l)
  show ?case
  proof (cases "ALIGN_DOWN (range_end x - sz) al \<ge> range_start x + alloc_size x \<and>
      ALIGN_DOWN (range_end x - sz) al \<le> range_end x")
    case True
    with Cons.prems show ?thesis by (auto simp: Let_def)
  next
    case False
    then obtain l1 where "alloc_scan sz al n l = Some (a, l1)" "l' = x # l1"
      using Cons.prems by (auto simp: Let_def)
    with Cons.IH [of l1] show ?thesis by auto
  qed
qed simp

lemma alloc_scan_correct:
  assumes "alloc_scan sz (2 ^ k) n l = Some (a, l')" "zone_wf l" "k < 32" "unat sz < 2 ^ 31"
  shows "zone_wf l' \<and> unat a mod 2 ^ k = 0 \<and>
    (\<exists>i \<in> set l. {unat a ..< unat a + unat sz} \<subseteq> free_part i \<and> unat (range_start i) + unat (alloc_size i) \<le> unat a) \<and>
    \<Union> (block ` set l') = \<Union> (block ` set l) \<union> {unat a ..< unat a + unat sz}"
  using assms
proof (induction l arbitrary: l')
  case (Cons x l)
  let ?new = "ALIGN_DOWN (range_end x - sz) (2 ^ k)"
  have ok: "unat (range_start x) + unat (alloc_size x) \<le> unat (range_end x)"
    "\<forall>j \<in> set l. range_end j \<le> range_start x" "zone_wf l" using Cons.prems(2) by auto
  have ae: "unat (range_start x + alloc_size x) = unat (range_start x) + unat (alloc_size x)"
    using ok(1) unat_bound(3) [of "range_end x"] by (simp add: unat_word_ariths del: unat_bound)
  show ?case
  proof (cases "?new \<ge> range_start x + alloc_size x \<and> ?new \<le> range_end x")
    case True
    then have new: "a = ?new" "l' = \<lparr>ai_node = n, range_start = ?new, range_end = range_end x, alloc_size = sz\<rparr>
        # x\<lparr>range_end := ?new\<rparr> # l"
      using Cons.prems(1) by (auto simp: Let_def)
    note fit = alloc_fits [OF _ Cons.prems(3,4), of "range_end x"]
    have le: "unat ?new + unat sz \<le> unat (range_end x)"
      and ge: "unat (range_start x) + unat (alloc_size x) \<le> unat ?new"
      using True fit ae by (auto simp: word_le_nat_alt)
    have "unat ?new mod 2 ^ k = 0"
      using True fit(2) by (simp add: minus_mod_eq_mult_div)
    moreover have "zone_wf l'"
      using ok le ge by (auto simp: new word_le_nat_alt)
    moreover have "{unat a ..< unat a + unat sz} \<subseteq> free_part x"
      using le ge by (auto simp: new free_part_def)
    ultimately show ?thesis
      using ge by (auto simp: new block_def)
  next
    case False
    then obtain l1 where l1: "alloc_scan sz (2 ^ k) n l = Some (a, l1)" "l' = x # l1"
      using Cons.prems(1) by (auto simp: Let_def)
    have "range_end j \<le> range_start x" if "j \<in> set l1" for j
      using alloc_scan_ends [OF l1(1)] ok(2) that by (meson order_trans)
    with Cons.IH [OF l1(1) ok(3) Cons.prems(3,4)] ok l1(2) show ?thesis by auto
  qed
qed simp

lemma alloc_scan_free:
  "alloc_scan sz al n l = Some (a, l') \<Longrightarrow> n \<notin> ai_node ` set l \<Longrightarrow> free_node n l' = l"
proof (induction l arbitrary: l')
  case (Cons x l)
  show ?case
  proof (cases "ALIGN_DOWN (range_end x - sz) al \<ge> range_start x + alloc_size x \<and>
      ALIGN_DOWN (range_end x - sz) al \<le> range_end x")
    case True
    with Cons.prems show ?thesis by (auto simp: Let_def)
  next
    case False
    then obtain l1 where "alloc_scan sz al n l = Some (a, l1)" "l' = x # l1"
      using Cons.prems by (auto simp: Let_def)
    with Cons.IH [of l1] Cons.prems(2) show ?thesis by auto
  qed
qed simp

lemma alloc_scan_complete:
  assumes "i \<in> set l" "zone_wf l" "k < 32"
    and "unat (range_start i) + unat (alloc_size i) + unat sz + 2 ^ k - 1 \<le> unat (range_end i)"
  shows "alloc_scan sz (2 ^ k) n l \<noteq> None"
  using assms
proof (induction l)
  case (Cons x l)
  show ?case
  proof (cases "i = x")
    case True
    let ?new = "ALIGN_DOWN (range_end x - sz) (2 ^ k)"
    have "0 < (2 :: nat) ^ k" by simp
    then have sz: "unat sz \<le> unat (range_end x)" using Cons.prems(4) [unfolded True] by linarith
    have "unat (range_end x - sz) = unat (range_end x) - unat sz"
      using sz by (simp add: unat_sub word_le_nat_alt)
    then have new: "unat ?new = unat (range_end x) - unat sz - (unat (range_end x) - unat sz) mod 2 ^ k"
      using Cons.prems(3) by (simp add: unat_ALIGN_DOWN)
    have "(unat (range_end x) - unat sz) mod 2 ^ k < 2 ^ k" by simp
    then have "unat (range_start x) + unat (alloc_size x) \<le> unat ?new"
      using Cons.prems(4) [unfolded True] new by linarith
    moreover have "unat (range_start x + alloc_size x) = unat (range_start x) + unat (alloc_size x)"
      using zone_wf_range [OF Cons.prems(2), of x] unat_bound(3) [of "range_end x"]
      by (simp add: unat_word_ariths del: unat_bound)
    ultimately have "?new \<ge> range_start x + alloc_size x \<and> ?new \<le> range_end x"
      using new by (simp add: word_le_nat_alt)
    then show ?thesis by (simp add: Let_def)
  next
    case False
    with Cons show ?thesis by (auto simp: Let_def)
  qed
qed simp

lemma free_node_ends: "j \<in> set (free_node n l) \<Longrightarrow> \<exists>i \<in> set l. range_end j \<le> range_end i"
proof (induction l)
  case (Cons x l)
  show ?case
  proof (cases "ai_node x = n")
    case True
    with Cons.prems show ?thesis by (cases l) (auto split: if_splits)
  next
    case False
    with Cons show ?thesis by auto
  qed
qed simp

lemma free_node_wf: "zone_wf l \<Longrightarrow> zone_wf (free_node n l)"
proof (induction l)
  case (Cons x l)
  show ?case
  proof (cases "ai_node x = n")
    case True
    show ?thesis
    proof (cases l)
      case (Cons y ys)
      with True Cons.prems show ?thesis
        by (auto simp: word_le_nat_alt)
    qed (use True in simp)
  next
    case False
    have "range_end j \<le> range_start x" if "j \<in> set (free_node n l)" for j
      using free_node_ends [OF that] Cons.prems by (auto intro: order_trans)
    with False Cons show ?thesis by simp
  qed
qed simp

lemma zone_wf_map_settle: "zone_wf (map (settle a) l) \<longleftrightarrow> zone_wf l"
proof -
  have "range_start (settle a i) = range_start i \<and> range_end (settle a i) = range_end i \<and>
      alloc_size (settle a i) = alloc_size i" for i
    by (simp add: settle_def split: node.splits)
  then show ?thesis by (induction l) auto
qed

lemma block_settle [simp]: "block (settle a i) = block i"
  by (simp add: block_def settle_def split: node.splits)

definition heap_wf :: "sea_heap \<Rightarrow> bool" where
  "heap_wf h \<longleftrightarrow> (\<forall>z. zone_wf (zones h z))"

definition used :: "zone \<Rightarrow> sea_heap \<Rightarrow> nat set" where
  "used z h = \<Union> (block ` set (zones h z))"

lemma alloc_new_correct:
  assumes "heap_wf h" "alloc_new z sz (2 ^ k) n h = (a, h')" "k < 32" "unat sz < 2 ^ 31"
  shows "heap_wf h' \<and> (a = 0 \<or> unat a mod 2 ^ k = 0 \<and> used z h' = used z h \<union> {unat a ..< unat a + unat sz} \<and>
    used z h \<inter> {unat a ..< unat a + unat sz} = {} \<and> unat a + unat sz \<le> 2 ^ 32) \<and>
    (\<forall>z'. used z h \<subseteq> used z h') \<and> (\<forall>z'. z' \<noteq> z \<longrightarrow> zones h' z' = zones h z')"
proof (cases "alloc_scan sz (2 ^ k) n (zones h z)")
  case None
  with assms show ?thesis by (auto simp: alloc_new_def)
next
  case (Some p)
  obtain b l where p: "p = (b, l)" by (cases p)
  with Some assms(2) have h': "a = b" "h' = h\<lparr>zones := (zones h)(z := l)\<rparr>" by (simp_all add: alloc_new_def)
  have wf: "zone_wf (zones h z)" using assms(1) by (simp add: heap_wf_def)
  note c = alloc_scan_correct [OF Some [unfolded p] wf assms(3,4)]
  then obtain i where i: "i \<in> set (zones h z)" "{unat b ..< unat b + unat sz} \<subseteq> free_part i"
    "unat (range_start i) + unat (alloc_size i) \<le> unat b" by blast
  have "used z h \<inter> {unat b ..< unat b + unat sz} = {}"
    using zone_disjoint [OF wf i(1)] i(2) by (auto simp: used_def)
  moreover have "unat b + unat sz \<le> 2 ^ 32"
    using i(2) unat_bound(3) [of "range_end i"] unat_bound(3) [of b]
    by (cases "unat sz") (auto simp: free_part_def atLeastLessThan_subset_iff simp del: unat_bound)
  moreover have "heap_wf h'" using c assms(1) by (auto simp: h' heap_wf_def)
  moreover have "used z h' = used z h \<union> {unat b ..< unat b + unat sz}"
    using c by (simp add: h' used_def)
  ultimately show ?thesis using c by (auto simp: h')
qed

lemma alloc_new_detail_correct:
  assumes "heap_wf h" "alloc_new_detail hdl h = (a, h')"
  shows "heap_wf h' \<and> (\<forall>z. used z h \<subseteq> used z h')"
proof -
  have c: "MALLOC_MIN_ALIGN = 2 ^ 4" "unat sizeof_allocdetail < 2 ^ 31"
    by (simp_all add: MALLOC_MIN_ALIGN_def sizeof_allocdetail_def)
  have mono: "heap_wf x' \<and> (\<forall>z. used z x \<subseteq> used z x')"
    if "heap_wf x" "alloc_new z sizeof_allocdetail MALLOC_MIN_ALIGN TempDetail x = (b, x')" for x x' z b
  proof -
    have "used y x \<subseteq> used y x'" for y
      using alloc_new_correct [of x z sizeof_allocdetail 4 TempDetail b x'] that c
      by (cases "y = z") (auto simp: used_def)
    then show ?thesis
      using alloc_new_correct [of x z sizeof_allocdetail 4 TempDetail b x'] that c by simp
  qed
  have settle: "heap_wf (x\<lparr>zones := \<lambda>z. map (settle b) (zones x z), handles := f\<rparr>) = heap_wf x"
    "used z (x\<lparr>zones := \<lambda>z. map (settle b) (zones x z), handles := f\<rparr>) = used z x" for x b f z
    by (simp_all add: heap_wf_def zone_wf_map_settle used_def image_image)
  obtain a1 h1 where 1: "alloc_new ZoneTmpHigh sizeof_allocdetail MALLOC_MIN_ALIGN TempDetail h = (a1, h1)"
    by (rule prod.exhaust)
  obtain a2 h2 where 2: "(if a1 = 0 then alloc_new ZoneTmpLow sizeof_allocdetail MALLOC_MIN_ALIGN TempDetail h1
      else (a1, h1)) = (a2, h2)" by (rule prod.exhaust)
  have "heap_wf h1 \<and> (\<forall>z. used z h \<subseteq> used z h1)" using mono [OF assms(1) 1] .
  moreover have "heap_wf h2 \<and> (\<forall>z. used z h1 \<subseteq> used z h2)"
  proof (cases "a1 = 0")
    case True
    then show ?thesis using mono [of h1 ZoneTmpLow a2 h2] calculation 2 by simp
  next
    case False
    then show ?thesis using calculation 2 by simp
  qed
  moreover have "h' = h2 \<or> (\<exists>f. h' = h2\<lparr>zones := \<lambda>z. map (settle a2) (zones h2 z), handles := f\<rparr>)"
    using assms(2) by (simp only: alloc_new_detail_def 1 2 prod.case Let_def) (auto split: if_splits)
  moreover have "used z h' = used z h2" "heap_wf h' = heap_wf h2" for z
    using calculation(3) by (auto simp: settle)
  moreover have "used z h \<subseteq> used z h2" for z
    using calculation(1,2) by (meson order_trans)
  ultimately show ?thesis by simp
qed

lemma alloc_free_wf: "heap_wf h \<Longrightarrow> heap_wf (alloc_free n h)"
  by (simp add: heap_wf_def alloc_free_def free_node_wf)

text \<open>The largest free part of a zone is the free part of one of its entries.\<close>

lemma fold_space:
  "fold (\<lambda>i mx. let s = f i in if s > mx then s else mx) l m = (r :: u32) \<Longrightarrow>
   r = m \<or> (\<exists>i \<in> set l. r = f i)"
  by (induction l arbitrary: m) (auto simp: Let_def split: if_splits)

lemma free_space_nat:
  "zone_wf l \<Longrightarrow> i \<in> set l \<Longrightarrow>
   unat (range_end i - range_start i - alloc_size i) =
     unat (range_end i) - unat (range_start i) - unat (alloc_size i)"
  using zone_wf_range [of l i] by (simp add: unat_sub word_le_nat_alt)

lemma getspace_entry:
  assumes "heap_wf h" "z \<noteq> ZoneTmpHigh" "z \<noteq> ZoneTmpLow" "malloc_getspace z h \<noteq> 0"
  shows "\<exists>i \<in> set (zones h z). unat (malloc_getspace z h) =
    unat (range_end i) - unat (range_start i) - unat (alloc_size i)"
proof -
  have wf: "zone_wf (zones h z)" using assms(1) by (simp add: heap_wf_def)
  have "malloc_getspace z h = 0 \<or> (\<exists>i \<in> set (zones h z).
      malloc_getspace z h = range_end i - range_start i - alloc_size i)"
    using fold_space [where f = "\<lambda>i. range_end i - range_start i - alloc_size i", OF refl]
    assms(2,3) by (simp add: malloc_getspace_def)
  then show ?thesis using assms(4) free_space_nat [OF wf] by auto
qed

lemma find_SomeD: "find P xs = Some x \<Longrightarrow> x \<in> set xs \<and> P x"
  by (metis find_Some_iff nth_mem)

section \<open>The option ROM area\<close>

lemma unat_ALIGN:
  assumes "unat x + 2 ^ k \<le> 2 ^ 32" "k < 32"
  shows "unat x \<le> unat (ALIGN x (2 ^ k))" "unat (ALIGN x (2 ^ k)) mod 2 ^ k = 0"
proof -
  have m: "unat (2 ^ k - 1 :: u32) = 2 ^ k - 1"
    using assms(2) unat_pred [of "2 ^ k :: u32"] unat_pow [of k, where 'a = 32] by auto
  have u: "unat (x + (2 ^ k - 1)) = unat x + (2 ^ k - 1)"
    using assms by (simp add: unat_word_ariths m)
  have a: "unat (ALIGN x (2 ^ k)) = unat x + (2 ^ k - 1) - (unat x + (2 ^ k - 1)) mod 2 ^ k"
    using unat_ALIGN_DOWN [OF assms(2), of "x + (2 ^ k - 1)"] by (simp add: ALIGN_def ALIGN_DOWN_def u)
  show "unat (ALIGN x (2 ^ k)) mod 2 ^ k = 0" by (simp add: a minus_mod_eq_mult_div)
  have "(unat x + (2 ^ k - 1)) mod 2 ^ k \<le> 2 ^ k - 1" by (simp add: less_Suc_eq_le [symmetric])
  then show "unat x \<le> unat (ALIGN x (2 ^ k))" unfolding a by linarith
qed

lemma find_map:
  "(\<And>x. P (f x) = P x) \<Longrightarrow> find P (map f xs) = map_option f (find P xs)"
  by (induction xs) auto

lemma find_node_set_range_start:
  "find_node n (set_range_start n v h) = map_option (\<lambda>i. i\<lparr>range_start := v\<rparr>) (find_node n h)"
proof -
  let ?f = "\<lambda>i. if ai_node i = n then i\<lparr>range_start := v\<rparr> else i"
  have "find_node n (set_range_start n v h) = find (\<lambda>i. ai_node i = n) (map ?f (concat (map (zones h) Zones)))"
    by (simp add: find_node_def set_range_start_def map_concat comp_def)
  also have "\<dots> = map_option ?f (find_node n h)"
    unfolding find_node_def by (rule find_map) simp
  also have "\<dots> = map_option (\<lambda>i. i\<lparr>range_start := v\<rparr>) (find_node n h)"
    using find_SomeD [of "\<lambda>i. ai_node i = n"] by (cases "find_node n h") (auto simp: find_node_def)
  finally show ?thesis .
qed

lemma alloc_free_new:
  assumes "\<forall>z i. i \<in> set (zones h z) \<longrightarrow> ai_node i \<noteq> n" "alloc_new z sz align n h = (a, h')"
  shows "alloc_free n h' = h"
proof -
  have id: "free_node n l = l" if "\<forall>i \<in> set l. ai_node i \<noteq> n" for l
    using that by (induction l) auto
  show ?thesis
  proof (cases "alloc_scan sz align n (zones h z)")
    case None
    with assms have "h' = h" by (simp add: alloc_new_def)
    with assms(1) id show ?thesis by (simp add: alloc_free_def)
  next
    case (Some p)
    obtain b l where p: "p = (b, l)" by (cases p)
    then have "h' = h\<lparr>zones := (zones h)(z := l)\<rparr>" using Some assms(2) by (simp add: alloc_new_def)
    moreover have "free_node n l = zones h z"
      using alloc_scan_free [OF Some [unfolded p]] assms(1) by auto
    ultimately have "zones (alloc_free n h') = zones h"
      using assms(1) id by (auto simp: alloc_free_def fun_eq_iff)
    then show ?thesis using \<open>h' = _\<close> by (simp add: alloc_free_def)
  qed
qed

text \<open>
  Between calls no entry stands for a temporary on the stack, and no zone reaches down to
  address 0, which the allocator uses for failure.
\<close>

definition settled :: "sea_heap \<Rightarrow> bool" where
  "settled h \<longleftrightarrow> (\<forall>z. \<forall>i \<in> set (zones h z). ai_node i \<noteq> TempData \<and> ai_node i \<noteq> TempDetail)"

definition above_zero :: "sea_heap \<Rightarrow> bool" where
  "above_zero h \<longleftrightarrow> (\<forall>z. \<forall>i \<in> set (zones h z). range_start i \<noteq> 0)"

definition heap_ok :: "sea_heap \<Rightarrow> bool" where
  "heap_ok h \<longleftrightarrow> heap_wf h \<and> settled h \<and> above_zero h"

lemma alloc_scan_set:
  "alloc_scan sz align n l = Some (a, l') \<Longrightarrow> j \<in> set l' \<Longrightarrow>
   range_start j = a \<and> ai_node j = n \<or> (\<exists>i \<in> set l. range_start j = range_start i \<and> ai_node j = ai_node i)"
  by (induction l arbitrary: l') (auto simp: Let_def split: if_splits)

lemma alloc_new_above:
  assumes "heap_wf h" "above_zero h" "alloc_new z sz (2 ^ k) n h = (a, h')" "k < 32" "unat sz < 2 ^ 31"
  shows "above_zero h'" "a = 0 \<Longrightarrow> h' = h"
proof -
  have "above_zero h' \<and> (a = 0 \<longrightarrow> h' = h)"
  proof (cases "alloc_scan sz (2 ^ k) n (zones h z)")
    case None
    with assms show ?thesis by (auto simp: alloc_new_def)
  next
    case (Some p)
    obtain b l where p: "p = (b, l)" by (cases p)
    have h': "a = b" "h' = h\<lparr>zones := (zones h)(z := l)\<rparr>" using Some assms(3) p by (simp_all add: alloc_new_def)
    have wf: "zone_wf (zones h z)" using assms(1) by (simp add: heap_wf_def)
    obtain i where i: "i \<in> set (zones h z)" "unat (range_start i) + unat (alloc_size i) \<le> unat b"
      using alloc_scan_correct [OF Some [unfolded p] wf assms(4,5)] by blast
    have "0 < unat (range_start i)" using assms(2) i(1) by (auto simp: above_zero_def unat_gt_0)
    then have "b \<noteq> 0" using i(2) by auto
    then show ?thesis
      using alloc_scan_set [OF Some [unfolded p]] assms(2) by (fastforce simp: h' above_zero_def)
  qed
  then show "above_zero h'" "a = 0 \<Longrightarrow> h' = h" by auto
qed

lemma alloc_new_detail_above:
  assumes "heap_wf h" "above_zero h" "alloc_new_detail hdl h = (a, h')"
  shows "above_zero h'" "a = 0 \<Longrightarrow> h' = h" "a \<noteq> 0 \<Longrightarrow> settled h'"
proof -
  have c: "MALLOC_MIN_ALIGN = 2 ^ 4" "unat sizeof_allocdetail < 2 ^ 31"
    by (simp_all add: MALLOC_MIN_ALIGN_def sizeof_allocdetail_def)
  have st: "ai_node (settle x i) \<noteq> TempData" "ai_node (settle x i) \<noteq> TempDetail"
    "range_start (settle x i) = range_start i" for x i
    by (auto simp: settle_def split: node.splits)
  obtain a1 h1 where 1: "alloc_new ZoneTmpHigh sizeof_allocdetail MALLOC_MIN_ALIGN TempDetail h = (a1, h1)"
    by (rule prod.exhaust)
  obtain a2 h2 where 2: "alloc_new ZoneTmpLow sizeof_allocdetail MALLOC_MIN_ALIGN TempDetail h1 = (a2, h2)"
    by (rule prod.exhaust)
  note A = alloc_new_above [OF assms(1,2) 1 [unfolded c(1)] _ c(2), simplified]
  have wf1: "heap_wf h1" using alloc_new_correct [OF assms(1) 1 [unfolded c(1)] _ c(2)] by simp
  note B = alloc_new_above [OF wf1 A(1) 2 [unfolded c(1)] _ c(2), simplified]
  show "above_zero h'" "a = 0 \<Longrightarrow> h' = h" "a \<noteq> 0 \<Longrightarrow> settled h'"
    using A B assms(3) unfolding alloc_new_detail_def 1 2 Let_def split_beta fst_conv snd_conv
    by (auto simp: 2 settled_def above_zero_def st split: if_splits)
qed

text \<open>
  A tracked allocation: it keeps the heap in order, changes nothing when it fails, and where the
  block comes from.
\<close>

lemma malloc_palloc_ok:
  assumes "heap_ok h" "malloc_palloc z sz (2 ^ k) h = (data, h')" "k < 32" "unat sz < 2 ^ 31"
  shows "heap_ok h'" "data = 0 \<Longrightarrow> h' = h"
proof -
  obtain a h1 where h1: "alloc_new z sz (2 ^ k) TempData h = (a, h1)" by (rule prod.exhaust)
  obtain d h2 where h2: "alloc_new_detail MALLOC_DEFAULT_HANDLE h1 = (d, h2)" by (rule prod.exhaust)
  have ok: "heap_wf h" "settled h" "above_zero h" using assms(1) by (simp_all add: heap_ok_def)
  have wf1: "heap_wf h1" using alloc_new_correct [OF ok(1) h1 assms(3,4)] by simp
  note N = alloc_new_above [OF ok(1,3) h1 assms(3,4)]
  note D = alloc_new_detail_above [OF wf1 N(1) h2]
  have wf2: "heap_wf h2" using alloc_new_detail_correct [OF wf1 h2] by simp
  have undo: "alloc_free TempData h1 = h" using alloc_free_new [OF _ h1] ok(2) by (auto simp: settled_def)
  show "heap_ok h'" "data = 0 \<Longrightarrow> h' = h"
    using assms(1,2) N D wf2 undo by (auto simp: malloc_palloc_def h1 h2 heap_ok_def split: if_splits)
qed

lemma free_node_set:
  "j \<in> set (free_node n l) \<Longrightarrow> \<exists>i \<in> set l. range_start j = range_start i \<and> ai_node j = ai_node i"
  by (induction n l rule: free_node.induct) (auto split: if_splits list.splits)

lemma alloc_free_ok: "heap_ok h \<Longrightarrow> heap_ok (alloc_free n h)"
  by (simp add: heap_ok_def alloc_free_wf)
    (force simp: settled_def above_zero_def alloc_free_def dest: free_node_set)

lemma malloc_pfree_ok: "heap_ok h \<Longrightarrow> malloc_pfree data h = (r, h') \<Longrightarrow> heap_ok h'"
  by (auto simp: malloc_pfree_def alloc_free_ok split: option.splits if_splits)

lemma zones_sethandle [simp]: "zones (malloc_sethandle data handle h) = zones h"
  by (auto simp: malloc_sethandle_def split: option.splits node.splits)

lemma heap_ok_zones: "zones h' = zones h \<Longrightarrow> heap_ok h' = heap_ok h"
  by (simp add: heap_ok_def heap_wf_def settled_def above_zero_def)

lemma malloc_palloc_block:
  assumes "heap_wf h" "malloc_palloc z sz (2 ^ k) h = (data, h')" "k < 32" "unat sz < 2 ^ 31" "data \<noteq> 0"
  shows "unat data mod 2 ^ k = 0" "unat data + unat sz \<le> 2 ^ 32"
    "used z h \<inter> {unat data ..< unat data + unat sz} = {}"
    "{unat data ..< unat data + unat sz} \<subseteq> used z h'" "used y h \<subseteq> used y h'"
proof -
  obtain h1 where h1: "alloc_new z sz (2 ^ k) TempData h = (data, h1)" and
    "\<exists>d. alloc_new_detail MALLOC_DEFAULT_HANDLE h1 = (d, h') \<and> d \<noteq> 0"
    using assms(2,5) by (auto simp: malloc_palloc_def split: prod.splits if_splits)
  then obtain d where d: "alloc_new_detail MALLOC_DEFAULT_HANDLE h1 = (d, h')" by blast
  note a = alloc_new_correct [OF assms(1) h1 assms(3,4)]
  then have m: "used y h1 \<subseteq> used y h'" for y using alloc_new_detail_correct [OF _ d] by simp
  show "unat data mod 2 ^ k = 0" "unat data + unat sz \<le> 2 ^ 32"
    "used z h \<inter> {unat data ..< unat data + unat sz} = {}"
    using a assms(5) by auto
  show "{unat data ..< unat data + unat sz} \<subseteq> used z h'" using a assms(5) m [of z] by auto
  show "used y h \<subseteq> used y h'"
    using a assms(5) m [of y] by (cases "y = z") (auto simp: used_def)
qed

section \<open>Properties\<close>

text \<open>
  C6.  A tracked allocation of less than 2 GiB with power-of-two alignment either fails and leaves
  the heap exactly as it was, or returns an aligned block that does not overlap any block in use in
  its zone and loses no block in use in any zone.  In both cases the heap stays in order.
\<close>

theorem malloc_palloc_safe:
  assumes "heap_ok h" "malloc_palloc z sz (2 ^ k) h = (data, h')" "k < 32" "unat sz < 2 ^ 31"
  shows "heap_ok h' \<and> (data = 0 \<longrightarrow> h' = h) \<and>
    (data \<noteq> 0 \<longrightarrow> unat data mod 2 ^ k = 0 \<and> unat data + unat sz \<le> 2 ^ 32 \<and>
       used z h \<inter> {unat data ..< unat data + unat sz} = {} \<and>
       {unat data ..< unat data + unat sz} \<subseteq> used z h' \<and> (\<forall>y. used y h \<subseteq> used y h'))"
  using malloc_palloc_ok [OF assms] malloc_palloc_block [OF _ assms(2-4)] assms(1)
  by (auto simp: heap_ok_def)

text \<open>A heap with one free range in the high and in the temporary high zone.\<close>

definition heap_example :: sea_heap where
  "heap_example = \<lparr>
     zones = (\<lambda>_. [])(
       ZoneHigh := [\<lparr>ai_node = Node 0x7000020, range_start = 0x6000000, range_end = 0x6040000, alloc_size = 0\<rparr>],
       ZoneTmpHigh := [\<lparr>ai_node = Node 0x7000060, range_start = 0x5000000, range_end = 0x6000000, alloc_size = 0\<rparr>]),
     handles = (\<lambda>_. MALLOC_DEFAULT_HANDLE), RomEnd = 0xC0000, RomBase = None, LegacyRamSize = 0\<rparr>"

lemma heap_example_wf: "heap_wf heap_example"
  by (simp add: heap_wf_def heap_example_def)

lemma heap_example_ok: "heap_ok heap_example"
  by (simp add: heap_ok_def heap_example_wf) (auto simp: settled_def above_zero_def heap_example_def split: if_splits)

theorem malloc_palloc_safe_witness:
  "fst (malloc_palloc ZoneHigh 0x100 16 heap_example) = 0x603FF00 \<and>
   {0x603FF00 ..< 0x6040000} \<subseteq> used ZoneHigh (snd (malloc_palloc ZoneHigh 0x100 16 heap_example))"
proof -
  obtain data h' where p: "malloc_palloc ZoneHigh 0x100 (2 ^ 4) heap_example = (data, h')"
    by (rule prod.exhaust)
  have "fst (malloc_palloc ZoneHigh 0x100 16 heap_example) = 0x603FF00" by code_simp
  with p have "data = 0x603FF00" by simp
  with malloc_palloc_safe [OF heap_example_ok p] p show ?thesis by simp
qed

text \<open>
  C11.  Releasing a reservation right after making it restores the zone exactly: the range is
  merged back into the entry it was cut from.
\<close>

theorem alloc_free_roundtrip:
  assumes "\<forall>z i. i \<in> set (zones h z) \<longrightarrow> ai_node i \<noteq> n" "alloc_new z sz align n h = (a, h')"
  shows "alloc_free n h' = h"
  by (rule alloc_free_new [OF assms])

theorem alloc_free_roundtrip_witness:
  "alloc_free TempData (snd (alloc_new ZoneHigh 0x100 16 TempData heap_example)) = heap_example"
  using alloc_free_roundtrip [of heap_example TempData ZoneHigh "0x100" 16]
  by (cases "alloc_new ZoneHigh 0x100 16 TempData heap_example") (auto simp: heap_example_def split: if_splits)

text \<open>
  C30.  \<^verbatim>\<open>malloc_pfree\<close> keeps every zone well-formed.  It rejects, without touching the heap, an
  address at which no tracked block starts, the bookkeeping structures themselves, and
  the free remainder of a zone.
\<close>

theorem malloc_pfree_safe:
  assumes "heap_wf h" "malloc_pfree data h = (r, h')"
  shows "heap_wf h' \<and> (r = - 1 \<longrightarrow> h' = h) \<and>
    ((\<forall>z. \<forall>i \<in> set (zones h z). range_start i = data \<longrightarrow> ai_node i = Node data \<or> alloc_size i = 0)
      \<longrightarrow> r = - 1)"
proof -
  have "(\<exists>z. i \<in> set (zones h z)) \<and> range_start i = data" if "alloc_find data h = Some i" for i
    using find_SomeD [of "\<lambda>i. range_start i = data" "concat (map (zones h) Zones)" i] that
    by (auto simp: alloc_find_def)
  then show ?thesis
    using assms by (auto simp: malloc_pfree_def alloc_free_wf split: option.splits if_splits)
qed

theorem malloc_pfree_safe_witness:
  "fst (malloc_pfree 0x6000000 heap_example) = - 1"
  using malloc_pfree_safe [OF heap_example_wf, of "0x6000000"]
  by (cases "malloc_pfree 0x6000000 heap_example") (auto simp: heap_example_def split: if_splits)

text \<open>
  The space \<^verbatim>\<open>malloc_getspace\<close> reports for a permanent zone can be allocated: a request
  that, with the worst case of alignment, fits into it succeeds, unless the zone reaches down to
  address 0.
\<close>

theorem malloc_getspace_available:
  assumes "heap_wf h" "z \<noteq> ZoneTmpHigh" "z \<noteq> ZoneTmpLow" "k < 32" "0 < unat sz" "unat sz < 2 ^ 31"
    and "unat sz + 2 ^ k - 1 \<le> unat (malloc_getspace z h)"
    and "\<forall>i \<in> set (zones h z). range_start i \<noteq> 0"
  shows "fst (alloc_new z sz (2 ^ k) n h) \<noteq> 0"
proof -
  have wf: "zone_wf (zones h z)" using assms(1) by (simp add: heap_wf_def)
  have pos: "0 < (2 :: nat) ^ k" by simp
  have "malloc_getspace z h \<noteq> 0"
  proof
    assume "malloc_getspace z h = 0"
    then have "unat sz + 2 ^ k - 1 \<le> 0" using assms(7) by simp
    then show False using assms(5) pos by linarith
  qed
  then obtain i where i: "i \<in> set (zones h z)" "unat (malloc_getspace z h) =
      unat (range_end i) - unat (range_start i) - unat (alloc_size i)"
    using getspace_entry [OF assms(1-3)] by blast
  have "unat (range_start i) + unat (alloc_size i) + unat sz + 2 ^ k - 1 \<le> unat (range_end i)"
    using assms(5,7) i(2) pos by linarith
  then obtain p where p: "alloc_scan sz (2 ^ k) n (zones h z) = Some p"
    using alloc_scan_complete [OF i(1) wf assms(4)] by blast
  obtain a l where al: "p = (a, l)" by (cases p)
  obtain j where "j \<in> set (zones h z)" "unat (range_start j) + unat (alloc_size j) \<le> unat a"
    using alloc_scan_correct [OF p [unfolded al] wf assms(4,6)] by blast
  then have "a \<noteq> 0" using assms(8) by (metis add_leE le_zero_eq unat_0 unat_eq_zero)
  then show ?thesis by (simp add: alloc_new_def p al)
qed

theorem malloc_getspace_available_witness:
  "fst (alloc_new ZoneHigh 0x3FFF0 16 TempData heap_example) \<noteq> 0"
proof -
  have "malloc_getspace ZoneHigh heap_example = 0x40000"
    by (simp add: malloc_getspace_def heap_example_def)
  then show ?thesis
    using malloc_getspace_available [OF heap_example_wf, of ZoneHigh 4 "0x3FFF0" TempData]
    by (simp add: heap_example_def)
qed

text \<open>
  C31.  \<^verbatim>\<open>rom_confirm\<close> either fails and changes nothing, or moves the end of the deployed option
  ROMs up by at least the size of the new one, to a 2 KiB boundary not above
  \<^verbatim>\<open>rom_get_max\<close>, and lifts the start of the low zone above it, so that the allocator never
  hands out memory under a ROM.
\<close>

theorem rom_confirm_safe:
  assumes "RomBase h = Some n" "find_node n h = Some i" "rom_confirm L sz h = Some (r, h')"
    and "unat (RomEnd h) + unat sz + 2048 \<le> 2 ^ 32"
    and "unat (zonelow_base L) + 16 \<le> unat (range_end i)"
  shows "r = - 1 \<and> h' = h \<or>
    r = 0 \<and> unat (RomEnd h) + unat sz \<le> unat (RomEnd h') \<and> unat (RomEnd h') mod 2048 = 0 \<and>
      (\<exists>rommax. rom_get_max h = Some rommax \<and> RomEnd h' \<le> rommax) \<and>
      (\<exists>i'. find_node n h' = Some i' \<and> range_end i' = range_end i \<and>
        unat (RomEnd h') + 16 \<le> unat (range_start i') \<and> unat (range_start i') \<le> unat (range_end i'))"
proof (cases "ALIGN (RomEnd h + sz) OPTION_ROM_ALIGN > ALIGN_DOWN (range_end i - OPROM_HEADER_RESERVE) OPTION_ROM_ALIGN")
  case True
  then show ?thesis
    using assms(1-3) by (simp add: rom_confirm_def rom_reserve_def rom_get_max_def rom_base_info_def)
next
  case False
  define e where "e = ALIGN (RomEnd h + sz) OPTION_ROM_ALIGN"
  define v where "v = (if e < zonelow_base L then zonelow_base L else e) + OPROM_HEADER_RESERVE"
  have h': "r = 0" "h' = (set_range_start n v h)\<lparr>RomEnd := e\<rparr>"
    using assms(1-3) False
    by (simp_all add: rom_confirm_def rom_reserve_def rom_get_max_def rom_base_info_def e_def v_def Let_def)
      (auto simp: set_range_start_def)
  have al: "OPTION_ROM_ALIGN = 2 ^ 11" by (simp add: OPTION_ROM_ALIGN_def)
  have sum: "unat (RomEnd h + sz) = unat (RomEnd h) + unat sz" using assms(4) by (simp add: unat_word_ariths)
  have e: "unat (RomEnd h) + unat sz \<le> unat e" "unat e mod 2048 = 0"
    using unat_ALIGN [of "RomEnd h + sz" 11] assms(4) by (simp_all add: e_def al sum)
  have "unat (range_end i - OPROM_HEADER_RESERVE) = unat (range_end i) - 16"
    using assms(5) by (simp add: unat_sub word_le_nat_alt OPROM_HEADER_RESERVE_def)
  then have le: "unat e \<le> unat (range_end i) - 16"
    using False unat_ALIGN_DOWN [of 11 "range_end i - OPROM_HEADER_RESERVE"]
    by (simp add: e_def al not_less word_le_nat_alt)
  have v: "unat v = max (unat e) (unat (zonelow_base L)) + 16"
    using le assms(5) unat_bound(3) [of "range_end i"]
    by (auto simp: v_def OPROM_HEADER_RESERVE_def unat_word_ariths word_less_nat_alt max_def simp del: unat_bound)
  have "find_node n h' = Some (i\<lparr>range_start := v\<rparr>)"
    using find_node_set_range_start [of n v h] assms(2) by (simp add: h' find_node_def)
  then show ?thesis
    using h' e le v assms(1,2,5) False
    by (auto simp: rom_get_max_def rom_base_info_def e_def [symmetric])
qed

text \<open>The low zone after \<^verbatim>\<open>malloc_init\<close>, and the addresses a linker could give.\<close>

definition rom_example :: sea_heap where
  "rom_example = heap_example\<lparr>RomBase := Some (Node 0x7000020),
     zones := (zones heap_example)(ZoneLow := [\<lparr>ai_node = Node 0x7000020, range_start = 0xE0010,
       range_end = 0xEF000, alloc_size = 0\<rparr>], ZoneHigh := [])\<rparr>"

definition link_example :: link_layout where
  "link_example = \<lparr>zonelow_base = 0xE0000, final_varlow_start = 0xEF000, varlow_start = 0xEF000,
     varlow_end = 0xF0000, zonefseg_start = 0xF6000, zonefseg_end = 0xF7000\<rparr>"

theorem rom_confirm_safe_witness:
  "\<exists>h'. rom_confirm link_example 0x9001 rom_example = Some (0, h') \<and>
     unat (RomEnd rom_example) + 0x9001 \<le> unat (RomEnd h')"
proof -
  have c: "map_option fst (rom_confirm link_example 0x9001 rom_example) = Some 0" by code_simp
  then obtain h' where h': "rom_confirm link_example 0x9001 rom_example = Some (0, h')" by auto
  have n: "RomBase rom_example = Some (Node 0x7000020)"
    "find_node (Node 0x7000020) rom_example = Some \<lparr>ai_node = Node 0x7000020, range_start = 0xE0010,
       range_end = 0xEF000, alloc_size = 0\<rparr>"
    by (simp_all add: rom_example_def find_node_def Zones_def heap_example_def)
  have "unat (RomEnd rom_example) + unat (0x9001 :: u32) + 2048 \<le> 2 ^ 32"
    "unat (zonelow_base link_example) + 16 \<le> unat (0xEF000 :: u32)"
    by (simp_all add: rom_example_def heap_example_def link_example_def)
  with rom_confirm_safe [OF n h'] h' show ?thesis by auto
qed

end
