(* ===== verification/Seabios_Pmm.thy ===== *)
theory Seabios_Pmm
  imports Seabios_Malloc Seabios_String
begin

text \<open>
  The Post Memory Manager interface of SeaBIOS, \<^verbatim>\<open>seabios/src/pmm.c\<close>: the service option ROMs
  call to allocate, find and release memory, and its header in the BIOS segment.  The argument words
  are read from memory at \<open>args\<close>.
\<close>

section \<open>Definitions\<close>

definition PMM_FUNCTION_NOT_SUPPORTED :: u32 where "PMM_FUNCTION_NOT_SUPPORTED = 0xFFFFFFFF"
definition PMM_SIGNATURE :: u32 where "PMM_SIGNATURE = 0x4D4D5024"

text \<open>\<^verbatim>\<open>bsf\<close>: the position of the lowest bit set in a word that is not 0.\<close>

definition ffs :: "u32 \<Rightarrow> nat" where
  "ffs w = length (takeWhile (\<lambda>i. \<not> bit w i) [0..<32])"

definition pmm_arg16 :: "mem \<Rightarrow> nat \<Rightarrow> nat \<Rightarrow> u16" where
  "pmm_arg16 m args i = load16 m (args + 2 * i)"

definition pmm_arg32 :: "mem \<Rightarrow> nat \<Rightarrow> nat \<Rightarrow> u32" where
  "pmm_arg32 m args i = load32 m (args + 2 * i)"

definition pmm_zones :: "u16 \<Rightarrow> zone \<times> zone" where
  "pmm_zones flags = (if flags AND 8 \<noteq> 0 then (ZoneLow, ZoneHigh) else (ZoneTmpLow, ZoneTmpHigh))"

definition pmm_space :: "u16 \<Rightarrow> sea_heap \<Rightarrow> u32" where
  "pmm_space flags h =
     (let (lowzone, highzone) = pmm_zones flags in
      if flags AND 3 = 1 then malloc_getspace lowzone h
      else if flags AND 3 = 2 then malloc_getspace highzone h
      else if flags AND 3 = 3 then
        (let spacelow = malloc_getspace lowzone h; spacehigh = malloc_getspace highzone h
         in if spacelow > spacehigh then spacelow else spacehigh)
      else 0)"

definition pmm_align :: "u16 \<Rightarrow> u32 \<Rightarrow> u32" where
  "pmm_align flags sz =
     (if flags AND 4 \<noteq> 0 then
        (let align = push_bit (ffs sz) 1 in if align < MALLOC_MIN_ALIGN then MALLOC_MIN_ALIGN else align)
      else MALLOC_MIN_ALIGN)"

definition pmm_alloc :: "u16 \<Rightarrow> u32 \<Rightarrow> u32 \<Rightarrow> sea_heap \<times> sea_map \<Rightarrow> u32 \<times> sea_heap \<times> sea_map" where
  "pmm_alloc flags sz align s =
     (let (h, em) = s; (lowzone, highzone) = pmm_zones flags in
      if flags AND 3 = 1 then
        (let (data, h) = malloc_palloc lowzone sz align h in (data, h, em))
      else if flags AND 3 = 2 then
        (let (data, h) = malloc_palloc highzone sz align h in
         if data = 0 \<and> flags AND 8 \<noteq> 0 then
           (let (data, h) = malloc_palloc ZoneTmpHigh sz align h in
            (data, h, if data \<noteq> 0 then sea_e820_add (ucast data) (ucast sz) E820_RESERVED em else em))
         else (data, h, em))
      else
        (let (data, h) = malloc_palloc lowzone sz align h in
         if data = 0 then (let (data, h) = malloc_palloc highzone sz align h in (data, h, em))
         else (data, h, em)))"

definition handle_pmm00 :: "mem \<Rightarrow> nat \<Rightarrow> sea_heap \<times> sea_map \<Rightarrow> u32 \<times> sea_heap \<times> sea_map" where
  "handle_pmm00 m args s =
     (let len = pmm_arg32 m args 1; handle = pmm_arg32 m args 3; flags = pmm_arg16 m args 5 in
      if len = 0 then (pmm_space flags (fst s), s)
      else
        let sz = len * 16 in
        if sint sz \<le> 0 then (0, s)
        else if flags AND 3 = 0 then (0, s)
        else
          let (data, h, em) = pmm_alloc flags sz (pmm_align flags sz) s
          in (data, if data \<noteq> 0 \<and> handle \<noteq> MALLOC_DEFAULT_HANDLE then malloc_sethandle data handle h else h, em))"

definition handle_pmm01 :: "mem \<Rightarrow> nat \<Rightarrow> sea_heap \<times> sea_map \<Rightarrow> u32 \<times> sea_heap \<times> sea_map" where
  "handle_pmm01 m args s =
     (let handle = pmm_arg32 m args 1 in
      if handle = MALLOC_DEFAULT_HANDLE then (0, s) else (malloc_findhandle handle (fst s), s))"

definition handle_pmm02 :: "mem \<Rightarrow> nat \<Rightarrow> sea_heap \<times> sea_map \<Rightarrow> u32 \<times> sea_heap \<times> sea_map" where
  "handle_pmm02 m args s =
     (let buffer = pmm_arg32 m args 1; (ret, h) = malloc_pfree buffer (fst s)
      in (if ret \<noteq> 0 then 1 else 0, h, snd s))"

definition handle_pmmXX :: "mem \<Rightarrow> nat \<Rightarrow> sea_heap \<times> sea_map \<Rightarrow> u32 \<times> sea_heap \<times> sea_map" where
  "handle_pmmXX m args s = (PMM_FUNCTION_NOT_SUPPORTED, s)"

definition handle_pmm :: "mem \<Rightarrow> nat \<Rightarrow> sea_heap \<times> sea_map \<Rightarrow> u32 \<times> sea_heap \<times> sea_map" where
  "handle_pmm m args s =
     (let arg1 = pmm_arg16 m args 0 in
      if arg1 = 0 then handle_pmm00 m args s
      else if arg1 = 1 then handle_pmm01 m args s
      else if arg1 = 2 then handle_pmm02 m args s
      else handle_pmmXX m args s)"

record pmmheader =
  pmm_signature :: u32
  pmm_version :: u8
  pmm_length :: u8
  pmm_checksum :: u8
  pmm_entry :: u32
  pmm_reserved :: "u8 list"

definition PMMHEADER_initial :: pmmheader where
  "PMMHEADER_initial = \<lparr>pmm_signature = PMM_SIGNATURE, pmm_version = 1, pmm_length = 16, pmm_checksum = 0,
     pmm_entry = 0, pmm_reserved = [0, 0, 0, 0, 0]\<rparr>"

text \<open>The packed structure as the bytes of the BIOS segment.\<close>

definition pmm_bytes :: "pmmheader \<Rightarrow> u8 list" where
  "pmm_bytes p = le_bytes 4 (pmm_signature p) @ [pmm_version p, pmm_length p, pmm_checksum p] @
     le_bytes 4 (pmm_entry p) @ pmm_reserved p"

text \<open>\<open>entry\<close> is \<^verbatim>\<open>FUNC16(entry_pmm)\<close>, an address of the linker.\<close>

definition pmm_init :: "u32 \<Rightarrow> pmmheader \<Rightarrow> pmmheader" where
  "pmm_init entry p =
     (let p = p\<lparr>pmm_entry := entry\<rparr>
      in p\<lparr>pmm_checksum := pmm_checksum p - checksum (store_bytes 0 (pmm_bytes p) (\<lambda>_. 0)) 0 16\<rparr>)"

definition pmm_prepboot :: "pmmheader \<Rightarrow> pmmheader" where
  "pmm_prepboot p = p\<lparr>pmm_signature := 0, pmm_entry := 0\<rparr>"

section \<open>Lemmas\<close>

lemma ffs_bit:
  assumes "w \<noteq> 0"
  shows "ffs w < 32" "bit w (ffs w)"
proof -
  have "\<exists>i < 32. bit w i"
  proof (rule ccontr)
    assume "\<not> ?thesis"
    then have "w = 0" by (intro bit_word_eqI) auto
    with assms show False ..
  qed
  then have "\<not> (\<forall>i \<in> set [0..<32]. \<not> bit w i)" by auto
  then have "length (takeWhile (\<lambda>i. \<not> bit w i) [0..<32]) < length [0..<32]"
    by (metis length_takeWhile_le nat_less_le takeWhile_eq_all_conv takeWhile_eq_take take_all_iff)
  from this nth_length_takeWhile [OF this] show "ffs w < 32" "bit w (ffs w)"
    by (simp_all add: ffs_def)
qed

lemma pmm_align_pow:
  assumes "sz \<noteq> 0"
  obtains k where "k < 32" "pmm_align flags sz = 2 ^ k" "4 \<le> k" "flags AND 4 \<noteq> 0 \<Longrightarrow> ffs sz \<le> k"
proof -
  have pow: "push_bit n 1 = (2 ^ n :: u32)" for n by (simp add: push_bit_eq_mult)
  have u: "unat (2 ^ n :: u32) = 2 ^ n" if "n < 32" for n
    using that by (simp add: unat_pow)
  show ?thesis
  proof (cases "flags AND 4 \<noteq> 0 \<and> 4 \<le> ffs sz")
    case True
    have "(2::nat) ^ 4 \<le> 2 ^ ffs sz" using True by (intro power_increasing) simp_all
    then have "\<not> push_bit (ffs sz) 1 < MALLOC_MIN_ALIGN"
      using u [OF ffs_bit(1) [OF assms]] by (simp add: pow MALLOC_MIN_ALIGN_def word_less_nat_alt)
    with True show ?thesis
      using ffs_bit(1) [OF assms] by (intro that [of "ffs sz"]) (simp_all add: pmm_align_def pow)
  next
    case False
    have "pmm_align flags sz = 2 ^ 4"
    proof (cases "flags AND 4 = 0")
      case lt: False
      with False have "(2::nat) ^ ffs sz < 2 ^ 4" by (intro power_strict_increasing) simp_all
      then have "push_bit (ffs sz) 1 < MALLOC_MIN_ALIGN"
        using u [OF ffs_bit(1) [OF assms]] by (simp add: pow MALLOC_MIN_ALIGN_def word_less_nat_alt)
      then show ?thesis by (simp add: pmm_align_def lt) (simp add: MALLOC_MIN_ALIGN_def)
    qed (simp add: pmm_align_def MALLOC_MIN_ALIGN_def)
    with False show ?thesis by (intro that [of 4]) auto
  qed
qed

text \<open>What one allocation promises, and the zone and the memory map it leaves.\<close>

definition pmm_block :: "zone \<Rightarrow> u32 \<Rightarrow> nat \<Rightarrow> u32 \<Rightarrow> sea_heap \<Rightarrow> sea_heap \<Rightarrow> bool" where
  "pmm_block z sz k data h h' \<longleftrightarrow> unat data mod 2 ^ k = 0 \<and> unat data + unat sz \<le> 2 ^ 32 \<and>
     used z h \<inter> {unat data ..< unat data + unat sz} = {} \<and>
     {unat data ..< unat data + unat sz} \<subseteq> used z h' \<and> (\<forall>y. used y h \<subseteq> used y h')"

lemma malloc_palloc_pmm:
  assumes "heap_ok h" "malloc_palloc z sz (2 ^ k) h = (data, h')" "k < 32" "unat sz < 2 ^ 31"
  shows "heap_ok h' \<and> (if data = 0 then h' = h else pmm_block z sz k data h h')"
  using malloc_palloc_ok [OF assms] malloc_palloc_block [OF _ assms(2-4)] assms(1)
  by (auto simp: heap_ok_def pmm_block_def)

lemma pmm_alloc_cases:
  assumes "heap_ok h" "sea_invar em" "pmm_alloc flags sz (2 ^ k) (h, em) = (data, h', em')"
    and "k < 32" "unat sz < 2 ^ 31"
  shows "heap_ok h' \<and> sea_invar em' \<and>
    (if data = 0 then h' = h \<and> em' = em
     else (\<exists>z. pmm_block z sz k data h h' \<and>
       (em' = em \<and> (z = fst (pmm_zones flags) \<and> flags AND 3 \<noteq> 2 \<or> z = snd (pmm_zones flags) \<and> flags AND 3 \<noteq> 1) \<or>
        z = ZoneTmpHigh \<and> flags AND 3 = 2 \<and> flags AND 8 \<noteq> 0 \<and>
          em' = sea_e820_add (ucast data) (ucast sz) E820_RESERVED em)))"
proof -
  obtain lo hi where z: "pmm_zones flags = (lo, hi)" by (rule prod.exhaust)
  obtain dl hl where l: "malloc_palloc lo sz (2 ^ k) h = (dl, hl)" by (rule prod.exhaust)
  obtain dh hh where h: "malloc_palloc hi sz (2 ^ k) h = (dh, hh)" by (rule prod.exhaust)
  obtain dt ht where t: "malloc_palloc ZoneTmpHigh sz (2 ^ k) h = (dt, ht)" by (rule prod.exhaust)
  note L = malloc_palloc_pmm [OF assms(1) l assms(4,5)]
  note H = malloc_palloc_pmm [OF assms(1) h assms(4,5)]
  note T = malloc_palloc_pmm [OF assms(1) t assms(4,5)]
  consider "flags AND 3 = 1" | "flags AND 3 = 2" "dh = 0" "flags AND 8 \<noteq> 0" |
    "flags AND 3 = 2" "dh \<noteq> 0 \<or> flags AND 8 = 0" | "flags AND 3 \<noteq> 1" "flags AND 3 \<noteq> 2"
    by blast
  then show ?thesis
  proof cases
    case 1
    with assms(2,3) L show ?thesis by (auto simp: pmm_alloc_def z l split: if_splits)
  next
    case 2
    then have "hh = h" using H by simp
    with 2 assms(2,3) T show ?thesis
      by (auto simp: pmm_alloc_def z h t sea_e820_add_abs(1) split: if_splits)
  next
    case 3
    with assms(2,3) H show ?thesis by (auto simp: pmm_alloc_def z h split: if_splits)
  next
    case 4
    show ?thesis
    proof (cases "dl = 0")
      case True
      then have "hl = h" using L by simp
      with True 4 assms(2,3) H show ?thesis by (auto simp: pmm_alloc_def z h l split: if_splits)
    next
      case False
      with 4 assms(2,3) L show ?thesis by (auto simp: pmm_alloc_def z l split: if_splits)
    qed
  qed
qed

lemma sint_pos_unat: "0 < sint (w :: u32) \<Longrightarrow> w \<noteq> 0 \<and> unat w < 2 ^ 31"
proof -
  assume p: "0 < sint w"
  have "w \<noteq> 0" using p by auto
  have s: "sint w = (uint w + 2 ^ 31) mod 2 ^ 32 - 2 ^ 31"
    unfolding sint_uint signed_take_bit_eq_take_bit_shift take_bit_eq_mod by simp
  have "uint w < 2 ^ 31"
  proof (rule ccontr)
    assume "\<not> uint w < 2 ^ 31"
    then have "(uint w + 2 ^ 31) mod 2 ^ 32 = uint w - 2 ^ 31"
      using uint_bounded [of w] by (intro int_mod_pos_eq [where q = 1]) simp_all
    then show False using p s uint_bounded [of w] by simp
  qed
  then have "int (unat w) < int (2 ^ 31)" by (simp only: uint_nat of_nat_power of_nat_numeral)
  then have "unat w < 2 ^ 31" by (simp only: of_nat_less_iff)
  with \<open>w \<noteq> 0\<close> show ?thesis ..
qed

text \<open>Either an allocation request reserves nothing, or it goes to the zones with an aligned size.\<close>

lemma handle_pmm00_cases:
  assumes "handle_pmm00 m args (h, em) = (r, h', em')"
  defines "sz \<equiv> pmm_arg32 m args 1 * 16" and "flags \<equiv> pmm_arg16 m args 5"
  obtains (none) "h' = h" "em' = em" "pmm_arg32 m args 1 \<noteq> 0 \<Longrightarrow> r = 0"
  | (alloc) k h1 where "k < 32" "4 \<le> k" "flags AND 4 \<noteq> 0 \<Longrightarrow> ffs sz \<le> k" "sz \<noteq> 0" "unat sz < 2 ^ 31"
      "flags AND 3 \<noteq> 0" "pmm_alloc flags sz (2 ^ k) (h, em) = (r, h1, em')" "zones h' = zones h1"
      "r = 0 \<Longrightarrow> h' = h1"
proof (cases "pmm_arg32 m args 1 = 0 \<or> sint sz \<le> 0 \<or> flags AND 3 = 0")
  case True
  then have "handle_pmm00 m args (h, em) = (if pmm_arg32 m args 1 = 0 then pmm_space flags h else 0, h, em)"
    unfolding handle_pmm00_def Let_def sz_def [symmetric] flags_def [symmetric] fst_conv
    by (elim disjE) simp_all
  then have "h' = h \<and> em' = em \<and> (pmm_arg32 m args 1 \<noteq> 0 \<longrightarrow> r = 0)" using assms(1) by simp
  then show ?thesis by (intro none) simp_all
next
  case False
  then have "0 < sint sz" by simp
  from sint_pos_unat [OF this] have sz: "sz \<noteq> 0" "unat sz < 2 ^ 31" by blast+
  obtain k where k: "k < 32" "pmm_align flags sz = 2 ^ k" "4 \<le> k" "flags AND 4 \<noteq> 0 \<Longrightarrow> ffs sz \<le> k"
    by (rule pmm_align_pow [OF sz(1), of flags]) blast
  obtain d h1 em1 where a: "pmm_alloc flags sz (2 ^ k) (h, em) = (d, h1, em1)" by (rule prod_cases3)
  have "handle_pmm00 m args (h, em) = (d, if d \<noteq> 0 \<and> pmm_arg32 m args 3 \<noteq> MALLOC_DEFAULT_HANDLE
      then malloc_sethandle d (pmm_arg32 m args 3) h1 else h1, em1)"
    using False unfolding handle_pmm00_def Let_def sz_def [symmetric] flags_def [symmetric] by (simp add: k(2) a)
  with assms(1) have "r = d" "em' = em1" "zones h' = zones h1" "r = 0 \<Longrightarrow> h' = h1"
    by (auto split: if_splits)
  then show ?thesis using k(1,3,4) sz False a by (intro alloc [of k h1]) simp_all
qed

section \<open>Properties\<close>

text \<open>
  C16.  Every call of the interface, with any arguments, leaves the allocator's zones well-formed
  and settled and the memory map a valid array.  Calls that are not allocations leave the memory map
  as it is, and an unknown function changes nothing and reports it.
\<close>

theorem handle_pmm_invariant:
  assumes "heap_ok h" "sea_invar em" "handle_pmm m args (h, em) = (r, h', em')"
  shows "heap_ok h' \<and> sea_invar em' \<and> (pmm_arg16 m args 0 \<noteq> 0 \<longrightarrow> em' = em) \<and>
    (pmm_arg16 m args 0 \<notin> {0, 1, 2} \<longrightarrow> r = PMM_FUNCTION_NOT_SUPPORTED \<and> h' = h)"
proof (cases "pmm_arg16 m args 0 = 0")
  case True
  then have "handle_pmm00 m args (h, em) = (r, h', em')" using assms(3) by (simp add: handle_pmm_def)
  then show ?thesis
  proof (cases rule: handle_pmm00_cases)
    case none
    with True assms(1,2) show ?thesis by simp
  next
    case (alloc k h1)
    from pmm_alloc_cases [OF assms(1,2) alloc(7,1,5)] have "heap_ok h1" "sea_invar em'" by simp_all
    with True heap_ok_zones [OF alloc(8)] show ?thesis by simp
  qed
next
  case False
  obtain q h2 where f: "malloc_pfree (pmm_arg32 m args 1) h = (q, h2)" by (rule prod.exhaust)
  show ?thesis
    using False assms malloc_pfree_ok [OF assms(1) f] unfolding handle_pmm_def Let_def
    by (auto simp only: handle_pmm01_def handle_pmm02_def handle_pmmXX_def Let_def f fst_conv snd_conv
        prod.case prod.inject insert_iff empty_iff split: if_splits)
qed

text \<open>
  A call of \<^verbatim>\<open>pmmAllocate\<close>: 32 units of 16 bytes under handle 7 in extended memory, aligned,
  and a call of a function that does not exist.
\<close>

definition pmm_call :: mem where
  "pmm_call = store_bytes 0x8000 [0, 0, 32, 0, 0, 0, 7, 0, 0, 0, 6, 0] (\<lambda>_. 3)"

lemma pmm_call_args:
  "pmm_arg16 pmm_call 0x8000 0 = 0" "pmm_arg32 pmm_call 0x8000 1 = 32" "pmm_arg32 pmm_call 0x8000 3 = 7"
  "pmm_arg16 pmm_call 0x8000 5 = 6" "pmm_arg16 pmm_call 0x9000 0 = 0x303"
  by (simp_all add: pmm_arg16_def pmm_arg32_def load16_def load32_def load_bytes_def upt_rec pmm_call_def
      store_bytes_def)

theorem handle_pmm_invariant_witness:
  "handle_pmm pmm_call 0x9000 (heap_example, sea_example) = (PMM_FUNCTION_NOT_SUPPORTED, heap_example, sea_example)"
proof -
  obtain r h' em' where c: "handle_pmm pmm_call 0x9000 (heap_example, sea_example) = (r, h', em')"
    by (rule prod_cases3)
  from handle_pmm_invariant [OF heap_example_ok sea_example_invar c] c show ?thesis by (simp add: pmm_call_args)
qed


lemma pmm_call_result: "fst (handle_pmm00 pmm_call 0x8000 (heap_example, sea_example)) = 0x5FFFE00"
proof -
  have "fst (pmm_alloc 6 0x200 (pmm_align 6 0x200) (heap_example, sea_example)) = 0x5FFFE00" by code_simp
  then show ?thesis
    by (simp only: handle_pmm00_def pmm_call_args Let_def) (simp add: split_beta)
qed


text \<open>
  C40.  The length of a request is taken in units of 16 bytes and multiplied in 32 bits before it is
  checked, so only its low 28 bits matter: asking for 4 GiB more than a request hands out
  exactly what the smaller request does.
\<close>

theorem handle_pmm00_length_wraps:
  assumes "pmm_arg32 m' args 1 = pmm_arg32 m args 1 + 0x10000000" "pmm_arg32 m' args 3 = pmm_arg32 m args 3"
    and "pmm_arg16 m' args 5 = pmm_arg16 m args 5" "pmm_arg32 m args 1 \<noteq> 0" "pmm_arg32 m' args 1 \<noteq> 0"
  shows "handle_pmm00 m' args s = handle_pmm00 m args s"
proof -
  have "pmm_arg32 m' args 1 * 16 = pmm_arg32 m args 1 * 16" unfolding assms(1) by (simp add: distrib_right)
  then show ?thesis using assms(4,5) unfolding handle_pmm00_def Let_def assms(2,3) by simp
qed

theorem handle_pmm00_length_wraps_witness:
  "handle_pmm00 (pmm_call(0x8005 := 0x10)) 0x8000 (heap_example, sea_example) =
   handle_pmm00 pmm_call 0x8000 (heap_example, sea_example) \<and> pmm_arg32 (pmm_call(0x8005 := 0x10)) 0x8000 1 = 0x10000020"
proof -
  have "pmm_arg32 (pmm_call(0x8005 := 0x10)) 0x8000 1 = 0x10000020"
    "pmm_arg32 (pmm_call(0x8005 := 0x10)) 0x8000 3 = 7" "pmm_arg16 (pmm_call(0x8005 := 0x10)) 0x8000 5 = 6"
    by (simp_all add: pmm_arg16_def pmm_arg32_def load16_def load32_def load_bytes_def upt_rec pmm_call_def
      store_bytes_def)
  with handle_pmm00_length_wraps [of "pmm_call(0x8005 := 0x10)" "0x8000" pmm_call] show ?thesis
    by (simp only: pmm_call_args) simp
qed

lemma checksum_sum_list:
  "length bs = n \<Longrightarrow> checksum (store_bytes 0 bs m) 0 n = sum_list bs"
proof -
  assume n: "length bs = n"
  have "fold (\<lambda>i s. s + store_bytes 0 bs m (0 + i)) [0..<n] 0 = fold (\<lambda>b s. s + b) (map ((!) bs) [0..<n]) 0"
    unfolding fold_map by (rule fold_cong) (auto simp: n store_bytes_def)
  also have "map ((!) bs) [0..<n] = bs" by (simp add: map_nth flip: n)
  also have "fold (\<lambda>b s. s + b) bs 0 = sum_list bs"
    by (simp add: fold_plus_sum_list_rev [symmetric] add.commute) (simp add: fold_plus_sum_list_rev)
  finally show ?thesis by (simp add: checksum_def)
qed

text \<open>
  After \<^verbatim>\<open>pmm_init\<close> the bytes of the header add up to zero, as the specification asks of a
  header that clients search for, and \<^verbatim>\<open>pmm_prepboot\<close> takes the signature and the entry point away.
\<close>

theorem pmm_init_checksum:
  "sum_list (pmm_bytes (pmm_init entry PMMHEADER_initial)) = 0 \<and>
   pmm_entry (pmm_init entry PMMHEADER_initial) = entry \<and>
   pmm_signature (pmm_init entry PMMHEADER_initial) = PMM_SIGNATURE \<and>
   take 4 (pmm_bytes (pmm_prepboot (pmm_init entry PMMHEADER_initial))) = [0, 0, 0, 0]"
proof -
  have "checksum (store_bytes 0 (pmm_bytes (PMMHEADER_initial\<lparr>pmm_entry := entry\<rparr>)) (\<lambda>_. 0)) 0 16 =
      sum_list (pmm_bytes (PMMHEADER_initial\<lparr>pmm_entry := entry\<rparr>))"
    by (rule checksum_sum_list) (simp add: pmm_bytes_def PMMHEADER_initial_def)
  then show ?thesis
    by (simp add: pmm_init_def Let_def pmm_bytes_def PMMHEADER_initial_def pmm_prepboot_def le_bytes_def upt_rec)
qed

end
