(* ===== verification/Csm16.thy ===== *)
theory Csm16
  imports Seabios_Pmm Bregs
begin

text \<open>
  The Compatibility16 entry points of SeaBIOS, \<^verbatim>\<open>seabios/src/fw/csm.c\<close>: the functions UEFI calls
  through real mode to initialise the BIOS, run option ROMs, hand over tables and boot.  The parts
  of SeaBIOS they call are the fields of \<open>sea_rest\<close>, as functions on the state; the allocator, the
  memory map and the option ROM area are those of the other theories.  Tables are read from memory
  at the offsets of the packed structures of \<^verbatim>\<open>std/LegacyBios.h\<close>.
\<close>

section \<open>State\<close>

record csm16 =
  ram :: mem
  heap :: sea_heap
  emap :: sea_map
  csm_init_table :: u32
  csm_boot_table :: u32
  PICMask :: u16
  PirAddr :: u32
  RsdpAddr :: u32

text \<open>Addresses of the linker.\<close>

record csm_link =
  csm_compat_table :: nat
  csm_rsdp :: nat
  final_readonly_start :: u32
  layout :: link_layout

record sea_rest =
  code_mutable_preinit :: "csm16 \<Rightarrow> csm16"
  qemu_preinit :: "csm16 \<Rightarrow> csm16"
  reloc_preinit :: "csm16 \<Rightarrow> csm16"
  interface_init :: "csm16 \<Rightarrow> csm16"
  pci_probe_devices :: "csm16 \<Rightarrow> csm16"
  get_pnp_offset :: u16
  pci_enable_mmconfig :: "u32 \<Rightarrow> csm16 \<Rightarrow> csm16"
  find_acpi_features :: "csm16 \<Rightarrow> csm16"
  copy_smbios_21 :: "u32 \<Rightarrow> csm16 \<Rightarrow> csm16"
  enable_vga_console :: "csm16 \<Rightarrow> csm16"
  hardware_setup :: "(csm16 \<Rightarrow> csm16) list"
  prepareboot :: "csm16 \<Rightarrow> csm16"
  startBoot :: "csm16 \<Rightarrow> csm16"
  callrom :: "u32 \<Rightarrow> u16 \<Rightarrow> csm16 \<Rightarrow> csm16"
  pic_irqmask_read :: "csm16 \<Rightarrow> u16"
  pic_irqmask_write :: "u16 \<Rightarrow> csm16 \<Rightarrow> csm16"

definition SEG_BIOS :: u16 where "SEG_BIOS = 0xF000"
definition SEG_BDA :: u16 where "SEG_BDA = 0x40"
definition RSDP_SIGNATURE :: u64 where "RSDP_SIGNATURE = 0x2052545020445352"

definition MAKE_FLATPTR :: "u16 \<Rightarrow> u16 \<Rightarrow> u32" where
  "MAKE_FLATPTR s off = push_bit 4 (ucast s) + ucast off"

definition FLATPTR_TO_SEG :: "u32 \<Rightarrow> u32" where "FLATPTR_TO_SEG p = drop_bit 4 p"
definition FLATPTR_TO_OFFSET :: "u32 \<Rightarrow> u32" where "FLATPTR_TO_OFFSET p = p AND 0xF"

definition pci_bus_devfn_to_bdf :: "u32 \<Rightarrow> u16 \<Rightarrow> u16" where
  "pci_bus_devfn_to_bdf bus devfn = ucast (push_bit 8 bus OR ucast devfn)"

definition pci_to_bdf :: "u32 \<Rightarrow> u32 \<Rightarrow> u32 \<Rightarrow> u16" where
  "pci_to_bdf bus dev fn = ucast (push_bit 8 bus OR push_bit 3 dev OR fn)"

text \<open>Fields of the tables: \<^verbatim>\<open>EFI_COMPATIBILITY16_TABLE\<close>, the init table and the boot table.\<close>

definition E820Pointer :: nat where "E820Pointer = 34"
definition E820Length :: nat where "E820Length = 38"
definition IrqRoutingTablePointer :: nat where "IrqRoutingTablePointer = 42"
definition IrqRoutingTableLength :: nat where "IrqRoutingTableLength = 46"
definition PciExpressBase :: nat where "PciExpressBase = 78"
definition UmaAddress :: nat where "UmaAddress = 83"
definition UmaSize :: nat where "UmaSize = 87"
definition PnPInstallationCheckSegment :: nat where "PnPInstallationCheckSegment = 16"
definition PnPInstallationCheckOffset :: nat where "PnPInstallationCheckOffset = 18"
definition HiPmmMemory :: nat where "HiPmmMemory = 4"
definition HiPmmMemorySizeInBytes :: nat where "HiPmmMemorySizeInBytes = 8"
definition LowPmmMemory :: nat where "LowPmmMemory = 32"
definition LowPmmMemorySizeInBytes :: nat where "LowPmmMemorySizeInBytes = 36"
definition SmbiosTable :: nat where "SmbiosTable = 8"
definition NumberBbsEntries :: nat where "NumberBbsEntries = 8425"
definition BbsTable :: nat where "BbsTable = 8429"

definition compat32 :: "csm_link \<Rightarrow> nat \<Rightarrow> csm16 \<Rightarrow> u32" where
  "compat32 L off s = load32 (ram s) (csm_compat_table L + off)"

definition init32 :: "nat \<Rightarrow> csm16 \<Rightarrow> u32" where
  "init32 off s = load32 (ram s) (unat (csm_init_table s) + off)"

definition boot32 :: "nat \<Rightarrow> csm16 \<Rightarrow> u32" where
  "boot32 off s = load32 (ram s) (unat (csm_boot_table s) + off)"

section \<open>Handlers\<close>

text \<open>\<open>None\<close> stands for the null pointer \<^verbatim>\<open>RomBase\<close> of an allocator that is not set up.\<close>

definition csm_return :: "sea_rest \<Rightarrow> csm_link \<Rightarrow> bregs \<Rightarrow> csm16 \<Rightarrow> (bregs \<times> csm16) option" where
  "csm_return E L regs s =
     (case rom_get_max (heap s) of
        None \<Rightarrow> None
      | Some rommax \<Rightarrow>
          let s = s\<lparr>ram := store32 (csm_compat_table L + UmaAddress) rommax (ram s)\<rparr>;
              s = s\<lparr>ram := store32 (csm_compat_table L + UmaSize) (final_readonly_start L - rommax) (ram s)\<rparr>
          in Some (regs, s\<lparr>PICMask := pic_irqmask_read E s\<rparr>))"

definition csm_maininit :: "sea_rest \<Rightarrow> csm_link \<Rightarrow> bregs \<Rightarrow> csm16 \<Rightarrow> (bregs \<times> csm16) option" where
  "csm_maininit E L regs s =
     (let s = interface_init E s;
          s = pci_probe_devices E s;
          s = s\<lparr>ram := store16 (csm_compat_table L + PnPInstallationCheckSegment) SEG_BIOS (ram s)\<rparr>;
          s = s\<lparr>ram := store16 (csm_compat_table L + PnPInstallationCheckOffset) (get_pnp_offset E) (ram s)\<rparr>
      in csm_return E L (regs\<lparr>ax := 0\<rparr>) s)"

definition handle_csm_0000 :: "sea_rest \<Rightarrow> csm_link \<Rightarrow> bregs \<Rightarrow> csm16 \<Rightarrow> (bregs \<times> csm16) option" where
  "handle_csm_0000 E L regs s =
     (let s = qemu_preinit E s;
          s = s\<lparr>csm_init_table := MAKE_FLATPTR (es regs) (bx regs)\<rparr>;
          s = s\<lparr>heap := malloc_csm_preinit (init32 LowPmmMemory s) (init32 LowPmmMemorySizeInBytes s)
                 (init32 HiPmmMemory s) (init32 HiPmmMemorySizeInBytes s) (heap s)\<rparr>
      in csm_maininit E L regs (reloc_preinit E s))"

definition handle_csm_0001 :: "bregs \<Rightarrow> csm16 \<Rightarrow> bregs \<times> csm16" where
  "handle_csm_0001 regs s = (regs\<lparr>ax := 0\<rparr>, s\<lparr>csm_boot_table := MAKE_FLATPTR (es regs) (bx regs)\<rparr>)"

definition csm_add_e820 :: "csm_link \<Rightarrow> csm16 \<Rightarrow> csm16" where
  "csm_add_e820 L s =
     (let p = unat (compat32 L E820Pointer s) in
      s\<lparr>emap := fold (\<lambda>i em. sea_e820_add (load64 (ram s) (p + 20 * i)) (load64 (ram s) (p + 20 * i + 8))
                    (load32 (ram s) (p + 20 * i + 16)) em)
                 [0..<unat (compat32 L E820Length s) div 20] (emap s)\<rparr>)"

definition csm_reserve_pmm :: "csm16 \<Rightarrow> csm16" where
  "csm_reserve_pmm s =
     (if init32 HiPmmMemorySizeInBytes s > BUILD_MIN_HIGHTABLE then
        let hi_pmm_end = init32 HiPmmMemory s + init32 HiPmmMemorySizeInBytes s
        in s\<lparr>emap := sea_e820_add (ucast (hi_pmm_end - BUILD_MIN_HIGHTABLE)) (ucast BUILD_MIN_HIGHTABLE)
               E820_RESERVED (emap s)\<rparr>
      else s)"

definition csm_pirq :: "csm_link \<Rightarrow> csm16 \<Rightarrow> csm16" where
  "csm_pirq L s =
     (if compat32 L IrqRoutingTablePointer s \<noteq> 0 \<and> compat32 L IrqRoutingTableLength s \<noteq> 0
      then s\<lparr>PirAddr := compat32 L IrqRoutingTablePointer s\<rparr> else s)"

definition csm_mmconfig :: "sea_rest \<Rightarrow> csm_link \<Rightarrow> csm16 \<Rightarrow> csm16" where
  "csm_mmconfig E L s =
     (if compat32 L PciExpressBase s \<noteq> 0 then pci_enable_mmconfig E (compat32 L PciExpressBase s) s else s)"

definition csm_acpi :: "sea_rest \<Rightarrow> csm_link \<Rightarrow> csm16 \<Rightarrow> csm16" where
  "csm_acpi E L s =
     (if load64 (ram s) (csm_rsdp L) = RSDP_SIGNATURE
      then find_acpi_features E (s\<lparr>RsdpAddr := of_nat (csm_rsdp L)\<rparr>) else s)"

definition csm_smbios :: "sea_rest \<Rightarrow> csm16 \<Rightarrow> csm16" where
  "csm_smbios E s = (if boot32 SmbiosTable s \<noteq> 0 then copy_smbios_21 E (boot32 SmbiosTable s) s else s)"

definition csm_clear_hdcount :: "csm16 \<Rightarrow> csm16" where
  "csm_clear_hdcount s = s\<lparr>ram := (ram s)(unat (MAKE_FLATPTR SEG_BDA 0x75) := 0)\<rparr>"

definition handle_csm_0002 :: "sea_rest \<Rightarrow> csm_link \<Rightarrow> bregs \<Rightarrow> csm16 \<Rightarrow> bregs \<times> csm16" where
  "handle_csm_0002 E L regs s =
     (let s = csm_reserve_pmm (csm_add_e820 L s);
          s = csm_smbios E (csm_acpi E L (csm_mmconfig E L (csm_pirq L s)));
          s = csm_clear_hdcount (enable_vga_console E s);
          s = fold (\<lambda>f s. f s) (hardware_setup E) s
      in (regs\<lparr>ax := 0\<rparr>, prepareboot E s))"

lemmas csm_steps_defs = csm_add_e820_def csm_reserve_pmm_def csm_pirq_def csm_mmconfig_def csm_acpi_def
  csm_smbios_def csm_clear_hdcount_def

definition handle_csm_0003 :: "sea_rest \<Rightarrow> bregs \<Rightarrow> csm16 \<Rightarrow> bregs \<times> csm16" where
  "handle_csm_0003 E regs s = (regs\<lparr>ax := 1\<rparr>, startBoot E s)"

definition handle_csm_0005 :: "sea_rest \<Rightarrow> csm_link \<Rightarrow> bregs \<Rightarrow> csm16 \<Rightarrow> (bregs \<times> csm16) option" where
  "handle_csm_0005 E L regs s =
     (let table = unat (MAKE_FLATPTR (es regs) (bx regs));
          rom = MAKE_FLATPTR (load16 (ram s) (table + 4)) 0;
          bdf = pci_bus_devfn_to_bdf (ucast (ram s (table + 6))) (ucast (ram s (table + 7)));
          sz = (\<lambda>s. ucast (ram s (unat rom + 2)) * 512)
      in case rom_reserve (layout L) (sz s) (heap s) of
           None \<Rightarrow> None
         | Some (_, h) \<Rightarrow>
             let s = callrom E rom bdf (s\<lparr>heap := h\<rparr>) in
             case rom_confirm (layout L) (sz s) (heap s) of
               None \<Rightarrow> None
             | Some (_, h) \<Rightarrow> Some (regs\<lparr>bx := 0, ax := 0\<rparr>, s\<lparr>heap := h\<rparr>))"

definition csm_table_align :: "u16 \<Rightarrow> u16" where
  "csm_table_align align =
     (if align \<noteq> 0 then
        let align = push_bit (ffs (ucast align)) 1 in if ucast align < MALLOC_MIN_ALIGN then ucast MALLOC_MIN_ALIGN else align
      else ucast MALLOC_MIN_ALIGN)"

definition handle_csm_0006 :: "bregs \<Rightarrow> csm16 \<Rightarrow> bregs \<times> csm16" where
  "handle_csm_0006 regs s =
     (let size = cx regs; align = csm_table_align (dx regs);
          region = (if bx regs = 0 then 3 else bx regs);
          (chunk, h) = (if region AND 2 \<noteq> 0 then malloc_palloc ZoneLow (ucast size) (ucast align) (heap s)
                        else (0, heap s));
          (chunk, h) = (if chunk = 0 \<and> region AND 1 \<noteq> 0 then malloc_palloc ZoneFSeg (ucast size) (ucast align) h
                        else (chunk, h));
          s = s\<lparr>heap := h\<rparr>
      in if chunk \<noteq> 0 then
           (regs\<lparr>ds := ucast (FLATPTR_TO_SEG chunk), bx := ucast (FLATPTR_TO_OFFSET chunk), ax := 0\<rparr>, s)
         else (regs\<lparr>ax := 1\<rparr>, s))"

definition handle_csm :: "sea_rest \<Rightarrow> csm_link \<Rightarrow> bregs \<Rightarrow> csm16 \<Rightarrow> (bregs \<times> csm16) option" where
  "handle_csm E L regs s =
     (let s = code_mutable_preinit E s;
          s = pic_irqmask_write E (PICMask s) s;
          f = ax regs
      in if f = 0 then handle_csm_0000 E L regs s
         else case (if f = 1 then Some (handle_csm_0001 regs s)
                    else if f = 2 then Some (handle_csm_0002 E L regs s)
                    else if f = 3 then Some (handle_csm_0003 E regs s)
                    else if f = 5 then handle_csm_0005 E L regs s
                    else if f = 6 then Some (handle_csm_0006 regs s)
                    else Some (regs\<lparr>ax := (f AND 0xFF00) OR 1\<rparr>, s)) of
                None \<Rightarrow> None
              | Some (regs, s) \<Rightarrow> csm_return E L regs s)"

section \<open>Boot priorities\<close>

definition BBS_DO_NOT_BOOT_FROM :: u16 where "BBS_DO_NOT_BOOT_FROM = 0xFFFC"
definition BBS_IGNORE_ENTRY :: u16 where "BBS_IGNORE_ENTRY = 0xFFFF"

text \<open>The size of the packed \<^verbatim>\<open>BBS_TABLE\<close>.\<close>

definition sizeof_BBS_TABLE :: nat where "sizeof_BBS_TABLE = 69"

definition csm_prio_to_seabios :: "u16 \<Rightarrow> int" where
  "csm_prio_to_seabios csm_prio =
     (if csm_prio = BBS_DO_NOT_BOOT_FROM \<or> csm_prio = BBS_IGNORE_ENTRY then - 1 else uint csm_prio + 1)"

definition bbs_entry :: "csm16 \<Rightarrow> nat \<Rightarrow> nat" where
  "bbs_entry s i = unat (boot32 BbsTable s) + sizeof_BBS_TABLE * i"

definition csm_bootprio_ata :: "csm16 \<Rightarrow> nat \<Rightarrow> nat \<Rightarrow> int" where
  "csm_bootprio_ata s chanid slave =
     (if csm_boot_table s = 0 then - 1
      else csm_prio_to_seabios (load16 (ram s) (bbs_entry s (1 + chanid * 2 + slave))))"

definition csm_bootprio_fdc :: "csm16 \<Rightarrow> int" where
  "csm_bootprio_fdc s =
     (if csm_boot_table s = 0 then - 1 else csm_prio_to_seabios (load16 (ram s) (bbs_entry s 0)))"

function bootprio_pci_loop :: "csm16 \<Rightarrow> u16 \<Rightarrow> nat \<Rightarrow> int" where
  "bootprio_pci_loop s bdf i =
     (if i < unat (boot32 NumberBbsEntries s) then
        (let e = bbs_entry s i in
         if bdf = pci_to_bdf (load32 (ram s) (e + 2)) (load32 (ram s) (e + 6)) (load32 (ram s) (e + 10))
         then csm_prio_to_seabios (load16 (ram s) e)
         else bootprio_pci_loop s bdf (i + 1))
      else - 1)"
  by pat_completeness auto
termination by (relation "measure (\<lambda>(s, bdf, i). unat (boot32 NumberBbsEntries s) - i)") auto

declare bootprio_pci_loop.simps [simp del]

definition csm_bootprio_pci :: "csm16 \<Rightarrow> u16 \<Rightarrow> int" where
  "csm_bootprio_pci s bdf = (if csm_boot_table s = 0 then - 1 else bootprio_pci_loop s bdf 5)"

section \<open>Sequences of calls\<close>

text \<open>\<open>csm_calls E L s fs s'\<close>: calls of the functions \<open>fs\<close>, in this order, lead from \<open>s\<close> to \<open>s'\<close>.\<close>

inductive csm_calls :: "sea_rest \<Rightarrow> csm_link \<Rightarrow> csm16 \<Rightarrow> u16 list \<Rightarrow> csm16 \<Rightarrow> bool" for E L where
  none: "csm_calls E L s [] s"
| call: "csm_calls E L s (ax regs # fs) s''"
    if "handle_csm E L regs s = Some (regs', s')" and "csm_calls E L s' fs s''"

inductive_cases csm_calls_ConsE [elim!]: "csm_calls E L s (f # fs) s'"
inductive_simps csm_calls_Nil [simp]: "csm_calls E L s [] s'"

text \<open>The rest of SeaBIOS leaves the pointer to the boot table alone.\<close>

definition keeps_boot_table :: "sea_rest \<Rightarrow> bool" where
  "keeps_boot_table E \<longleftrightarrow>
     (\<forall>f \<in> {code_mutable_preinit E, qemu_preinit E, reloc_preinit E, interface_init E, pci_probe_devices E,
        find_acpi_features E, enable_vga_console E, prepareboot E, startBoot E} \<union> set (hardware_setup E) \<union>
        range (pci_enable_mmconfig E) \<union> range (copy_smbios_21 E) \<union> (\<Union>r. range (callrom E r)) \<union>
        range (pic_irqmask_write E).
      \<forall>s. csm_boot_table (f s) = csm_boot_table s)"

lemma keeps_boot_tableD:
  assumes "keeps_boot_table E"
  shows "csm_boot_table (code_mutable_preinit E s) = csm_boot_table s"
    "csm_boot_table (qemu_preinit E s) = csm_boot_table s" "csm_boot_table (reloc_preinit E s) = csm_boot_table s"
    "csm_boot_table (interface_init E s) = csm_boot_table s" "csm_boot_table (pci_probe_devices E s) = csm_boot_table s"
    "csm_boot_table (find_acpi_features E s) = csm_boot_table s" "csm_boot_table (enable_vga_console E s) = csm_boot_table s"
    "csm_boot_table (prepareboot E s) = csm_boot_table s" "csm_boot_table (startBoot E s) = csm_boot_table s"
    "csm_boot_table (pci_enable_mmconfig E x s) = csm_boot_table s" "csm_boot_table (copy_smbios_21 E x s) = csm_boot_table s"
    "csm_boot_table (callrom E x y s) = csm_boot_table s" "csm_boot_table (pic_irqmask_write E z s) = csm_boot_table s"
    "f \<in> set (hardware_setup E) \<Longrightarrow> csm_boot_table (f s) = csm_boot_table s"
  using assms unfolding keeps_boot_table_def by blast+

lemma fold_keeps: "(\<And>f s. f \<in> set fs \<Longrightarrow> P (f s) = P s) \<Longrightarrow> P (fold (\<lambda>f s. f s) fs s) = P s"
  by (induction fs arbitrary: s) auto

lemma boot_table_0002:
  assumes "keeps_boot_table E"
  shows "csm_boot_table (snd (handle_csm_0002 E L regs s)) = csm_boot_table s"
proof -
  note k = keeps_boot_tableD [OF assms]
  have h: "csm_boot_table (fold (\<lambda>f s. f s) (hardware_setup E) s) = csm_boot_table s" for s
    by (rule fold_keeps) (rule k(14))
  have e: "csm_boot_table (csm_add_e820 L s) = csm_boot_table s" "csm_boot_table (csm_reserve_pmm s) = csm_boot_table s"
    "csm_boot_table (csm_pirq L s) = csm_boot_table s" "csm_boot_table (csm_mmconfig E L s) = csm_boot_table s"
    "csm_boot_table (csm_acpi E L s) = csm_boot_table s" "csm_boot_table (csm_smbios E s) = csm_boot_table s"
    "csm_boot_table (csm_clear_hdcount s) = csm_boot_table s" for s
    by (simp_all add: csm_steps_defs Let_def k)
  show ?thesis unfolding handle_csm_0002_def Let_def by (simp add: k h e)
qed

lemma csm_return_boot_table:
  "csm_return E L regs s = Some (regs', s') \<Longrightarrow> csm_boot_table s' = csm_boot_table s"
  by (auto simp: csm_return_def Let_def split: option.splits)

lemma handle_csm_boot_table:
  assumes "keeps_boot_table E" "handle_csm E L regs s = Some (regs', s')" "ax regs \<noteq> 1"
  shows "csm_boot_table s' = csm_boot_table s"
proof -
  note k = keeps_boot_tableD [OF assms(1)]
  define s1 where "s1 = pic_irqmask_write E (PICMask (code_mutable_preinit E s)) (code_mutable_preinit E s)"
  have s1: "csm_boot_table s1 = csm_boot_table s" by (simp add: s1_def k)
  consider "ax regs = 0" | "ax regs = 2" | "ax regs = 3" | "ax regs = 5" | "ax regs = 6" | "ax regs \<notin> {0, 2, 3, 5, 6}"
    by blast
  then show ?thesis
  proof cases
    case 1
    with assms(2) have "handle_csm_0000 E L regs s1 = Some (regs', s')" by (simp add: handle_csm_def Let_def s1_def)
    then show ?thesis
      by (auto simp: handle_csm_0000_def csm_maininit_def Let_def k s1 dest!: csm_return_boot_table)
  next
    case 2
    with assms(2) have "csm_return E L (fst (handle_csm_0002 E L regs s1)) (snd (handle_csm_0002 E L regs s1)) = Some (regs', s')"
      by (simp add: handle_csm_def Let_def s1_def split_beta)
    with boot_table_0002 [OF assms(1)] s1 show ?thesis by (auto dest!: csm_return_boot_table)
  next
    case 3
    with assms(2) show ?thesis
      by (auto simp: handle_csm_def Let_def handle_csm_0003_def k dest!: csm_return_boot_table)
  next
    case 4
    with assms(2) obtain r1 s2 where "handle_csm_0005 E L regs s1 = Some (r1, s2)" "csm_return E L r1 s2 = Some (regs', s')"
      by (auto simp: handle_csm_def Let_def s1_def split: option.splits)
    with s1 show ?thesis
      by (auto simp: handle_csm_0005_def Let_def k dest!: csm_return_boot_table split: option.splits)
  next
    case 5
    with assms(2) show ?thesis
      by (auto simp: handle_csm_def Let_def handle_csm_0006_def k dest!: csm_return_boot_table split: prod.splits if_splits)
  next
    case 6
    with assms(2,3) show ?thesis
      by (auto simp: handle_csm_def Let_def k dest!: csm_return_boot_table)
  qed
qed

section \<open>Properties\<close>


text \<open>A machine on which the rest of SeaBIOS does nothing, with an allocator that is set up.\<close>

definition idle :: sea_rest where
  "idle = \<lparr>code_mutable_preinit = id, qemu_preinit = id, reloc_preinit = id, interface_init = id,
     pci_probe_devices = id, get_pnp_offset = 0x100, pci_enable_mmconfig = (\<lambda>_. id), find_acpi_features = id,
     copy_smbios_21 = (\<lambda>_. id), enable_vga_console = id, hardware_setup = [id, id], prepareboot = id,
     startBoot = id, callrom = (\<lambda>_ _. id), pic_irqmask_read = PICMask, pic_irqmask_write = (\<lambda>_. id)\<rparr>"

definition csm_link_example :: csm_link where
  "csm_link_example = \<lparr>csm_compat_table = 0xF5000, csm_rsdp = 0xF5100, final_readonly_start = 0xF0000,
     layout = link_example\<rparr>"

definition csm_example :: csm16 where
  "csm_example = \<lparr>ram = (\<lambda>_. 0), heap = rom_example, emap = sea_example, csm_init_table = 0x23080,
     csm_boot_table = 0, PICMask = 0xFFFB, PirAddr = 0, RsdpAddr = 0\<rparr>"

definition regs_example :: bregs where
  "regs_example = \<lparr>ax = 2, bx = 0x30A8, cx = 0, dx = 0, ds = 0, es = 0x2000, bp = 0\<rparr>"

lemma idle_keeps: "keeps_boot_table idle"
  by (auto simp: keeps_boot_table_def idle_def)

lemma idle_0002_heap: "heap (snd (handle_csm_0002 idle L regs s)) = heap s"
proof -
  have "heap (csm_add_e820 L s) = heap s" "heap (csm_reserve_pmm s) = heap s" "heap (csm_pirq L s) = heap s"
    "heap (csm_mmconfig idle L s) = heap s" "heap (csm_acpi idle L s) = heap s" "heap (csm_smbios idle s) = heap s"
    "heap (csm_clear_hdcount s) = heap s" for s
    by (simp_all add: csm_steps_defs Let_def idle_def)
  moreover have "enable_vga_console idle = id" "prepareboot idle = id" "hardware_setup idle = [id, id]"
    by (simp_all add: idle_def)
  ultimately show ?thesis by (simp add: handle_csm_0002_def Let_def)
qed

lemma idle_prepare:
  "ax regs = 2 \<Longrightarrow> handle_csm idle L regs s =
     csm_return idle L (fst (handle_csm_0002 idle L regs s)) (snd (handle_csm_0002 idle L regs s))"
proof -
  have "code_mutable_preinit idle = id" "pic_irqmask_write idle x = id" for x by (simp_all add: idle_def)
  then show "ax regs = 2 \<Longrightarrow> ?thesis" by (simp add: handle_csm_def Let_def split_beta)
qed


lemma flat_seg_off:
  assumes "unat (p :: u32) < 2 ^ 20"
  shows "16 * unat (ucast (FLATPTR_TO_SEG p) :: u16) + unat (ucast (FLATPTR_TO_OFFSET p) :: u16) = unat p"
proof -
  have "p AND 0xF = p AND mask 4" by (simp add: mask_numeral)
  then have "unat (ucast (FLATPTR_TO_OFFSET p) :: u16) = unat p mod 16"
    by (simp add: FLATPTR_TO_OFFSET_def unat_ucast_mod unat_and_mask)
  moreover have "unat (ucast (FLATPTR_TO_SEG p) :: u16) = unat p div 16"
    using assms by (simp add: FLATPTR_TO_SEG_def unat_ucast_mod unat_shiftr)
  ultimately show ?thesis by simp
qed

lemma csm_table_align_pow:
  obtains k where "k < 32" "ucast (csm_table_align a) = (2 ^ k :: u32)" "4 \<le> k" "a \<noteq> 0 \<longrightarrow> ffs (ucast a) \<le> k"
proof -
  let ?j = "ffs (ucast a)"
  have min: "ucast (ucast MALLOC_MIN_ALIGN :: u16) = (2 ^ 4 :: u32)" by (simp add: MALLOC_MIN_ALIGN_def)
  have j: "?j < 16" "ucast (push_bit ?j 1 :: u16) = (2 ^ ?j :: u32)" if "a \<noteq> 0"
  proof -
    have "unat (ucast a :: u32) = unat a" by simp
    with that have "ucast a \<noteq> (0 :: u32)" by (metis unat_eq_zero)
    from ffs_bit(2) [OF this] have "bit a ?j" by (simp add: bit_ucast_iff)
    then show "?j < 16" using bit_imp_le_length [of a ?j] by simp
    then show "ucast (push_bit ?j 1 :: u16) = (2 ^ ?j :: u32)"
      by (intro bit_word_eqI) (auto simp: bit_ucast_iff bit_push_bit_iff bit_exp_iff bit_1_iff)
  qed
  have lt: "(2 ^ n :: u32) < MALLOC_MIN_ALIGN \<longleftrightarrow> n < 4" if "n < 16" for n
  proof -
    have "unat (2 ^ n :: u32) = 2 ^ n" using that by (intro unat_pow) simp
    moreover have "(2 :: nat) ^ n < 2 ^ 4 \<longleftrightarrow> n < 4" by (rule power_strict_increasing_iff) simp
    ultimately show ?thesis by (simp add: word_less_nat_alt MALLOC_MIN_ALIGN_def)
  qed
  show ?thesis
  proof (cases "a = 0 \<or> ?j < 4")
    case True
    then have "ucast (csm_table_align a) = (2 ^ 4 :: u32)"
      using j lt [OF j(1)] min by (auto simp: csm_table_align_def Let_def)
    with True show ?thesis by (intro that [of 4]) auto
  next
    case False
    then have "ucast (csm_table_align a) = (2 ^ ?j :: u32)"
      using j lt [OF j(1)] by (auto simp: csm_table_align_def Let_def)
    with False j show ?thesis by (intro that [of ?j]) auto
  qed
qed

text \<open>The two attempts of \<^verbatim>\<open>handle_csm_0006\<close>: low memory and the F segment, as far as the caller allows.\<close>

lemma handle_csm_0006_cases:
  assumes "heap_ok (heap s)"
  obtains k c2 h2 where "k < 32" "4 \<le> k" "dx regs \<noteq> 0 \<longrightarrow> ffs (ucast (dx regs)) \<le> k" "heap_ok h2"
    "if c2 = 0 then h2 = heap s else (\<exists>z \<in> {ZoneLow, ZoneFSeg}. pmm_block z (ucast (cx regs)) k c2 (heap s) h2 \<and>
      (bx regs = 1 \<longrightarrow> z = ZoneFSeg) \<and> (bx regs = 2 \<longrightarrow> z = ZoneLow))"
    "handle_csm_0006 regs s = (if c2 \<noteq> 0 then
      (regs\<lparr>ds := ucast (FLATPTR_TO_SEG c2), bx := ucast (FLATPTR_TO_OFFSET c2), ax := 0\<rparr>, s\<lparr>heap := h2\<rparr>)
      else (regs\<lparr>ax := 1\<rparr>, s\<lparr>heap := h2\<rparr>))"
proof -
  obtain k where k: "k < 32" "ucast (csm_table_align (dx regs)) = (2 ^ k :: u32)" "4 \<le> k"
    "dx regs \<noteq> 0 \<longrightarrow> ffs (ucast (dx regs)) \<le> k" by (rule csm_table_align_pow)
  define region where "region = (if bx regs = 0 then 3 else bx regs)"
  define sz :: u32 where "sz = ucast (cx regs)"
  have sz: "unat sz = unat (cx regs)" "unat sz < 2 ^ 31"
    using unat_bound(2) [of "cx regs"] by (simp_all add: sz_def del: unat_bound)
  obtain c1 h1 where 1: "(if region AND 2 \<noteq> 0 then malloc_palloc ZoneLow sz (2 ^ k) (heap s) else (0, heap s)) = (c1, h1)"
    by (rule prod.exhaust)
  obtain c2 h2 where 2: "(if c1 = 0 \<and> region AND 1 \<noteq> 0 then malloc_palloc ZoneFSeg sz (2 ^ k) h1 else (c1, h1)) = (c2, h2)"
    by (rule prod.exhaust)
  have F1: "heap_ok h1" "if c1 = 0 then h1 = heap s else pmm_block ZoneLow sz k c1 (heap s) h1 \<and> region AND 2 \<noteq> 0"
    using 1 malloc_palloc_pmm [OF assms _ k(1) sz(2), of ZoneLow c1 h1] assms by (auto split: if_splits)
  have F2: "heap_ok h2" "if c2 = 0 then h2 = heap s else (\<exists>z \<in> {ZoneLow, ZoneFSeg}. pmm_block z sz k c2 (heap s) h2 \<and>
      (z = ZoneLow \<longrightarrow> region AND 2 \<noteq> 0) \<and> (z = ZoneFSeg \<longrightarrow> region AND 1 \<noteq> 0))"
    using 2 F1 malloc_palloc_pmm [OF F1(1) _ k(1) sz(2), of ZoneFSeg c2 h2] by (auto split: if_splits)
  have r: "handle_csm_0006 regs s = (if c2 \<noteq> 0 then
      (regs\<lparr>ds := ucast (FLATPTR_TO_SEG c2), bx := ucast (FLATPTR_TO_OFFSET c2), ax := 0\<rparr>, s\<lparr>heap := h2\<rparr>)
      else (regs\<lparr>ax := 1\<rparr>, s\<lparr>heap := h2\<rparr>))"
    unfolding handle_csm_0006_def Let_def k(2) region_def [symmetric] sz_def [symmetric] 1 prod.case 2 by simp
  have "if c2 = 0 then h2 = heap s else (\<exists>z \<in> {ZoneLow, ZoneFSeg}. pmm_block z (ucast (cx regs)) k c2 (heap s) h2 \<and>
      (bx regs = 1 \<longrightarrow> z = ZoneFSeg) \<and> (bx regs = 2 \<longrightarrow> z = ZoneLow))"
    using F2(2) unfolding sz_def region_def by (auto split: if_splits)
  then show ?thesis using that [OF k(1,3,4) F2(1) _ r] by blast
qed

text \<open>
  C12.  \<^verbatim>\<open>Legacy16GetTableAddress\<close> keeps the allocator in order.  When it fails it changes nothing.  When it
  succeeds, the block comes from the E segment or F segment zone as the region asks, is free, is
  aligned to 16 bytes and to the lowest bit of the alignment, and, below 1 MiB, \<^verbatim>\<open>DS:BX\<close> is its address.
\<close>

theorem handle_csm_0006_correct:
  assumes "heap_ok (heap s)" "handle_csm_0006 regs s = (regs', s')"
  shows "heap_ok (heap s') \<and> ax regs' \<in> {0, 1} \<and> (ax regs' = 1 \<longrightarrow> heap s' = heap s) \<and>
    (ax regs' = 0 \<longrightarrow> (\<exists>z (chunk :: u32). z \<in> {ZoneLow, ZoneFSeg} \<and> (bx regs = 1 \<longrightarrow> z = ZoneFSeg) \<and> (bx regs = 2 \<longrightarrow> z = ZoneLow) \<and>
      used z (heap s) \<inter> {unat chunk ..< unat chunk + unat (cx regs)} = {} \<and>
      {unat chunk ..< unat chunk + unat (cx regs)} \<subseteq> used z (heap s') \<and>
      unat chunk mod 16 = 0 \<and> (dx regs \<noteq> 0 \<longrightarrow> unat chunk mod 2 ^ ffs (ucast (dx regs)) = 0) \<and>
      (unat chunk < 2 ^ 20 \<longrightarrow> 16 * unat (ds regs') + unat (bx regs') = unat chunk)))"
proof -
  obtain k c2 h2 where k: "k < 32" "4 \<le> k" "dx regs \<noteq> 0 \<longrightarrow> ffs (ucast (dx regs)) \<le> k"
    and F2: "heap_ok h2" "if c2 = 0 then h2 = heap s else (\<exists>z \<in> {ZoneLow, ZoneFSeg}. pmm_block z (ucast (cx regs)) k c2 (heap s) h2 \<and>
      (bx regs = 1 \<longrightarrow> z = ZoneFSeg) \<and> (bx regs = 2 \<longrightarrow> z = ZoneLow))"
    and r: "handle_csm_0006 regs s = (if c2 \<noteq> 0 then
      (regs\<lparr>ds := ucast (FLATPTR_TO_SEG c2), bx := ucast (FLATPTR_TO_OFFSET c2), ax := 0\<rparr>, s\<lparr>heap := h2\<rparr>)
      else (regs\<lparr>ax := 1\<rparr>, s\<lparr>heap := h2\<rparr>))"
    by (rule handle_csm_0006_cases [OF assms(1)])
  have sz: "unat (ucast (cx regs) :: u32) = unat (cx regs)" by (simp add: unat_ucast_up)
  show ?thesis
  proof (cases "c2 = 0")
    case True
    with r assms(2) F2 show ?thesis by auto
  next
    case False
    then obtain z where z: "z \<in> {ZoneLow, ZoneFSeg}" "pmm_block z (ucast (cx regs)) k c2 (heap s) h2"
      and zr: "bx regs = 1 \<longrightarrow> z = ZoneFSeg" "bx regs = 2 \<longrightarrow> z = ZoneLow"
      using F2(2) by auto
    have m: "unat c2 mod 2 ^ j = 0" if "j \<le> k" for j
      using z(2) that unfolding pmm_block_def mod_eq_0_iff_dvd by (meson dvd_trans le_imp_power_dvd)
    have "unat c2 mod 16 = 0" using m [OF k(2)] by simp
    moreover have rr: "regs' = regs\<lparr>ds := ucast (FLATPTR_TO_SEG c2), bx := ucast (FLATPTR_TO_OFFSET c2), ax := 0\<rparr>"
      "s' = s\<lparr>heap := h2\<rparr>" using r assms(2) False by simp_all
    moreover have "unat c2 < 2 ^ 20 \<longrightarrow> 16 * unat (ds regs') + unat (bx regs') = unat c2"
      using flat_seg_off [of c2] by (simp add: rr)
    moreover have "dx regs \<noteq> 0 \<longrightarrow> unat c2 mod 2 ^ ffs (ucast (dx regs)) = 0" using m k(3) by blast
    moreover have "used z (heap s) \<inter> {unat c2 ..< unat c2 + unat (cx regs)} = {}"
      "{unat c2 ..< unat c2 + unat (cx regs)} \<subseteq> used z h2"
      using z(2) unfolding pmm_block_def sz by blast+
    moreover have h: "heap s' = h2" and ax: "ax regs' = 0" unfolding rr by simp_all
    ultimately have "\<exists>z (chunk :: u32). z \<in> {ZoneLow, ZoneFSeg} \<and> (bx regs = 1 \<longrightarrow> z = ZoneFSeg) \<and>
      (bx regs = 2 \<longrightarrow> z = ZoneLow) \<and> used z (heap s) \<inter> {unat chunk ..< unat chunk + unat (cx regs)} = {} \<and>
      {unat chunk ..< unat chunk + unat (cx regs)} \<subseteq> used z (heap s') \<and> unat chunk mod 16 = 0 \<and>
      (dx regs \<noteq> 0 \<longrightarrow> unat chunk mod 2 ^ ffs (ucast (dx regs)) = 0) \<and>
      (unat chunk < 2 ^ 20 \<longrightarrow> 16 * unat (ds regs') + unat (bx regs') = unat chunk)"
      using z(1) zr unfolding h by - (rule exI [of _ z], rule exI [of _ c2], intro conjI)
    moreover have "heap_ok (heap s')" using F2(1) h by simp
    moreover have "ax regs' \<in> {0, 1}" "ax regs' = 1 \<longrightarrow> heap s' = heap s" by (simp_all add: ax)
    ultimately show ?thesis
      by - (rule conjI, assumption, rule conjI, assumption, rule conjI, assumption, rule impI, assumption)
  qed
qed

lemma rom_example_ok: "heap_ok rom_example"
  by (simp add: heap_ok_def rom_example_def heap_example_def heap_wf_def)
    (auto simp: settled_def above_zero_def split: if_splits)

definition table_regs :: bregs where
  "table_regs = \<lparr>ax = 6, bx = 0, cx = 0x40, dx = 0x20, ds = 0, es = 0, bp = 0\<rparr>"

theorem handle_csm_0006_correct_witness:
  "\<exists>regs' s'. handle_csm_0006 table_regs csm_example = (regs', s') \<and> ax regs' = 0 \<and>
     (\<exists>z \<in> {ZoneLow, ZoneFSeg}. \<exists>chunk :: u32. unat chunk mod 32 = 0 \<and> {unat chunk ..< unat chunk + 0x40} \<subseteq> used z (heap s'))"
proof -
  obtain regs' s' where r: "handle_csm_0006 table_regs csm_example = (regs', s')" by (rule prod.exhaust)
  have "ax (fst (handle_csm_0006 table_regs csm_example)) = 0" by code_simp
  with r have ax: "ax regs' = 0" by simp
  have d: "cx table_regs = 0x40" "dx table_regs = 0x20" by (simp_all add: table_regs_def)
  have f: "ffs 0x20 = 5" by (simp add: ffs_def upt_rec)
  have "heap_ok (heap csm_example)" by (simp add: csm_example_def rom_example_ok)
  from handle_csm_0006_correct [OF this r, THEN conjunct2, THEN conjunct2, THEN conjunct2, rule_format, OF ax]
  obtain z and chunk :: u32 where "z \<in> {ZoneLow, ZoneFSeg}"
    "{unat chunk ..< unat chunk + 0x40} \<subseteq> used z (heap s')" "unat chunk mod 2 ^ 5 = 0"
    by (elim exE conjE) (simp add: d f)
  then have "\<exists>z \<in> {ZoneLow, ZoneFSeg}. \<exists>chunk :: u32. unat chunk mod 32 = 0 \<and>
      {unat chunk ..< unat chunk + 0x40} \<subseteq> used z (heap s')"
    by (intro bexI [of _ z] exI [of _ chunk]) simp_all
  with r ax show ?thesis by (intro exI conjI)
qed

end
