(* ===== verification/Thunk.thy ===== *)
theory Thunk
  imports Libc
begin

text \<open>
  Calls from UEFI code into 16-bit real mode, \<^verbatim>\<open>src/x86thunk.c\<close> and \<^verbatim>\<open>src/x86thunk.h\<close>, in the
  64-bit build.  The assembly of \<^verbatim>\<open>arch/x86_64/Thunk16.asm\<close> is a parameter: its bytes and the
  offsets of its labels as a \<open>thunk_code\<close>, and the effect of \<^verbatim>\<open>InternalAsmThunk16\<close> as a function on
  the registers and the memory.
\<close>

section \<open>Data\<close>

type_synonym uintptr = u64

record thunk_code =
  m16 :: "u8 list"
  mThunk16Attr :: u16
  m16Gdt :: u16
  m16GdtrBase :: u16
  mTransition :: u16

text \<open>The registers of a thunk, \<^verbatim>\<open>IA32_DWORD_REGS\<close>; the flags are as wide as a pointer.\<close>

record IA32_REGISTER_SET =
  t_EDI :: u32
  t_ESI :: u32
  t_EBP :: u32
  t_ESP :: u32
  t_EBX :: u32
  t_EDX :: u32
  t_ECX :: u32
  t_EAX :: u32
  t_DS :: u16
  t_ES :: u16
  t_FS :: u16
  t_GS :: u16
  t_EFLAGS :: u64
  t_Eip :: u32
  t_CS :: u16
  t_SS :: u16

text \<open>The registers callers see, \<^verbatim>\<open>EFI_IA32_REGISTER_SET\<close>, with the 16-bit names as low halves.\<close>

record EFI_IA32_REGISTER_SET =
  r_EAX :: u32
  r_EBX :: u32
  r_ECX :: u32
  r_EDX :: u32
  r_ESI :: u32
  r_EDI :: u32
  r_EFlags :: u32
  r_ES :: u16
  r_CS :: u16
  r_SS :: u16
  r_DS :: u16
  r_FS :: u16
  r_GS :: u16
  r_EBP :: u32
  r_ESP :: u32

definition r_zero :: EFI_IA32_REGISTER_SET where
  "r_zero = \<lparr>r_EAX = 0, r_EBX = 0, r_ECX = 0, r_EDX = 0, r_ESI = 0, r_EDI = 0, r_EFlags = 0, r_ES = 0,
     r_CS = 0, r_SS = 0, r_DS = 0, r_FS = 0, r_GS = 0, r_EBP = 0, r_ESP = 0\<rparr>"

definition t_zero :: IA32_REGISTER_SET where
  "t_zero = \<lparr>t_EDI = 0, t_ESI = 0, t_EBP = 0, t_ESP = 0, t_EBX = 0, t_EDX = 0, t_ECX = 0, t_EAX = 0,
     t_DS = 0, t_ES = 0, t_FS = 0, t_GS = 0, t_EFLAGS = 0, t_Eip = 0, t_CS = 0, t_SS = 0\<rparr>"

text \<open>\<^verbatim>\<open>X.Flags\<close> is the low half of \<^verbatim>\<open>E.EFlags\<close>.\<close>

definition r_Flags :: "EFI_IA32_REGISTER_SET \<Rightarrow> u16" where
  "r_Flags r = ucast (r_EFlags r)"

definition set_low :: "u16 \<Rightarrow> u32 \<Rightarrow> u32" where
  "set_low v w = (w AND NOT (mask 16)) OR ucast v"

text \<open>\<open>set_field lo n v w\<close> assigns \<open>v\<close> to the \<open>n\<close>-bit field of \<open>w\<close> that starts at bit \<open>lo\<close>.\<close>

definition set_field :: "nat \<Rightarrow> nat \<Rightarrow> 'a::len word \<Rightarrow> 'a word \<Rightarrow> 'a word" where
  "set_field lo n v w = (w AND NOT (push_bit lo (mask n))) OR push_bit lo (v AND mask n)"

definition get_field :: "nat \<Rightarrow> nat \<Rightarrow> 'a::len word \<Rightarrow> 'a word" where
  "get_field lo n w = drop_bit lo w AND mask n"

record THUNK_CONTEXT =
  RealModeBuffer :: uintptr
  RealModeBufferSize :: u32
  ThunkAttributes :: u32

definition THUNK_ATTRIBUTE_BIG_REAL_MODE :: u32 where "THUNK_ATTRIBUTE_BIG_REAL_MODE = 1"
definition THUNK_ATTRIBUTE_DISABLE_A20_MASK_INT_15 :: u32 where "THUNK_ATTRIBUTE_DISABLE_A20_MASK_INT_15 = 2"
definition EFI_PAGE_SIZE :: u64 where "EFI_PAGE_SIZE = 4096"

section \<open>Preparing the low memory buffer\<close>

text \<open>\<open>sizeof (IA32_DWORD_REGS)\<close> with the 8 byte flags is 56.\<close>

definition AsmGetThunk16Properties :: "thunk_code \<Rightarrow> u32 \<times> u32" where
  "AsmGetThunk16Properties T = (of_nat (length (m16 T)), 56 + 8)"

definition gdt_update :: "nat \<Rightarrow> (u64 \<Rightarrow> u64) \<Rightarrow> mem \<Rightarrow> mem" where
  "gdt_update a f m = store64 a (f (load64 m a)) m"

definition AsmPrepareThunk16 :: "thunk_code \<Rightarrow> THUNK_CONTEXT \<Rightarrow> mem \<Rightarrow> mem" where
  "AsmPrepareThunk16 T ctx m =
     (let buf = RealModeBuffer ctx; b = unat buf;
          m = store_bytes b (m16 T) m;
          RealModeGdt = buf + ucast (m16Gdt T); g = unat RealModeGdt;
          m = gdt_update (g + 8) (set_field 16 16 (buf AND NOT 0xF)) m;
          m = gdt_update (g + 8) (set_field 32 8 (drop_bit 16 (ucast (ucast buf :: u32)))) m;
          t = b + unat (mTransition T);
          m = store32 t (load32 m t + (ucast buf AND 0xF)) m;
          m = (if ThunkAttributes ctx AND THUNK_ATTRIBUTE_BIG_REAL_MODE = 0 then
                 gdt_update (g + 16) (set_field 55 1 0) (gdt_update (g + 16) (set_field 48 4 0)
                   (gdt_update (g + 8) (set_field 55 1 0) (gdt_update (g + 8) (set_field 48 4 0) m)))
               else m);
          m = store64 (b + unat (m16GdtrBase T)) RealModeGdt m
      in store32 (b + unat (mThunk16Attr T)) (ThunkAttributes ctx) m)"

text \<open>
  \<open>asm16\<close> is \<^verbatim>\<open>InternalAsmThunk16\<close>: from the registers, the address of the transition code and the
  memory, the updated registers and the memory.
\<close>

type_synonym asm16 = "IA32_REGISTER_SET \<Rightarrow> uintptr \<Rightarrow> mem \<Rightarrow> IA32_REGISTER_SET \<times> mem"

definition AsmThunk16 :: "asm16 \<Rightarrow> THUNK_CONTEXT \<Rightarrow> IA32_REGISTER_SET \<Rightarrow> mem \<Rightarrow> IA32_REGISTER_SET \<times> mem" where
  "AsmThunk16 asm ctx regs m = asm regs (RealModeBuffer ctx) m"

definition AsmPrepareAndThunk16 ::
    "thunk_code \<Rightarrow> asm16 \<Rightarrow> THUNK_CONTEXT \<Rightarrow> IA32_REGISTER_SET \<Rightarrow> mem \<Rightarrow> IA32_REGISTER_SET \<times> mem" where
  "AsmPrepareAndThunk16 T asm ctx regs m = AsmThunk16 asm ctx regs (AsmPrepareThunk16 T ctx m)"

section \<open>Far calls\<close>

text \<open>The address of the first argument word for a stack of \<open>n\<close> bytes.\<close>

definition Stack16 :: "THUNK_CONTEXT \<Rightarrow> nat \<Rightarrow> uintptr" where
  "Stack16 ctx n = RealModeBuffer ctx + ucast (RealModeBufferSize ctx) - 2 - of_nat (2 * (n div 2))"

definition thunk_regs :: "u16 \<Rightarrow> u16 \<Rightarrow> EFI_IA32_REGISTER_SET \<Rightarrow> uintptr \<Rightarrow> IA32_REGISTER_SET" where
  "thunk_regs seg off r stk = t_zero\<lparr>
     t_EDI := r_EDI r AND 0xFFFF, t_ESI := r_ESI r AND 0xFFFF, t_EBP := r_EBP r AND 0xFFFF,
     t_EBX := r_EBX r AND 0xFFFF, t_EDX := r_EDX r AND 0xFFFF, t_ECX := r_ECX r,
     t_EAX := r_EAX r AND 0xFFFF, t_DS := r_DS r, t_ES := r_ES r, t_EFLAGS := ucast (r_Flags r),
     t_SS := ucast (push_bit 12 (drop_bit 16 stk)), t_ESP := ucast (ucast stk :: u16),
     t_CS := seg, t_Eip := ucast off\<rparr>"

definition efi_regs :: "IA32_REGISTER_SET \<Rightarrow> EFI_IA32_REGISTER_SET \<Rightarrow> EFI_IA32_REGISTER_SET" where
  "efi_regs t r = r\<lparr>r_EDI := t_EDI t, r_ESI := t_ESI t, r_EBP := t_EBP t, r_EBX := t_EBX t, r_EDX := t_EDX t,
     r_ECX := t_ECX t, r_EAX := t_EAX t, r_SS := t_SS t, r_CS := t_CS t, r_DS := t_DS t, r_ES := t_ES t,
     r_EFlags := set_low (ucast (t_EFLAGS t)) (r_EFlags r)\<rparr>"

text \<open>
  The caller's stack is passed by its bytes, \<open>[]\<close> for \<^verbatim>\<open>NULL\<close> or size 0, and returned by them.
\<close>

definition InternalLegacyBiosFarCall :: "asm16 \<Rightarrow> THUNK_CONTEXT \<Rightarrow> u16 \<Rightarrow> u16 \<Rightarrow> EFI_IA32_REGISTER_SET \<Rightarrow>
    u8 list \<Rightarrow> mem \<Rightarrow> bool \<times> EFI_IA32_REGISTER_SET \<times> u8 list \<times> mem" where
  "InternalLegacyBiosFarCall asm ctx seg off Regs Stack m =
     (let stk = Stack16 ctx (length Stack);
          m = store_bytes (unat stk) Stack m;
          (ThunkRegSet, m) = AsmThunk16 asm ctx (thunk_regs seg off Regs stk) m;
          Stack = load_bytes m (unat stk) (length Stack);
          Regs = efi_regs ThunkRegSet Regs
      in (bit (r_Flags Regs) 0, Regs, Stack, m))"

definition set_call_flags :: "u16 \<Rightarrow> EFI_IA32_REGISTER_SET \<Rightarrow> EFI_IA32_REGISTER_SET" where
  "set_call_flags IF' r =
     (let f = r_Flags r;
          f = set_field 1 1 1 f; f = set_field 3 1 0 f; f = set_field 5 1 0 f; f = set_field 15 1 0 f;
          f = set_field 12 2 3 f; f = set_field 14 1 0 f; f = set_field 9 1 IF' f; f = set_field 8 1 0 f;
          f = set_field 0 1 0 f
      in r\<lparr>r_EFlags := set_low f (r_EFlags r)\<rparr>)"

definition LegacyBiosFarCall86 :: "asm16 \<Rightarrow> THUNK_CONTEXT \<Rightarrow> u16 \<Rightarrow> u16 \<Rightarrow> EFI_IA32_REGISTER_SET \<Rightarrow>
    u8 list \<Rightarrow> mem \<Rightarrow> bool \<times> EFI_IA32_REGISTER_SET \<times> u8 list \<times> mem" where
  "LegacyBiosFarCall86 asm ctx seg off Regs Stack m =
     InternalLegacyBiosFarCall asm ctx seg off (set_call_flags 1 Regs) Stack m"

definition LegacyBiosInt86 :: "asm16 \<Rightarrow> THUNK_CONTEXT \<Rightarrow> u8 \<Rightarrow> EFI_IA32_REGISTER_SET \<Rightarrow> mem \<Rightarrow>
    bool \<times> EFI_IA32_REGISTER_SET \<times> mem" where
  "LegacyBiosInt86 asm ctx BiosInt Regs m =
     (let Regs = set_call_flags 0 Regs;
          vec = load32 m (4 * unat BiosInt);
          (cf, Regs, _, m) = InternalLegacyBiosFarCall asm ctx (ucast (drop_bit 16 vec)) (ucast vec) Regs
            (le_bytes 2 (r_Flags Regs)) m
      in (cf, Regs, m))"

section \<open>Setup\<close>

definition LegacyBiosInitializeThunkAndTable ::
    "thunk_code \<Rightarrow> uintptr \<Rightarrow> u64 \<Rightarrow> mem \<Rightarrow> uintptr \<times> THUNK_CONTEXT \<times> mem" where
  "LegacyBiosInitializeThunkAndTable T MemoryAddress data_size m =
     (let data_pages = data_size div EFI_PAGE_SIZE + 1;
          ctx = \<lparr>RealModeBuffer = MemoryAddress + data_pages * EFI_PAGE_SIZE,
                 RealModeBufferSize = ucast EFI_PAGE_SIZE,
                 ThunkAttributes = THUNK_ATTRIBUTE_BIG_REAL_MODE OR THUNK_ATTRIBUTE_DISABLE_A20_MASK_INT_15\<rparr>;
          m = fst (libc_memset (unat (RealModeBuffer ctx)) 0 (unat (RealModeBufferSize ctx)) m);
          m = AsmPrepareThunk16 T ctx m
      in (RealModeBuffer ctx + ucast (RealModeBufferSize ctx) + EFI_PAGE_SIZE, ctx, m))"

section \<open>Lemmas\<close>

lemma bit_set_field:
  fixes w :: "'a::len word"
  shows "bit (set_field lo n v w) i \<longleftrightarrow>
    i < LENGTH('a) \<and> (if lo \<le> i \<and> i < lo + n then bit v (i - lo) else bit w i)"
  by (auto simp: set_field_def bit_and_iff bit_or_iff bit_not_iff bit_push_bit_iff bit_mask_iff
      bit_imp_le_length dest: bit_imp_le_length)

lemma bit_get_field:
  fixes w :: "'a::len word"
  shows "bit (get_field lo n w) i \<longleftrightarrow> i < n \<and> bit w (lo + i)"
  by (auto simp: get_field_def bit_and_iff bit_drop_bit_eq bit_mask_iff add.commute dest: bit_imp_le_length)

lemma get_set_same:
  "lo + n \<le> LENGTH('a) \<Longrightarrow> get_field lo n (set_field lo n v w) = (v AND mask n :: 'a::len word)"
  by (rule bit_word_eqI) (auto simp: bit_get_field bit_set_field bit_and_iff bit_mask_iff dest: bit_imp_le_length)

lemma get_set_other:
  fixes w :: "'a::len word"
  assumes "lo + n \<le> lo' \<or> lo' + n' \<le> lo"
  shows "get_field lo n (set_field lo' n' v w) = get_field lo n w"
  using assms by (intro bit_word_eqI) (auto simp: bit_get_field bit_set_field dest: bit_imp_le_length)

lemmas bit_fields = get_set_same get_set_other

text \<open>An address below 1 MiB is what real mode computes from its segment and offset.\<close>

lemma seg_off_linear:
  assumes "unat (a :: u64) < 2 ^ 20"
  shows "unat (ucast (push_bit 12 (drop_bit 16 a)) :: u16) * 16 + unat (ucast a :: u16) = unat a"
proof -
  have d: "unat (drop_bit 16 a) = unat a div 2 ^ 16" by (simp add: unat_shiftr)
  have "unat (push_bit 12 (drop_bit 16 a)) = unat a div 2 ^ 16 * 2 ^ 12"
    using assms by (simp add: push_bit_eq_mult unat_word_ariths d)
  then have "unat (ucast (push_bit 12 (drop_bit 16 a)) :: u16) = unat a div 2 ^ 16 * 2 ^ 12"
    using assms by (simp add: unat_ucast_mod)
  moreover have "unat (ucast a :: u16) = unat a mod 2 ^ 16" by (simp add: unat_ucast_mod)
  ultimately show ?thesis by simp
qed

text \<open>Reads of one place after writes to another.\<close>

lemma store64_out [mem_simps]: "x < a \<or> a + 8 \<le> x \<Longrightarrow> store64 a w m x = m x"
  by (simp add: store64_def store_bytes_out)

lemma load64_store64_out [mem_simps]: "a + 8 \<le> b \<or> b + 8 \<le> a \<Longrightarrow> load64 (store64 b w m) a = load64 m a"
  by (simp add: load64_def store64_def load_store_disjoint)

lemma load64_store32_out [mem_simps]: "a + 8 \<le> b \<or> b + 4 \<le> a \<Longrightarrow> load64 (store32 b w m) a = load64 m a"
  by (simp add: load64_def store32_def load_store_disjoint)

lemma load32_store64_out [mem_simps]: "a + 4 \<le> b \<or> b + 8 \<le> a \<Longrightarrow> load32 (store64 b w m) a = load32 m a"
  by (simp add: load32_def store64_def load_store_disjoint)

definition apart :: "nat \<Rightarrow> nat \<Rightarrow> nat \<Rightarrow> nat \<Rightarrow> bool" where
  "apart a n b k \<longleftrightarrow> a + n \<le> b \<or> b + k \<le> a"

text \<open>
  The labels of the assembly: four descriptors at \<open>m16Gdt\<close>, the base of the descriptor table, the
  attributes and the transition vector lie inside the code and do not overlap.
\<close>

definition thunk_layout :: "thunk_code \<Rightarrow> bool" where
  "thunk_layout T \<longleftrightarrow>
     (let g = unat (m16Gdt T); r = unat (m16GdtrBase T); t = unat (mTransition T); a = unat (mThunk16Attr T);
          n = length (m16 T)
      in g + 32 \<le> n \<and> r + 8 \<le> n \<and> t + 4 \<le> n \<and> a + 4 \<le> n \<and> apart g 32 r 8 \<and> apart g 32 t 4 \<and>
         apart g 32 a 4 \<and> apart r 8 t 4 \<and> apart r 8 a 4 \<and> apart t 4 a 4)"

definition gdt1_fields :: "bool \<Rightarrow> uintptr \<Rightarrow> u64 \<Rightarrow> u64" where
  "gdt1_fields big buf d =
     (let d = set_field 16 16 (buf AND NOT 0xF) d; d = set_field 32 8 (drop_bit 16 (ucast (ucast buf :: u32))) d
      in if big then d else set_field 55 1 0 (set_field 48 4 0 d))"

lemma gdt_update_twice: "gdt_update a f (gdt_update a f' m) = gdt_update a (\<lambda>d. f (f' d)) m"
  by (rule ext) (auto simp: gdt_update_def load64_store64, simp add: store64_def store_bytes_def)

lemma AsmPrepareThunk16_stores:
  fixes m :: mem
  assumes "thunk_layout T" "unat (RealModeBuffer ctx) + length (m16 T) \<le> 2 ^ 20"
  defines "b \<equiv> unat (RealModeBuffer ctx)" and "big \<equiv> ThunkAttributes ctx AND THUNK_ATTRIBUTE_BIG_REAL_MODE \<noteq> 0"
  defines "m0 \<equiv> store_bytes b (m16 T) m" and "g \<equiv> b + unat (m16Gdt T)"
  shows "AsmPrepareThunk16 T ctx m =
    store32 (b + unat (mThunk16Attr T)) (ThunkAttributes ctx)
     (store64 (b + unat (m16GdtrBase T)) (of_nat g)
      ((if big then id else gdt_update (g + 16) (\<lambda>d. set_field 55 1 0 (set_field 48 4 0 d)))
       ((if big then id else gdt_update (g + 8) (\<lambda>d. set_field 55 1 0 (set_field 48 4 0 d)))
        (store32 (b + unat (mTransition T)) (load32 m0 (b + unat (mTransition T)) + of_nat (b mod 16))
         (gdt_update (g + 8) (gdt1_fields True (RealModeBuffer ctx)) m0)))))"
proof -
  have lay: "unat (m16Gdt T) + 32 \<le> length (m16 T)" using assms(1) by (simp add: thunk_layout_def Let_def)
  have u: "unat (RealModeBuffer ctx + ucast (m16Gdt T)) = g"
    using lay assms(2) by (simp add: unat_word_ariths g_def b_def)
  have v: "RealModeBuffer ctx + ucast (m16Gdt T) = of_nat g" by (simp flip: u)
  have f: "ucast (RealModeBuffer ctx) AND 0xF = (of_nat (b mod 16) :: u32)"
  proof -
    have "ucast (RealModeBuffer ctx) AND 0xF = (ucast (RealModeBuffer ctx) AND mask 4 :: u32)" by (simp add: mask_numeral)
    also have "\<dots> = of_nat (unat (ucast (RealModeBuffer ctx) :: u32) mod 2 ^ 4)"
      unfolding unat_and_mask [symmetric] by simp
    also have "unat (ucast (RealModeBuffer ctx) :: u32) = b" using assms(2) by (simp add: unat_ucast_mod b_def)
    finally show ?thesis by simp
  qed
  have tr: "load32 (gdt_update (g + 8) h m0) (b + unat (mTransition T)) = load32 m0 (b + unat (mTransition T))" for h
    using assms(1) unfolding gdt_update_def g_def
    by (intro load32_store64_out) (auto simp: thunk_layout_def apart_def Let_def)
  have c: "(\<lambda>d. set_field 32 8 (drop_bit 16 (ucast (ucast (RealModeBuffer ctx) :: u32)))
      (set_field 16 16 (RealModeBuffer ctx AND NOT 0xF) d)) = gdt1_fields True (RealModeBuffer ctx)"
    by (simp add: fun_eq_iff gdt1_fields_def Let_def)
  show ?thesis
    unfolding AsmPrepareThunk16_def Let_def b_def [symmetric] m0_def [symmetric] gdt_update_twice f c
      v u [unfolded v] tr
    by (simp add: big_def)
qed

lemma load64_gdt_update [mem_simps]: "load64 (gdt_update a f m) a = f (load64 m a)"
  by (simp add: gdt_update_def load64_store64)

lemma load64_gdt_update_out [mem_simps]: "a + 8 \<le> b \<or> b + 8 \<le> a \<Longrightarrow> load64 (gdt_update b f m) a = load64 m a"
  by (simp add: gdt_update_def load64_store64_out)

lemma load32_gdt_update_out [mem_simps]: "a + 4 \<le> b \<or> b + 8 \<le> a \<Longrightarrow> load32 (gdt_update b f m) a = load32 m a"
  by (simp add: gdt_update_def load32_store64_out)

lemma gdt_update_out [mem_simps]: "x < b \<or> b + 8 \<le> x \<Longrightarrow> gdt_update b f m x = m x"
  by (simp add: gdt_update_def store64_out)

text \<open>The base of the code descriptor is the buffer rounded down to a paragraph.\<close>

lemma gdt1_base:
  assumes "unat buf < 2 ^ 20"
  shows "unat (get_field 16 16 (gdt1_fields big buf d)) + 2 ^ 16 * unat (get_field 32 8 (gdt1_fields big buf d)) =
    unat buf - unat buf mod 16"
proof -
  have "get_field 16 16 (gdt1_fields big buf d) = (buf AND NOT (mask 4)) AND mask 16"
    by (auto simp: gdt1_fields_def Let_def bit_fields mask_numeral)
  also have "\<dots> = (buf AND mask 16) AND NOT (mask 4)"
    by (rule bit_word_eqI) (auto simp: bit_and_iff)
  finally have "unat (get_field 16 16 (gdt1_fields big buf d)) =
      unat (buf AND mask 16) - unat (buf AND mask 16) mod 2 ^ 4"
    by (simp only: unat_and_not_mask)
  then have lo: "unat (get_field 16 16 (gdt1_fields big buf d)) = unat buf mod 2 ^ 16 - unat buf mod 16"
    by (simp add: unat_and_mask mod_mod_cancel)
  have "get_field 32 8 (gdt1_fields big buf d) = drop_bit 16 (ucast (ucast buf :: u32)) AND mask 8"
    by (auto simp: gdt1_fields_def Let_def bit_fields)
  then have hi: "unat (get_field 32 8 (gdt1_fields big buf d)) = unat buf div 2 ^ 16"
    using assms by (simp add: unat_and_mask unat_shiftr unat_ucast_mod)
  have "unat buf mod 2 ^ 16 mod 16 = unat buf mod 16" by (rule mod_mod_cancel) simp
  then have "unat buf mod 16 \<le> unat buf mod 2 ^ 16" using mod_less_eq_dividend [of "unat buf mod 2 ^ 16" 16] by linarith
  then show ?thesis unfolding lo hi using mult_div_mod_eq [of "2 ^ 16" "unat buf"] by linarith
qed

lemma thunk_layout_apart:
  assumes "thunk_layout T"
  shows "unat (m16Gdt T) + 8 + i + 8 \<le> unat (m16GdtrBase T) \<or> unat (m16GdtrBase T) + 8 \<le> unat (m16Gdt T) + 8 + i \<or> 16 < i"
    "unat (m16Gdt T) + 8 + i + 8 \<le> unat (mTransition T) \<or> unat (mTransition T) + 4 \<le> unat (m16Gdt T) + 8 + i \<or> 16 < i"
    "unat (m16Gdt T) + 8 + i + 8 \<le> unat (mThunk16Attr T) \<or> unat (mThunk16Attr T) + 4 \<le> unat (m16Gdt T) + 8 + i \<or> 16 < i"
    "unat (m16GdtrBase T) + 8 \<le> unat (mTransition T) \<or> unat (mTransition T) + 4 \<le> unat (m16GdtrBase T)"
    "unat (m16GdtrBase T) + 8 \<le> unat (mThunk16Attr T) \<or> unat (mThunk16Attr T) + 4 \<le> unat (m16GdtrBase T)"
    "unat (mTransition T) + 4 \<le> unat (mThunk16Attr T) \<or> unat (mThunk16Attr T) + 4 \<le> unat (mTransition T)"
  using assms unfolding thunk_layout_def apart_def Let_def by linarith+

lemma AsmPrepareThunk16_out:
  assumes "thunk_layout T" "unat (RealModeBuffer ctx) + length (m16 T) \<le> 2 ^ 20"
    and "x < unat (RealModeBuffer ctx) \<or> unat (RealModeBuffer ctx) + length (m16 T) \<le> x"
  shows "AsmPrepareThunk16 T ctx m x = m x"
proof -
  have "unat (m16Gdt T) + 32 \<le> length (m16 T)" "unat (m16GdtrBase T) + 8 \<le> length (m16 T)"
    "unat (mTransition T) + 4 \<le> length (m16 T)" "unat (mThunk16Attr T) + 4 \<le> length (m16 T)"
    using assms(1) by (simp_all add: thunk_layout_def Let_def)
  then show ?thesis
    unfolding AsmPrepareThunk16_stores [OF assms(1,2)]
    using assms(3) by (cases "ThunkAttributes ctx AND THUNK_ATTRIBUTE_BIG_REAL_MODE = 0") (auto simp: mem_simps)
qed

lemma Stack16_unat:
  assumes "unat (RealModeBuffer ctx) + unat (RealModeBufferSize ctx) \<le> 2 ^ 20"
    and "2 + 2 * (n div 2) \<le> unat (RealModeBufferSize ctx)"
  shows "unat (Stack16 ctx n) = unat (RealModeBuffer ctx) + unat (RealModeBufferSize ctx) - 2 - 2 * (n div 2)"
proof -
  have e: "unat (RealModeBuffer ctx + ucast (RealModeBufferSize ctx)) =
      unat (RealModeBuffer ctx) + unat (RealModeBufferSize ctx)"
    using assms(1) by (simp add: unat_word_ariths)
  have k: "unat (of_nat (2 + 2 * (n div 2)) :: u64) = 2 + 2 * (n div 2)"
  proof (rule of_nat_inverse [OF refl])
    have "2 + 2 * (n div 2) \<le> 2 ^ 20" using assms by linarith
    then show "2 + 2 * (n div 2) < 2 ^ LENGTH(64)" by (rule le_less_trans) simp
  qed
  have "Stack16 ctx n = RealModeBuffer ctx + ucast (RealModeBufferSize ctx) - of_nat (2 + 2 * (n div 2))"
    by (simp add: Stack16_def)
  also have "unat \<dots> = unat (RealModeBuffer ctx + ucast (RealModeBufferSize ctx)) - unat (of_nat (2 + 2 * (n div 2)) :: u64)"
    by (rule unat_sub) (use assms(2) in \<open>simp only: word_le_nat_alt e k\<close>)
  finally show ?thesis unfolding e k by linarith
qed

lemma set_low_low [simp]: "ucast (set_low v w) = v"
  by (rule bit_word_eqI) (auto simp: set_low_def bit_simps)

lemma r_Flags_set_low [simp]: "r_Flags (r\<lparr>r_EFlags := set_low v w\<rparr>) = v"
  by (simp add: r_Flags_def)

section \<open>Properties\<close>

text \<open>
  C19.  \<^verbatim>\<open>AsmPrepareThunk16\<close> on a buffer below 1 MiB.  Memory outside the buffer is untouched.  In
  it, the base of the code descriptor is the buffer rounded down to a paragraph and the transition
  vector is moved by the remainder, the descriptor table register and the attributes hold the
  table's address and the caller's attributes, and unless big real mode is asked for both
  descriptors get 64 KiB limits; in big real mode the data descriptor is the one of the assembly.
\<close>

theorem AsmPrepareThunk16_correct:
  fixes T :: thunk_code and ctx :: THUNK_CONTEXT and m :: mem
  defines "b \<equiv> unat (RealModeBuffer ctx)" and "m' \<equiv> AsmPrepareThunk16 T ctx m"
  defines "d1 \<equiv> load64 m' (b + unat (m16Gdt T) + 8)" and "d2 \<equiv> load64 m' (b + unat (m16Gdt T) + 16)"
  assumes "thunk_layout T" "b + length (m16 T) \<le> 2 ^ 20"
  shows "(\<forall>x. x < b \<or> b + length (m16 T) \<le> x \<longrightarrow> m' x = m x) \<and>
    unat (get_field 16 16 d1) + 2 ^ 16 * unat (get_field 32 8 d1) = b - b mod 16 \<and>
    load32 m' (b + unat (mTransition T)) = load32 (store_bytes 0 (m16 T) m) (unat (mTransition T)) + of_nat (b mod 16) \<and>
    load64 m' (b + unat (m16GdtrBase T)) = of_nat (b + unat (m16Gdt T)) \<and>
    load32 m' (b + unat (mThunk16Attr T)) = ThunkAttributes ctx \<and>
    (if ThunkAttributes ctx AND THUNK_ATTRIBUTE_BIG_REAL_MODE = 0
     then \<forall>d \<in> {d1, d2}. get_field 48 4 d = 0 \<and> get_field 55 1 d = 0
     else d2 = load64 (store_bytes 0 (m16 T) m) (unat (m16Gdt T) + 16))"
proof -
  note S = AsmPrepareThunk16_stores [OF assms(5,6) [unfolded b_def], of m, folded b_def m'_def]
  note L = thunk_layout_apart [OF assms(5)]
  note ap = L(1) [of 0, simplified] L(1) [of 8, simplified] L(2) [of 0, simplified] L(2) [of 8, simplified]
    L(3) [of 0, simplified] L(3) [of 8, simplified] L(4-6)
  have fit: "unat (m16Gdt T) + 32 \<le> length (m16 T)" "unat (m16GdtrBase T) + 8 \<le> length (m16 T)"
    "unat (mTransition T) + 4 \<le> length (m16 T)" "unat (mThunk16Attr T) + 4 \<le> length (m16 T)"
    using assms(5) by (simp_all add: thunk_layout_def Let_def)
  define big where "big \<longleftrightarrow> ThunkAttributes ctx AND THUNK_ATTRIBUTE_BIG_REAL_MODE \<noteq> 0"
  have at: "load32 (store_bytes b (m16 T) m) (b + k) = load32 (store_bytes 0 (m16 T) m) k" if "k + 4 \<le> length (m16 T)" for k
    using that by (simp add: load32_def load_store_inside)
  have at8: "load64 (store_bytes b (m16 T) m) (b + k) = load64 (store_bytes 0 (m16 T) m) k" if "k + 8 \<le> length (m16 T)" for k
    using that by (simp add: load64_def load_store_inside)
  have d1: "d1 = gdt1_fields big (RealModeBuffer ctx) (load64 (store_bytes b (m16 T) m) (b + unat (m16Gdt T) + 8))"
    unfolding d1_def S big_def [symmetric] using ap by (cases big) (simp_all add: mem_simps gdt1_fields_def Let_def)
  have d2: "d2 = (if big then id else (\<lambda>d. set_field 55 1 0 (set_field 48 4 0 d)))
      (load64 (store_bytes b (m16 T) m) (b + unat (m16Gdt T) + 16))"
    unfolding d2_def S big_def [symmetric] using ap by (cases big) (simp_all add: mem_simps)
  have "unat (RealModeBuffer ctx) < 2 ^ 20" using assms(6) fit unfolding b_def by linarith
  from gdt1_base [OF this] have base: "unat (get_field 16 16 d1) + 2 ^ 16 * unat (get_field 32 8 d1) = b - b mod 16"
    by (simp add: d1 b_def)
  have out: "m' x = m x" if "x < b \<or> b + length (m16 T) \<le> x" for x
    unfolding m'_def using that AsmPrepareThunk16_out [OF assms(5)] assms(6) by (simp add: b_def)
  have tr: "load32 m' (b + unat (mTransition T)) = load32 (store_bytes 0 (m16 T) m) (unat (mTransition T)) + of_nat (b mod 16)"
    unfolding S big_def [symmetric] using ap ap [THEN disj_commute [THEN iffD1]] at [OF fit(3)]
    by (cases big) (simp_all add: mem_simps)
  have gr: "load64 m' (b + unat (m16GdtrBase T)) = of_nat (b + unat (m16Gdt T))"
    unfolding S using ap by (simp add: mem_simps)
  have a: "load32 m' (b + unat (mThunk16Attr T)) = ThunkAttributes ctx" unfolding S by (simp add: mem_simps)
  have lim: "get_field 48 4 d1 = 0" "get_field 55 1 d1 = 0" "get_field 48 4 d2 = 0" "get_field 55 1 d2 = 0" if "\<not> big"
    using that by (simp_all add: d1 d2 gdt1_fields_def Let_def bit_fields)
  have "d2 = load64 (store_bytes 0 (m16 T) m) (unat (m16Gdt T) + 16)" if big
    using that at8 [of "unat (m16Gdt T) + 16"] fit(1) by (simp add: d2 add.assoc)
  with out base tr gr a lim show ?thesis by (auto simp: big_def)
qed

text \<open>A code of 128 bytes with its labels, prepared at \<^verbatim>\<open>0x26000\<close>.\<close>

definition thunk_example :: thunk_code where
  "thunk_example = \<lparr>m16 = replicate 128 0x90, mThunk16Attr = 8, m16Gdt = 64, m16GdtrBase = 16, mTransition = 32\<rparr>"

definition context_example :: THUNK_CONTEXT where
  "context_example = \<lparr>RealModeBuffer = 0x26000, RealModeBufferSize = 4096, ThunkAttributes = 3\<rparr>"

lemma thunk_example_layout: "thunk_layout thunk_example"
  by (simp add: thunk_layout_def thunk_example_def Let_def apart_def)

theorem AsmPrepareThunk16_correct_witness:
  "load64 (AsmPrepareThunk16 thunk_example context_example (\<lambda>_. 0)) 0x26010 = 0x26040 \<and>
   load32 (AsmPrepareThunk16 thunk_example context_example (\<lambda>_. 0)) 0x26008 = 3"
  using AsmPrepareThunk16_correct [OF thunk_example_layout, of context_example "\<lambda>_. 0"]
  by (simp add: context_example_def thunk_example_def)


text \<open>16-bit code that sets \<^verbatim>\<open>AX\<close> to 0x1234 and carry, and changes its first argument byte.\<close>

definition asm_example :: asm16 where
  "asm_example t tr m = (t\<lparr>t_EAX := 0x1234, t_EFLAGS := t_EFLAGS t OR 1\<rparr>, m(16 * unat (t_SS t) + unat (t_ESP t) := 7))"


lemma thunk_init_layout:
  assumes "thunk_layout T" "length (m16 T) \<le> 4096" "unat base + unat sz + 4096 * 3 \<le> 2 ^ 20"
    and "LegacyBiosInitializeThunkAndTable T base sz m = (p, ctx, m')"
  shows "unat base + unat sz < unat (RealModeBuffer ctx) \<and>
    unat (RealModeBuffer ctx) \<le> unat base + unat sz + 4096 \<and>
    RealModeBufferSize ctx = 4096 \<and> unat p = unat (RealModeBuffer ctx) + 2 * 4096 \<and>
    (unat base mod 4096 = 0 \<longrightarrow> unat p mod 4096 = 0) \<and>
    (\<forall>x. x < unat (RealModeBuffer ctx) \<or> unat (RealModeBuffer ctx) + 4096 \<le> x \<longrightarrow> m' x = m x)"
proof -
  define P where "P = sz div EFI_PAGE_SIZE + 1"
  have P: "unat P = unat sz div 4096 + 1"
    using assms(3) by (simp add: P_def EFI_PAGE_SIZE_def unat_word_ariths unat_div)
  have le: "unat sz div 4096 * 4096 \<le> unat sz" "unat sz < unat sz div 4096 * 4096 + 4096"
    using div_times_less_eq_dividend [of "unat sz" 4096] mod_less_divisor [of 4096 "unat sz"]
      div_mult_mod_eq [of "unat sz" 4096] by linarith+
  have b: "unat (base + P * EFI_PAGE_SIZE) = unat base + (unat sz div 4096 * 4096 + 4096)"
    using assms(3) le by (simp add: unat_word_ariths P EFI_PAGE_SIZE_def)
  have r: "RealModeBuffer ctx = base + P * EFI_PAGE_SIZE" "RealModeBufferSize ctx = 4096"
    "p = base + P * EFI_PAGE_SIZE + 4096 + 4096"
    "m' = AsmPrepareThunk16 T ctx (block_fill (unat (RealModeBuffer ctx)) 0 4096 m)"
    using assms(4) by (auto simp: LegacyBiosInitializeThunkAndTable_def P_def EFI_PAGE_SIZE_def Let_def
        libc_memset_def fill_up)
  have "unat (base + P * EFI_PAGE_SIZE + 8192) = unat (base + P * EFI_PAGE_SIZE) + 8192"
    using assms(3) le b by (simp add: unat_word_ariths(1) [of "base + P * EFI_PAGE_SIZE"])
  then have "unat p = unat (RealModeBuffer ctx) + 2 * 4096" by (simp add: r(1,3) add.commute)
  moreover have "m' x = m x" if "x < unat (RealModeBuffer ctx) \<or> unat (RealModeBuffer ctx) + 4096 \<le> x" for x
    using that assms(1-3) le AsmPrepareThunk16_out [of T ctx x] by (auto simp: r(1,4) b block_fill_def)
  ultimately show ?thesis using le b by (auto simp: r(1,2) mod_add_eq)
qed

text \<open>
  \<^verbatim>\<open>LegacyBiosInitializeThunkAndTable\<close> places its one-page buffer in the first page wholly above the
  data it is given, leaves all memory outside that page alone, and returns the
  end of the following page, so that the data, the thunk code with its stack, and the memory handed out from the
  returned address on do not overlap.
\<close>

theorem LegacyBiosInitializeThunkAndTable_layout:
  assumes "thunk_layout T" "length (m16 T) \<le> 4096" "unat base + unat sz + 4096 * 3 \<le> 2 ^ 20"
    and "LegacyBiosInitializeThunkAndTable T base sz m = (p, ctx, m')"
  shows "unat base + unat sz < unat (RealModeBuffer ctx) \<and>
    unat (RealModeBuffer ctx) \<le> unat base + unat sz + 4096 \<and>
    RealModeBufferSize ctx = 4096 \<and> unat p = unat (RealModeBuffer ctx) + 2 * 4096 \<and>
    (unat base mod 4096 = 0 \<longrightarrow> unat p mod 4096 = 0) \<and>
    (\<forall>x. x < unat (RealModeBuffer ctx) \<or> unat (RealModeBuffer ctx) + 4096 \<le> x \<longrightarrow> m' x = m x)"
  using thunk_init_layout [OF assms] .

theorem LegacyBiosInitializeThunkAndTable_layout_witness:
  "\<exists>ctx m'. LegacyBiosInitializeThunkAndTable thunk_example 0x20000 23480 (\<lambda>_. 0) = (0x28000, ctx, m') \<and>
     RealModeBuffer ctx = 0x26000 \<and> 0x20000 + 23480 < unat (RealModeBuffer ctx)"
proof -
  obtain p ctx m' where
    c: "LegacyBiosInitializeThunkAndTable thunk_example 0x20000 23480 (\<lambda>_. 0) = (p, ctx, m')" by (rule prod_cases3)
  then have "p = 0x28000" "RealModeBuffer ctx = 0x26000"
    by (auto simp: LegacyBiosInitializeThunkAndTable_def Let_def EFI_PAGE_SIZE_def)
  moreover have "length (m16 thunk_example) \<le> 4096" by (simp add: thunk_example_def)
  ultimately show ?thesis
    using LegacyBiosInitializeThunkAndTable_layout [OF thunk_example_layout _ _ c] c by simp
qed

end
