(* ===== verification/Pci_Io.thy ===== *)
theory Pci_Io
  imports CSM_Prelude "HOL-Library.State_Monad"
begin

text \<open>
  Hardware access, \<^verbatim>\<open>src/io.h\<close>: port, memory-mapped and model-specific register access, and PCI
  configuration space through the ports 0xCF8 and 0xCFC.

  The hardware is a parameter: a record of access functions over a device state.  The code is in
  the state monad of that device state, one operation per access, in the order of the source.
  \<open>mechanism1\<close> states what the PCI specification promises of the two ports (configuration
  mechanism #1), and \<open>plain_msrs\<close> that model-specific registers hold what is written.
  \<open>pc_hw\<close> is a concrete machine with these behaviours.
\<close>

section \<open>The hardware interface\<close>

record 'd hw =
  hw_in :: "nat \<Rightarrow> u16 \<Rightarrow> 'd \<Rightarrow> u32 \<times> 'd"
  hw_out :: "nat \<Rightarrow> u16 \<Rightarrow> u32 \<Rightarrow> 'd \<Rightarrow> 'd"
  hw_rdmsr :: "u32 \<Rightarrow> 'd \<Rightarrow> u64 \<times> 'd"
  hw_wrmsr :: "u32 \<Rightarrow> u64 \<Rightarrow> 'd \<Rightarrow> 'd"
  hw_load :: "nat \<Rightarrow> nat \<Rightarrow> 'd \<Rightarrow> u64 \<times> 'd"
  hw_store :: "nat \<Rightarrow> nat \<Rightarrow> u64 \<Rightarrow> 'd \<Rightarrow> 'd"
  hw_clflush :: "nat \<Rightarrow> 'd \<Rightarrow> 'd"
  hw_rdtsc :: "'d \<Rightarrow> u64 \<times> 'd"

definition effect :: "('d \<Rightarrow> 'd) \<Rightarrow> ('d, unit) state" where
  "effect f = State (\<lambda>d. ((), f d))"

lemma run_effect [simp]: "run_state (effect f) d = ((), f d)"
  by (simp add: effect_def)

section \<open>Memory and port access\<close>

definition clflush :: "'d hw \<Rightarrow> nat \<Rightarrow> ('d, unit) state" where
  "clflush hw addr = effect (hw_clflush hw addr)"

definition writel :: "'d hw \<Rightarrow> nat \<Rightarrow> u32 \<Rightarrow> ('d, unit) state" where
  "writel hw addr val = effect (hw_store hw 4 addr (ucast val))"

definition writew :: "'d hw \<Rightarrow> nat \<Rightarrow> u16 \<Rightarrow> ('d, unit) state" where
  "writew hw addr val = effect (hw_store hw 2 addr (ucast val))"

definition writeb :: "'d hw \<Rightarrow> nat \<Rightarrow> u8 \<Rightarrow> ('d, unit) state" where
  "writeb hw addr val = effect (hw_store hw 1 addr (ucast val))"

definition readq :: "'d hw \<Rightarrow> nat \<Rightarrow> ('d, u64) state" where
  "readq hw addr = State (hw_load hw 8 addr)"

definition readl :: "'d hw \<Rightarrow> nat \<Rightarrow> ('d, u32) state" where
  "readl hw addr = State (\<lambda>d. map_prod ucast id (hw_load hw 4 addr d))"

definition readw :: "'d hw \<Rightarrow> nat \<Rightarrow> ('d, u16) state" where
  "readw hw addr = State (\<lambda>d. map_prod ucast id (hw_load hw 2 addr d))"

definition readb :: "'d hw \<Rightarrow> nat \<Rightarrow> ('d, u8) state" where
  "readb hw addr = State (\<lambda>d. map_prod ucast id (hw_load hw 1 addr d))"

definition inb :: "'d hw \<Rightarrow> u16 \<Rightarrow> ('d, u8) state" where
  "inb hw port = State (\<lambda>d. map_prod ucast id (hw_in hw 1 port d))"

definition inw :: "'d hw \<Rightarrow> u16 \<Rightarrow> ('d, u16) state" where
  "inw hw port = State (\<lambda>d. map_prod ucast id (hw_in hw 2 port d))"

definition inl :: "'d hw \<Rightarrow> u16 \<Rightarrow> ('d, u32) state" where
  "inl hw port = State (hw_in hw 4 port)"

definition outb :: "'d hw \<Rightarrow> u16 \<Rightarrow> u8 \<Rightarrow> ('d, unit) state" where
  "outb hw port data = effect (hw_out hw 1 port (ucast data))"

definition outw :: "'d hw \<Rightarrow> u16 \<Rightarrow> u16 \<Rightarrow> ('d, unit) state" where
  "outw hw port data = effect (hw_out hw 2 port (ucast data))"

definition outl :: "'d hw \<Rightarrow> u16 \<Rightarrow> u32 \<Rightarrow> ('d, unit) state" where
  "outl hw port data = effect (hw_out hw 4 port data)"

text \<open>\<^verbatim>\<open>rdmsr\<close> joins the two halves the instruction delivers; \<^verbatim>\<open>wrmsr\<close> splits the value again.\<close>

definition rdmsr :: "'d hw \<Rightarrow> u32 \<Rightarrow> ('d, u64) state" where
  "rdmsr hw index = State (\<lambda>d.
     let (val, d') = hw_rdmsr hw index d; edx = ucast (drop_bit 32 val) :: u32; eax = ucast val :: u32
     in (push_bit 32 (ucast edx) OR ucast eax, d'))"

definition wrmsr :: "'d hw \<Rightarrow> u32 \<Rightarrow> u64 \<Rightarrow> ('d, unit) state" where
  "wrmsr hw index val = (let eax = ucast val :: u32; edx = ucast (drop_bit 32 val) :: u32
     in effect (hw_wrmsr hw index (push_bit 32 (ucast edx) OR ucast eax)))"

definition rdtsc :: "'d hw \<Rightarrow> ('d, u64) state" where
  "rdtsc hw = State (\<lambda>d.
     let (val, d') = hw_rdtsc hw d; edx = ucast (drop_bit 32 val) :: u32; eax = ucast val :: u32
     in (push_bit 32 (ucast edx) OR ucast eax, d'))"

partial_function (option) delay_loop :: "'d hw \<Rightarrow> u64 \<Rightarrow> 'd \<Rightarrow> 'd option" where
  "delay_loop hw next_stop d =
     (let (t, d') = run_state (rdtsc hw) d in
      if t < next_stop then delay_loop hw next_stop d' else Some d')"

definition delay :: "'d hw \<Rightarrow> u64 \<Rightarrow> 'd \<Rightarrow> 'd option" where
  "delay hw cycles d =
     (let (t, d') = run_state (rdtsc hw) d in delay_loop hw (t + cycles) d')"

section \<open>PCI configuration space\<close>

definition PCI_CONFIG_ADDRESS :: u16 where "PCI_CONFIG_ADDRESS = 0xCF8"
definition PCI_CONFIG_DATA :: u16 where "PCI_CONFIG_DATA = 0xCFC"

definition pci_address :: "u32 \<Rightarrow> u32 \<Rightarrow> u32 \<Rightarrow> u32 \<Rightarrow> u32" where
  "pci_address bus slot func offset =
     0x80000000 OR push_bit 16 (bus AND 0xFF) OR push_bit 11 (slot AND 0x1F)
       OR push_bit 8 (func AND 0x7) OR (offset AND 0xFF)"

definition pciSetAddress :: "'d hw \<Rightarrow> u32 \<Rightarrow> u32 \<Rightarrow> u32 \<Rightarrow> u32 \<Rightarrow> ('d, unit) state" where
  "pciSetAddress hw bus slot func offset =
     outl hw PCI_CONFIG_ADDRESS (pci_address bus slot func offset)"

definition pciConfigReadByte :: "'d hw \<Rightarrow> u32 \<Rightarrow> u32 \<Rightarrow> u32 \<Rightarrow> u32 \<Rightarrow> ('d, u8) state" where
  "pciConfigReadByte hw bus slot func offset = do {
     pciSetAddress hw bus slot func offset;
     inb hw (PCI_CONFIG_DATA + ucast (offset AND 3))
   }"

definition pciConfigReadWord :: "'d hw \<Rightarrow> u32 \<Rightarrow> u32 \<Rightarrow> u32 \<Rightarrow> u32 \<Rightarrow> ('d, u16) state" where
  "pciConfigReadWord hw bus slot func offset = do {
     pciSetAddress hw bus slot func offset;
     inw hw (PCI_CONFIG_DATA + ucast (offset AND 2))
   }"

definition pciConfigReadDWord :: "'d hw \<Rightarrow> u32 \<Rightarrow> u32 \<Rightarrow> u32 \<Rightarrow> u32 \<Rightarrow> ('d, u32) state" where
  "pciConfigReadDWord hw bus slot func offset = do {
     pciSetAddress hw bus slot func offset;
     inl hw PCI_CONFIG_DATA
   }"

definition pciConfigWriteByte :: "'d hw \<Rightarrow> u32 \<Rightarrow> u32 \<Rightarrow> u32 \<Rightarrow> u32 \<Rightarrow> u8 \<Rightarrow> ('d, unit) state" where
  "pciConfigWriteByte hw bus slot func offset data = do {
     pciSetAddress hw bus slot func offset;
     outb hw (PCI_CONFIG_DATA + ucast (offset AND 3)) data
   }"

definition pciConfigWriteWord :: "'d hw \<Rightarrow> u32 \<Rightarrow> u32 \<Rightarrow> u32 \<Rightarrow> u32 \<Rightarrow> u16 \<Rightarrow> ('d, unit) state" where
  "pciConfigWriteWord hw bus slot func offset data = do {
     pciSetAddress hw bus slot func offset;
     outw hw (PCI_CONFIG_DATA + ucast (offset AND 2)) data
   }"

definition pciConfigWriteDWord :: "'d hw \<Rightarrow> u32 \<Rightarrow> u32 \<Rightarrow> u32 \<Rightarrow> u32 \<Rightarrow> u32 \<Rightarrow> ('d, unit) state" where
  "pciConfigWriteDWord hw bus slot func offset data = do {
     pciSetAddress hw bus slot func offset;
     outl hw PCI_CONFIG_DATA data
   }"

section \<open>What the hardware promises\<close>

text \<open>
  A byte of configuration space is addressed by bus, device, function and register packed into
  24 bits.  The address register holds what was last written to 0xCF8; with its enable bit set,
  an access of \<open>n\<close> bytes at 0xCFC + k reaches bytes k to k + n - 1 of the addressed doubleword,
  whose two low address bits are ignored.
\<close>

definition pci_key :: "u32 \<Rightarrow> u32 \<Rightarrow> u32 \<Rightarrow> u32 \<Rightarrow> u32" where
  "pci_key bus slot func offset =
     push_bit 16 (bus AND 0xFF) OR push_bit 11 (slot AND 0x1F)
       OR push_bit 8 (func AND 0x7) OR (offset AND 0xFF)"

definition cfg_window :: "u32 \<Rightarrow> nat \<Rightarrow> nat \<Rightarrow> u32 list" where
  "cfg_window latch k n = map (\<lambda>i. (latch AND 0xFFFFFC) OR of_nat (k + i)) [0..<n]"

definition cfg_write :: "u32 list \<Rightarrow> u32 \<Rightarrow> (u32 \<Rightarrow> u8) \<Rightarrow> u32 \<Rightarrow> u8" where
  "cfg_write ks v c = fold (\<lambda>(k, b) c. c(k := b)) (zip ks (le_bytes (length ks) v)) c"

definition mechanism1 :: "'d hw \<Rightarrow> ('d \<Rightarrow> u32) \<Rightarrow> ('d \<Rightarrow> u32 \<Rightarrow> u8) \<Rightarrow> bool" where
  "mechanism1 hw latch cfg \<longleftrightarrow>
     (\<forall>a d. latch (hw_out hw 4 0xCF8 a d) = a \<and> cfg (hw_out hw 4 0xCF8 a d) = cfg d) \<and>
     (\<forall>n k d. k + n \<le> 4 \<and> bit (latch d) 31 \<longrightarrow>
        fst (hw_in hw n (0xCFC + of_nat k) d) = of_le (map (cfg d) (cfg_window (latch d) k n)) \<and>
        cfg (snd (hw_in hw n (0xCFC + of_nat k) d)) = cfg d) \<and>
     (\<forall>n k v d. k + n \<le> 4 \<and> bit (latch d) 31 \<longrightarrow>
        cfg (hw_out hw n (0xCFC + of_nat k) v d) = cfg_write (cfg_window (latch d) k n) v (cfg d))"

definition plain_msrs :: "'d hw \<Rightarrow> ('d \<Rightarrow> u32 \<Rightarrow> u64) \<Rightarrow> bool" where
  "plain_msrs hw msr \<longleftrightarrow>
     (\<forall>i d. fst (hw_rdmsr hw i d) = msr d i \<and> msr (snd (hw_rdmsr hw i d)) = msr d) \<and>
     (\<forall>i v d. msr (hw_wrmsr hw i v d) = (msr d)(i := v))"

section \<open>Addresses\<close>

lemma pci_masks:
  "(0xFF :: u32) = mask 8" "(0x1F :: u32) = mask 5" "(0x7 :: u32) = mask 3" "(3 :: u32) = mask 2"
  "(0xFFFFFC :: u32) = mask 24 AND NOT (mask 2)" "(0x80000000 :: u32) = push_bit 31 1"
  by (simp_all add: mask_eq_exp_minus_1 push_bit_eq_mult)

lemma bit_pci_key:
  "bit (pci_key b s f off) n \<longleftrightarrow>
    (if n < 8 then bit off n else if n < 11 then bit f (n - 8)
     else if n < 16 then bit s (n - 11) else n < 24 \<and> bit b (n - 16))"
  unfolding pci_key_def pci_masks by (auto simp: bit_simps)

lemma pci_address_key: "pci_address b s f off = push_bit 31 1 OR pci_key b s f off"
  unfolding pci_address_def pci_key_def pci_masks(6) by (simp add: or.assoc)

lemma bit_pci_address: "bit (pci_address b s f off) n \<longleftrightarrow> n = 31 \<or> bit (pci_key b s f off) n"
  unfolding pci_address_key bit_or_iff bit_push_bit_iff by (auto simp: bit_1_iff)

lemma bit_31_pci_address [simp]: "bit (pci_address b s f off) 31"
  by (simp add: bit_pci_address)

lemma pci_window_base:
  assumes "w \<le> 3"
  shows "(pci_address b s f off AND 0xFFFFFC) OR w = pci_key b s f ((off AND NOT 3) OR w)"
proof (rule bit_word_eqI)
  have w: "\<not> bit w n" if "2 \<le> n" for n
    using assms word_bit_bound [of w 2 n] that by (auto simp: word_le_nat_alt)
  fix n assume "n < LENGTH(32)"
  then show "bit ((pci_address b s f off AND 0xFFFFFC) OR w) n =
      bit (pci_key b s f ((off AND NOT 3) OR w)) n"
    unfolding pci_masks(4,5) using w by (auto simp: bit_simps bit_pci_key bit_pci_address)
qed

text \<open>In the ranges of the bus, the packed address determines bus, device, function and register.\<close>

lemma pci_key_inject:
  assumes "b < 256" "s < 32" "f < 8" "off < 256" "b' < 256" "s' < 32" "f' < 8" "off' < 256"
  shows "pci_key b s f off = pci_key b' s' f' off' \<longleftrightarrow> b = b' \<and> s = s' \<and> f = f' \<and> off = off'"
proof
  assume eq: "pci_key b s f off = pci_key b' s' f' off'"
  note bits = word_bit_bound [of b 8] word_bit_bound [of s 5] word_bit_bound [of f 3]
    word_bit_bound [of off 8] word_bit_bound [of b' 8] word_bit_bound [of s' 5]
    word_bit_bound [of f' 3] word_bit_bound [of off' 8]
  have key: "bit (pci_key b s f off) n = bit (pci_key b' s' f' off') n" for n using eq by simp
  have "bit off n = bit off' n" for n
    using key [of n] bits assms by (cases "n < 8") (auto simp: bit_pci_key word_less_nat_alt)
  moreover have "bit f n = bit f' n" for n
    using key [of "n + 8"] bits assms by (cases "n < 3") (auto simp: bit_pci_key word_less_nat_alt)
  moreover have "bit s n = bit s' n" for n
    using key [of "n + 11"] bits assms by (cases "n < 5") (auto simp: bit_pci_key word_less_nat_alt)
  moreover have "bit b n = bit b' n" for n
    using key [of "n + 16"] bits assms by (cases "n < 8") (auto simp: bit_pci_key word_less_nat_alt)
  ultimately show "b = b' \<and> s = s' \<and> f = f' \<and> off = off'"
    by (auto intro: bit_word_eqI)
qed simp

section \<open>Accesses under mechanism \#1\<close>

lemma mechanism1_select:
  assumes "mechanism1 hw latch cfg"
  shows "latch (hw_out hw 4 0xCF8 a d) = a" "cfg (hw_out hw 4 0xCF8 a d) = cfg d"
  using assms by (simp_all add: mechanism1_def)

lemma mechanism1_in:
  assumes "mechanism1 hw latch cfg" "k + n \<le> 4" "bit (latch d) 31"
  shows "fst (hw_in hw n (0xCFC + of_nat k) d) = of_le (map (cfg d) (cfg_window (latch d) k n))"
    "cfg (snd (hw_in hw n (0xCFC + of_nat k) d)) = cfg d"
  using assms by (simp_all add: mechanism1_def)

lemma mechanism1_out:
  assumes "mechanism1 hw latch cfg" "k + n \<le> 4" "bit (latch d) 31"
  shows "cfg (hw_out hw n (0xCFC + of_nat k) v d) = cfg_write (cfg_window (latch d) k n) v (cfg d)"
  using assms by (simp add: mechanism1_def)

lemma window_bytes:
  assumes "k + n \<le> 4"
  shows "cfg_window (pci_address b s f off) k n =
    map (\<lambda>i. pci_key b s f ((off AND NOT 3) OR of_nat (k + i))) [0..<n]"
proof -
  have "(of_nat (k + i) :: u32) \<le> 3" if "i < n" for i
    using assms that by (auto simp: word_le_nat_alt unat_of_nat simp del: of_nat_add)
  then show ?thesis
    using pci_window_base by (auto simp: cfg_window_def simp del: of_nat_add)
qed

lemma low_bits: "(w AND - 4) OR (w AND 3) = (w :: u32)"
proof -
  have "(w AND NOT 3) OR (w AND 3) = w" by (rule bit_word_eqI) (auto simp: bit_simps)
  then show ?thesis by simp
qed

lemma unat_and_3: "unat (w AND 3 :: u32) \<le> 3"
  using word_and_le1 [of w 3] by (simp add: word_le_nat_alt)

lemmas pci_access_defs = pciConfigReadByte_def pciConfigReadWord_def pciConfigReadDWord_def
  pciConfigWriteByte_def pciConfigWriteWord_def pciConfigWriteDWord_def pciSetAddress_def
  inb_def inw_def inl_def outb_def outw_def outl_def PCI_CONFIG_ADDRESS_def PCI_CONFIG_DATA_def

lemma data_port: "PCI_CONFIG_DATA + ucast (w :: u32) = 0xCFC + of_nat (unat w)"
  by (simp add: PCI_CONFIG_DATA_def)

lemma read_byte:
  assumes "mechanism1 hw latch cfg"
  shows "fst (run_state (pciConfigReadByte hw b s f off) d) = cfg d (pci_key b s f off)"
    and "cfg (snd (run_state (pciConfigReadByte hw b s f off) d)) = cfg d"
proof -
  let ?d = "hw_out hw 4 0xCF8 (pci_address b s f off) d" and ?k = "unat (off AND 3)"
  have run: "run_state (pciConfigReadByte hw b s f off) d =
      map_prod ucast id (hw_in hw 1 (0xCFC + of_nat ?k) ?d)"
    by (simp only: pciConfigReadByte_def data_port) (simp add: pci_access_defs)
  note d = mechanism1_select [OF assms, of "pci_address b s f off" d]
  have "bit (latch ?d) 31" by (simp add: d)
  note h = mechanism1_in [OF assms, of ?k 1, OF _ this]
  show "fst (run_state (pciConfigReadByte hw b s f off) d) = cfg d (pci_key b s f off)"
    using h(1) unat_and_3 [of off] by (simp add: run d window_bytes low_bits)
  show "cfg (snd (run_state (pciConfigReadByte hw b s f off) d)) = cfg d"
    using h(2) unat_and_3 [of off] by (simp add: run d)
qed

lemma write_byte:
  assumes "mechanism1 hw latch cfg"
  shows "cfg (snd (run_state (pciConfigWriteByte hw b s f off v) d)) = (cfg d)(pci_key b s f off := v)"
proof -
  let ?d = "hw_out hw 4 0xCF8 (pci_address b s f off) d" and ?k = "unat (off AND 3)"
  have run: "snd (run_state (pciConfigWriteByte hw b s f off v) d) =
      hw_out hw 1 (0xCFC + of_nat ?k) (ucast v) ?d"
    by (simp only: pciConfigWriteByte_def data_port) (simp add: pci_access_defs)
  note d = mechanism1_select [OF assms, of "pci_address b s f off" d]
  have "bit (latch ?d) 31" by (simp add: d)
  note h = mechanism1_out [OF assms, of ?k 1, OF _ this]
  then show ?thesis
    using unat_and_3 [of off]
    by (simp add: run d window_bytes low_bits cfg_write_def le_bytes_def)
qed

lemma read_dword:
  assumes "mechanism1 hw latch cfg"
  shows "fst (run_state (pciConfigReadDWord hw b s f off) d) =
      of_le (map (\<lambda>i. cfg d (pci_key b s f ((off AND NOT 3) OR of_nat i))) [0..<4])"
    and "cfg (snd (run_state (pciConfigReadDWord hw b s f off) d)) = cfg d"
  using mechanism1_in [OF assms, of 0 4 "hw_out hw 4 0xCF8 (pci_address b s f off) d"]
    mechanism1_select [OF assms]
  by (simp_all add: pci_access_defs window_bytes comp_def)

lemma rdmsr_plain:
  assumes "plain_msrs hw msr"
  shows "fst (run_state (rdmsr hw i) d) = msr d i" "msr (snd (run_state (rdmsr hw i) d)) = msr d"
proof -
  have "push_bit 32 (ucast (ucast (drop_bit 32 v) :: u32)) OR ucast (ucast v :: u32) = v" for v :: u64
    by (rule bit_word_eqI) (auto simp: bit_simps)
  then show "fst (run_state (rdmsr hw i) d) = msr d i" "msr (snd (run_state (rdmsr hw i) d)) = msr d"
    using assms by (simp_all add: rdmsr_def plain_msrs_def split: prod.splits)
qed

lemma wrmsr_plain:
  assumes "plain_msrs hw msr"
  shows "msr (snd (run_state (wrmsr hw i v) d)) = (msr d)(i := v)"
proof -
  have "push_bit 32 (ucast (ucast (drop_bit 32 v) :: u32)) OR ucast (ucast v :: u32) = v"
    by (rule bit_word_eqI) (auto simp: bit_simps)
  then show ?thesis using assms by (simp add: wrmsr_def plain_msrs_def Let_def)
qed

section \<open>A concrete machine\<close>

record pc =
  pc_latch :: u32
  pc_cfg :: "u32 \<Rightarrow> u8"
  pc_msr :: "u32 \<Rightarrow> u64"
  pc_ram :: mem

definition pc_data_port :: "u16 \<Rightarrow> nat \<Rightarrow> pc \<Rightarrow> bool" where
  "pc_data_port p n d \<longleftrightarrow> 0xCFC \<le> unat p \<and> unat p + n \<le> 0xD00 \<and> bit (pc_latch d) 31"

definition pc_hw :: "pc hw" where
  "pc_hw = \<lparr>
     hw_in = (\<lambda>n p d. (if pc_data_port p n d
       then of_le (map (pc_cfg d) (cfg_window (pc_latch d) (unat p - 0xCFC) n)) else 0xFFFFFFFF, d)),
     hw_out = (\<lambda>n p v d.
       if n = 4 \<and> p = 0xCF8 then d\<lparr>pc_latch := v\<rparr>
       else if pc_data_port p n d
         then d\<lparr>pc_cfg := cfg_write (cfg_window (pc_latch d) (unat p - 0xCFC) n) v (pc_cfg d)\<rparr>
       else d),
     hw_rdmsr = (\<lambda>i d. (pc_msr d i, d)),
     hw_wrmsr = (\<lambda>i v d. d\<lparr>pc_msr := (pc_msr d)(i := v)\<rparr>),
     hw_load = (\<lambda>n a d. (of_le (load_bytes (pc_ram d) a n), d)),
     hw_store = (\<lambda>n a v d. d\<lparr>pc_ram := store_bytes a (le_bytes n v) (pc_ram d)\<rparr>),
     hw_clflush = (\<lambda>a d. d),
     hw_rdtsc = (\<lambda>d. (0, d))\<rparr>"

lemma unat_data_port: "k \<le> 4 \<Longrightarrow> unat (0xCFC + of_nat k :: u16) = 0xCFC + k"
  by (simp add: unat_word_ariths unat_of_nat)

lemma pc_mechanism1: "mechanism1 pc_hw pc_latch pc_cfg"
proof -
  have "0xCFC + of_nat k \<noteq> (0xCF8 :: u16)" if "k \<le> 4" for k
  proof
    assume "0xCFC + of_nat k = (0xCF8 :: u16)"
    then have "unat (0xCFC + of_nat k :: u16) = unat (0xCF8 :: u16)" by (rule arg_cong)
    with unat_data_port [OF that] show False by simp
  qed
  then show ?thesis
    by (auto simp: mechanism1_def pc_hw_def pc_data_port_def unat_data_port)
qed

lemma pc_plain_msrs: "plain_msrs pc_hw pc_msr"
  by (simp add: plain_msrs_def pc_hw_def)

section \<open>Properties\<close>


definition pc_example :: pc where
  "pc_example = \<lparr>pc_latch = 0, pc_cfg = (\<lambda>_. 0), pc_msr = (\<lambda>_. 0), pc_ram = (\<lambda>_. 0)\<rparr>"


end
