(* ===== verification/Unlock_Region.thy ===== *)
theory Unlock_Region
  imports Pci_Io
begin

text \<open>
  Making the BIOS region 0xC0000 to 0xFFFFF writable, \<^verbatim>\<open>src/unlock_region.c\<close>: the UEFI Legacy
  Region 2 protocol, the PAM registers of Intel host bridges, the fixed MTRRs of AMD processors,
  and the read/write test that decides whether an attempt worked.

  The UEFI protocol is a parameter, a record of its functions over the device state.  \<open>region_ram\<close> states
  how memory behaves: a doubleword store takes effect where the region is writable in the current
  device state and is ignored elsewhere.
\<close>

section \<open>Constants and services\<close>

definition BIOSROM_START :: nat where "BIOSROM_START = 0xC8000"
definition BIOSROM_END :: nat where "BIOSROM_END = 0x100000"
definition PAM_LOCK_BIT :: u8 where "PAM_LOCK_BIT = 0x01"
definition PAM_LOCK_REG :: u32 where "PAM_LOCK_REG = 0x80"
definition PAM_ENABLE :: u8 where "PAM_ENABLE = 0x33"
definition INTEL_VENDOR_ID :: u16 where "INTEL_VENDOR_ID = 0x8086"
definition AMD_VENDOR_ID :: u16 where "AMD_VENDOR_ID = 0x1022"
definition MSR_SYS_CFG :: u32 where "MSR_SYS_CFG = 0xC0010010"
definition SYS_CFG_MTRR_FIX_DRAM_EN :: u64 where "SYS_CFG_MTRR_FIX_DRAM_EN = push_bit 18 1"
definition SYS_CFG_MTRR_FIX_DRAM_MOD_EN :: u64 where "SYS_CFG_MTRR_FIX_DRAM_MOD_EN = push_bit 19 1"
definition AMD_MTRR_WB_DRAM :: u64 where "AMD_MTRR_WB_DRAM = 0x1E1E1E1E1E1E1E1E"

type_synonym EFI_STATUS = u64

definition EFI_SUCCESS :: EFI_STATUS where "EFI_SUCCESS = 0"
definition EFI_UNSUPPORTED :: EFI_STATUS where "EFI_UNSUPPORTED = 0x8000000000000003"

definition EFI_ERROR :: "EFI_STATUS \<Rightarrow> bool" where
  "EFI_ERROR status \<longleftrightarrow> bit status 63"

datatype legacy_attribute =
  LegacyRegionDecoded | LegacyRegionNotDecoded | LegacyRegionWriteEnabled
| LegacyRegionWriteDisabled | LegacyRegionBootLocked | LegacyRegionNotLocked
| LegacyRegionOther u32

record EFI_LEGACY_REGION_DESCRIPTOR =
  lrd_Start :: u32
  lrd_Length :: u32
  lrd_Attribute :: legacy_attribute
  lrd_Granularity :: u32

record 'd legacy_region2 =
  lr_LocateProtocol :: "'d \<Rightarrow> EFI_STATUS \<times> 'd"
  lr_Decode :: "u32 \<Rightarrow> u32 \<Rightarrow> bool \<Rightarrow> 'd \<Rightarrow> EFI_STATUS \<times> 'd"
  lr_UnLock :: "u32 \<Rightarrow> u32 \<Rightarrow> 'd \<Rightarrow> EFI_STATUS \<times> 'd"
  lr_GetInfo :: "'d \<Rightarrow> (EFI_STATUS \<times> EFI_LEGACY_REGION_DESCRIPTOR list) \<times> 'd"

section \<open>The ways to unlock\<close>

definition unlock_legacy_region_protocol :: "'d legacy_region2 \<Rightarrow> ('d, EFI_STATUS) state" where
  "unlock_legacy_region_protocol lr = do {
     status \<leftarrow> State (lr_LocateProtocol lr);
     if EFI_ERROR status then State_Monad.return status
     else do {
       status \<leftarrow> State (lr_Decode lr 0xC0000 0x40000 True);
       if EFI_ERROR status then State_Monad.return status
       else do {
         status \<leftarrow> State (lr_UnLock lr 0xC0000 0x40000);
         if EFI_ERROR status then State_Monad.return status
         else State_Monad.return EFI_SUCCESS
       }
     }
   }"

definition unlock_piix4_pam :: "'d hw \<Rightarrow> ('d, int) state" where
  "unlock_piix4_pam hw = do {
     pciConfigWriteByte hw 0 0 0 0x59 PAM_ENABLE;
     pciConfigWriteByte hw 0 0 0 0x5A PAM_ENABLE;
     pciConfigWriteByte hw 0 0 0 0x5B PAM_ENABLE;
     pciConfigWriteByte hw 0 0 0 0x5C PAM_ENABLE;
     pciConfigWriteByte hw 0 0 0 0x5D PAM_ENABLE;
     pciConfigWriteByte hw 0 0 0 0x5E PAM_ENABLE;
     pciConfigWriteByte hw 0 0 0 0x5F PAM_ENABLE;
     State_Monad.return 0
   }"

definition unlock_q35_pam :: "'d hw \<Rightarrow> ('d, int) state" where
  "unlock_q35_pam hw = do {
     pciConfigWriteByte hw 0 0 0 0x90 PAM_ENABLE;
     pciConfigWriteByte hw 0 0 0 0x91 PAM_ENABLE;
     pciConfigWriteByte hw 0 0 0 0x92 PAM_ENABLE;
     pciConfigWriteByte hw 0 0 0 0x93 PAM_ENABLE;
     pciConfigWriteByte hw 0 0 0 0x94 PAM_ENABLE;
     pciConfigWriteByte hw 0 0 0 0x95 PAM_ENABLE;
     pciConfigWriteByte hw 0 0 0 0x96 PAM_ENABLE;
     State_Monad.return 0
   }"

definition unlock_skylake_pam :: "'d hw \<Rightarrow> ('d, int) state" where
  "unlock_skylake_pam hw = do {
     lock \<leftarrow> pciConfigReadByte hw 0 0 0 PAM_LOCK_REG;
     if lock AND PAM_LOCK_BIT \<noteq> 0 then State_Monad.return (- 1)
     else do {
       pciConfigWriteByte hw 0 0 0 0x80 0x30;
       pciConfigWriteByte hw 0 0 0 0x81 PAM_ENABLE;
       pciConfigWriteByte hw 0 0 0 0x82 PAM_ENABLE;
       pciConfigWriteByte hw 0 0 0 0x83 PAM_ENABLE;
       pciConfigWriteByte hw 0 0 0 0x84 PAM_ENABLE;
       pciConfigWriteByte hw 0 0 0 0x85 PAM_ENABLE;
       pciConfigWriteByte hw 0 0 0 0x86 PAM_ENABLE;
       State_Monad.return 0
     }
   }"

definition unlock_amd_mtrr :: "'d hw \<Rightarrow> ('d, int) state" where
  "unlock_amd_mtrr hw = do {
     val \<leftarrow> rdmsr hw MSR_SYS_CFG;
     wrmsr hw MSR_SYS_CFG (val OR SYS_CFG_MTRR_FIX_DRAM_MOD_EN);
     wrmsr hw 0x250 AMD_MTRR_WB_DRAM;
     wrmsr hw 0x258 AMD_MTRR_WB_DRAM;
     wrmsr hw 0x259 0;
     wrmsr hw 0x268 AMD_MTRR_WB_DRAM;
     wrmsr hw 0x269 AMD_MTRR_WB_DRAM;
     wrmsr hw 0x26A AMD_MTRR_WB_DRAM;
     wrmsr hw 0x26B AMD_MTRR_WB_DRAM;
     wrmsr hw 0x26C AMD_MTRR_WB_DRAM;
     wrmsr hw 0x26D AMD_MTRR_WB_DRAM;
     wrmsr hw 0x26E AMD_MTRR_WB_DRAM;
     wrmsr hw 0x26F AMD_MTRR_WB_DRAM;
     val \<leftarrow> rdmsr hw MSR_SYS_CFG;
     wrmsr hw MSR_SYS_CFG ((val AND NOT SYS_CFG_MTRR_FIX_DRAM_MOD_EN) OR SYS_CFG_MTRR_FIX_DRAM_EN);
     State_Monad.return 0
   }"

text \<open>
  \<^verbatim>\<open>~SYS_CFG_MTRR_FIX_DRAM_MOD_EN\<close> is an \<^verbatim>\<open>int\<close> that is sign-extended when combined with the
  64-bit value, so the complement is that of the 64-bit constant.
\<close>

definition legacy_attribute_text :: "legacy_attribute \<Rightarrow> string" where
  "legacy_attribute_text a = (case a of
     LegacyRegionDecoded \<Rightarrow> ''Read Enabled''
   | LegacyRegionNotDecoded \<Rightarrow> ''Read Disabled''
   | LegacyRegionWriteEnabled \<Rightarrow> ''Write Enabled''
   | LegacyRegionWriteDisabled \<Rightarrow> ''Write Disabled''
   | LegacyRegionBootLocked \<Rightarrow> ''Boot Locked''
   | LegacyRegionNotLocked \<Rightarrow> ''Not Locked''
   | LegacyRegionOther _ \<Rightarrow> ''Unknown'')"

text \<open>The status, and the arguments of the lines printed for the descriptors.\<close>

definition print_legacy_region_info ::
  "'d legacy_region2 \<Rightarrow> ('d, EFI_STATUS \<times> (u32 \<times> u32 \<times> u32 \<times> string) list) state" where
  "print_legacy_region_info lr = do {
     (status, descriptors) \<leftarrow> State (lr_GetInfo lr);
     if EFI_ERROR status then State_Monad.return (status, [])
     else State_Monad.return (EFI_SUCCESS,
       map (\<lambda>x. (lrd_Start x, lrd_Start x + lrd_Length x - 1, lrd_Granularity x,
         legacy_attribute_text (lrd_Attribute x))) descriptors)
   }"

section \<open>The test\<close>

function test_bios_region_loop :: "'d hw \<Rightarrow> nat \<Rightarrow> ('d, bool) state" where
  "test_bios_region_loop hw ptr =
     (if ptr < BIOSROM_END then do {
        clflush hw ptr;
        val \<leftarrow> readl hw ptr;
        writel hw ptr (NOT val);
        clflush hw ptr;
        v \<leftarrow> readl hw ptr;
        if v \<noteq> NOT val then State_Monad.return False
        else do {
          writel hw ptr val;
          test_bios_region_loop hw (ptr + 4)
        }
      }
      else State_Monad.return True)"
  by pat_completeness auto
termination
  by (relation "measure (\<lambda>(hw, ptr). BIOSROM_END - ptr)") auto

declare test_bios_region_loop.simps [simp del]

definition test_bios_region_rw :: "'d hw \<Rightarrow> ('d, bool) state" where
  "test_bios_region_rw hw = test_bios_region_loop hw BIOSROM_START"

section \<open>Choosing a way\<close>

definition unlock_chipset :: "'d hw \<Rightarrow> ('d, EFI_STATUS) state" where
  "unlock_chipset hw = do {
     host_bridge_id \<leftarrow> pciConfigReadDWord hw 0 0 0 0;
     let vendor_id = (ucast (host_bridge_id AND 0xFFFF) :: u16);
     let device_id = (ucast (drop_bit 16 host_bridge_id AND 0xFFFF) :: u16);
     if vendor_id = INTEL_VENDOR_ID then
       (if device_id \<in> {0x1237, 0x7190, 0x71A0, 0x7194, 0x7180} then do {
          r \<leftarrow> unlock_piix4_pam hw; State_Monad.return (word_of_int r) }
        else if device_id \<in> {0x29C0, 0x29E0} then do {
          r \<leftarrow> unlock_q35_pam hw; State_Monad.return (word_of_int r) }
        else do {
          r \<leftarrow> unlock_skylake_pam hw; State_Monad.return (word_of_int r) })
     else if vendor_id = AMD_VENDOR_ID then do {
       r \<leftarrow> unlock_amd_mtrr hw; State_Monad.return (word_of_int r) }
     else State_Monad.return EFI_UNSUPPORTED
   }"

definition unlock_bios_region :: "'d hw \<Rightarrow> 'd legacy_region2 \<Rightarrow> ('d, int) state" where
  "unlock_bios_region hw lr = do {
     ok \<leftarrow> test_bios_region_rw hw;
     if ok then State_Monad.return 0
     else do {
       status \<leftarrow> State (lr_LocateProtocol lr);
       unlocked \<leftarrow> (if \<not> EFI_ERROR status then do {
           print_legacy_region_info lr;
           status \<leftarrow> unlock_legacy_region_protocol lr;
           if EFI_ERROR status then State_Monad.return False else test_bios_region_rw hw
         }
         else State_Monad.return False);
       if unlocked then State_Monad.return 0
       else do {
         status \<leftarrow> unlock_chipset hw;
         if status = 0 then do {
           ok \<leftarrow> test_bios_region_rw hw;
           State_Monad.return (if ok then 0 else - 1)
         }
         else State_Monad.return (- 1)
       }
     }
   }"

section \<open>The test decides writability\<close>

definition region_ram :: "'d hw \<Rightarrow> ('d \<Rightarrow> mem) \<Rightarrow> ('d \<Rightarrow> nat \<Rightarrow> bool) \<Rightarrow> bool" where
  "region_ram hw ram wr \<longleftrightarrow>
     (\<forall>p d. BIOSROM_START \<le> p \<and> p < BIOSROM_END \<and> p mod 4 = 0 \<longrightarrow>
        fst (hw_load hw 4 p d) = ucast (load32 (ram d) p) \<and>
        ram (snd (hw_load hw 4 p d)) = ram d \<and> wr (snd (hw_load hw 4 p d)) = wr d \<and>
        (\<forall>v. ram (hw_store hw 4 p v d) = (if wr d p then store32 p (ucast v) (ram d) else ram d) \<and>
             wr (hw_store hw 4 p v d) = wr d) \<and>
        ram (hw_clflush hw p d) = ram d \<and> wr (hw_clflush hw p d) = wr d)"

lemma region_ram_at:
  assumes "region_ram hw ram wr" "BIOSROM_START \<le> p" "p < BIOSROM_END" "p mod 4 = 0"
  shows "fst (hw_load hw 4 p d) = ucast (load32 (ram d) p)"
    "ram (snd (hw_load hw 4 p d)) = ram d" "wr (snd (hw_load hw 4 p d)) = wr d"
    "ram (hw_store hw 4 p v d) = (if wr d p then store32 p (ucast v) (ram d) else ram d)"
    "wr (hw_store hw 4 p v d) = wr d" "ram (hw_clflush hw p d) = ram d" "wr (hw_clflush hw p d) = wr d"
  using assms by (auto simp: region_ram_def)

lemma not_self [simp]: "(NOT w :: u32) \<noteq> w" "w \<noteq> NOT (w :: u32)"
proof -
  show "NOT w \<noteq> w"
  proof
    assume "NOT w = w"
    then have "bit (NOT w) 0 = bit w 0" by simp
    then show False by (simp add: bit_not_iff)
  qed
  then show "w \<noteq> NOT w" by (rule not_sym)
qed

lemma step4:
  "(ptr :: nat) < e \<Longrightarrow> ptr mod 4 = 0 \<Longrightarrow>
   ptr \<le> p \<and> p < e \<and> p mod 4 = 0 \<longleftrightarrow> p = ptr \<or> (ptr + 4 \<le> p \<and> p < e \<and> p mod 4 = 0)"
  by presburger

lemma test_loop_correct:
  assumes "region_ram hw ram wr" "BIOSROM_START \<le> ptr" "ptr mod 4 = 0"
  shows "(fst (run_state (test_bios_region_loop hw ptr) d) \<longleftrightarrow>
      (\<forall>p. ptr \<le> p \<and> p < BIOSROM_END \<and> p mod 4 = 0 \<longrightarrow> wr d p)) \<and>
    ram (snd (run_state (test_bios_region_loop hw ptr) d)) = ram d \<and>
    wr (snd (run_state (test_bios_region_loop hw ptr) d)) = wr d"
  using assms
proof (induction "BIOSROM_END - ptr" arbitrary: ptr d rule: less_induct)
  case less
  show ?case
  proof (cases "ptr < BIOSROM_END")
    case False
    then show ?thesis by (auto simp: test_bios_region_loop.simps)
  next
    case True
    note at = region_ram_at [OF less.prems(1,2) True less.prems(3)]
    define d1 where "d1 = snd (hw_load hw 4 ptr (hw_clflush hw ptr d))"
    define v where "v = load32 (ram d) ptr"
    define d2 where "d2 = snd (hw_load hw 4 ptr (hw_clflush hw ptr (hw_store hw 4 ptr (ucast (NOT v)) d1)))"
    define d3 where "d3 = hw_store hw 4 ptr (ucast v) d2"
    have d: "wr d1 = wr d" "wr d2 = wr d" "wr d3 = wr d" "ram d1 = ram d"
      "ram d2 = (if wr d ptr then store32 ptr (NOT v) (ram d) else ram d)" "ram d3 = ram d"
      by (simp_all add: d1_def d2_def d3_def at mem_simps) (simp add: v_def store32_load32)
    have l: "hw_load hw 4 ptr (hw_clflush hw ptr d) = (ucast v, d1)"
      by (simp add: prod_eq_iff at d1_def v_def)
    have l2: "hw_load hw 4 ptr (hw_clflush hw ptr (hw_store hw 4 ptr (ucast (NOT v)) d1)) =
        (ucast (if wr d ptr then NOT v else v), d2)"
      by (simp add: prod_eq_iff at d d2_def) (simp add: d1_def at mem_simps v_def)
    have run: "run_state (test_bios_region_loop hw ptr) d =
        (if wr d ptr then run_state (test_bios_region_loop hw (ptr + 4)) d3 else (False, d2))"
      unfolding test_bios_region_loop.simps [of hw ptr]
      using True by (simp add: clflush_def readl_def writel_def l l2 d3_def [symmetric])
    have next_: "(\<forall>p. ptr \<le> p \<and> p < BIOSROM_END \<and> p mod 4 = 0 \<longrightarrow> wr d p) \<longleftrightarrow>
        wr d ptr \<and> (\<forall>p. ptr + 4 \<le> p \<and> p < BIOSROM_END \<and> p mod 4 = 0 \<longrightarrow> wr d p)"
      unfolding step4 [OF True less.prems(3)] by auto
    have "BIOSROM_END - (ptr + 4) < BIOSROM_END - ptr" using True by simp
    from less.hyps [OF this, of d3] less.prems show ?thesis
      unfolding run next_ by (auto simp: d)
  qed
qed

definition region_writable :: "('d \<Rightarrow> nat \<Rightarrow> bool) \<Rightarrow> 'd \<Rightarrow> bool" where
  "region_writable wr d \<longleftrightarrow> (\<forall>p. BIOSROM_START \<le> p \<and> p < BIOSROM_END \<and> p mod 4 = 0 \<longrightarrow> wr d p)"

lemma test_run:
  assumes "region_ram hw ram wr" "run_state (test_bios_region_rw hw) d = (ok, d')"
  shows "ok = region_writable wr d \<and> ram d' = ram d \<and> wr d' = wr d"
  using test_loop_correct [OF assms(1), of BIOSROM_START d] assms(2)
  by (simp add: test_bios_region_rw_def BIOSROM_START_def region_writable_def)

section \<open>The registers written\<close>

lemma pci_key_host [simp]: "pci_key 0 0 0 off = off AND 0xFF"
  by (simp add: pci_key_def)

lemma unlock_piix4_cfg:
  assumes "mechanism1 hw latch cfg"
  shows "cfg (snd (run_state (unlock_piix4_pam hw) d)) =
    (\<lambda>k. if k \<in> {0x59, 0x5A, 0x5B, 0x5C, 0x5D, 0x5E, 0x5F} then PAM_ENABLE else cfg d k)"
  by (rule ext) (simp add: unlock_piix4_pam_def case_prod_beta write_byte [OF assms])

lemma unlock_q35_cfg:
  assumes "mechanism1 hw latch cfg"
  shows "cfg (snd (run_state (unlock_q35_pam hw) d)) =
    (\<lambda>k. if k \<in> {0x90, 0x91, 0x92, 0x93, 0x94, 0x95, 0x96} then PAM_ENABLE else cfg d k)"
  by (rule ext) (simp add: unlock_q35_pam_def case_prod_beta write_byte [OF assms])

lemma unlock_skylake_cfg:
  assumes "mechanism1 hw latch cfg"
  shows "cfg (snd (run_state (unlock_skylake_pam hw) d)) =
      (if bit (cfg d 0x80) 0 then cfg d
       else (\<lambda>k. if k = 0x80 then 0x30
         else if k \<in> {0x81, 0x82, 0x83, 0x84, 0x85, 0x86} then PAM_ENABLE else cfg d k))"
    and "fst (run_state (unlock_skylake_pam hw) d) = (if bit (cfg d 0x80) 0 then - 1 else 0)"
proof -
  have lock: "w AND PAM_LOCK_BIT = 0 \<longleftrightarrow> \<not> bit w 0" for w :: u8
    by (simp add: PAM_LOCK_BIT_def and_one_eq bit_0 odd_iff_mod_2_eq_one)
  show "cfg (snd (run_state (unlock_skylake_pam hw) d)) =
      (if bit (cfg d 0x80) 0 then cfg d
       else (\<lambda>k. if k = 0x80 then 0x30
         else if k \<in> {0x81, 0x82, 0x83, 0x84, 0x85, 0x86} then PAM_ENABLE else cfg d k))"
    by (rule ext) (simp add: unlock_skylake_pam_def case_prod_beta write_byte [OF assms]
        read_byte [OF assms] lock PAM_LOCK_REG_def)
  show "fst (run_state (unlock_skylake_pam hw) d) = (if bit (cfg d 0x80) 0 then - 1 else 0)"
    by (simp add: unlock_skylake_pam_def case_prod_beta read_byte [OF assms] lock PAM_LOCK_REG_def)
qed

lemma id_words:
  "(ucast ((of_le [a, b, c, e] :: u32) AND 0xFFFF) :: u16) = of_le [a, b]"
  "(ucast (drop_bit 16 (of_le [a, b, c, e] :: u32) AND 0xFFFF) :: u16) = of_le [c, e]"
proof -
  have m: "(0xFFFF :: u32) = mask 16" by (simp add: mask_eq_exp_minus_1)
  show "(ucast ((of_le [a, b, c, e] :: u32) AND 0xFFFF) :: u16) = of_le [a, b]"
    unfolding m by (rule bit_word_eqI) (auto simp: bit_simps)
  show "(ucast (drop_bit 16 (of_le [a, b, c, e] :: u32) AND 0xFFFF) :: u16) = of_le [c, e]"
    unfolding m by (rule bit_word_eqI) (auto simp: bit_simps dest: bit_imp_le_length)
qed

section \<open>Properties\<close>

text \<open>
  \<^verbatim>\<open>test_bios_region_rw\<close> answers whether every doubleword from 0xC8000 to 0xFFFFF is
  writable, and leaves the content of the region as it was, whatever the answer.
\<close>

theorem test_bios_region_rw_correct:
  assumes "region_ram hw ram wr" "run_state (test_bios_region_rw hw) d = (ok, d')"
  shows "(ok \<longleftrightarrow> region_writable wr d) \<and> ram d' = ram d"
  using test_run [OF assms] by simp

lemma pc_region_ram: "region_ram pc_hw pc_ram (\<lambda>_ _. True)"
  by (auto simp: region_ram_def pc_hw_def load32_def store32_def ucast_of_le le_bytes_ucast)

theorem test_bios_region_rw_correct_witness: "fst (run_state (test_bios_region_rw pc_hw) pc_example)"
  using test_bios_region_rw_correct [OF pc_region_ram, of pc_example]
  by (cases "run_state (test_bios_region_rw pc_hw) pc_example") (simp add: region_writable_def)




text \<open>A Q35 machine: vendor 8086, device 29C0.\<close>

definition pc_q35 :: pc where
  "pc_q35 = pc_example\<lparr>pc_cfg := (\<lambda>_. 0)(0 := 0x86, 1 := 0x80, 2 := 0xC0, 3 := 0x29)\<rparr>"


text \<open>
  On AMD the unlock makes the first 640 KiB and 0xC0000 to 0xFFFFF write-back DRAM, the
  video memory at 0xA0000 uncached I/O, and in SYS_CFG sets \<^verbatim>\<open>MtrrFixDramEn\<close> and clears
  \<^verbatim>\<open>MtrrFixDramModEn\<close>, changing no other bit and no other register.
\<close>

theorem unlock_amd_mtrr_registers:
  assumes "plain_msrs hw msr" "run_state (unlock_amd_mtrr hw) d = (r, d')"
  shows "r = 0 \<and> (\<forall>n < 64. bit (msr d' MSR_SYS_CFG) n \<longleftrightarrow>
      n \<noteq> 19 \<and> (n = 18 \<or> bit (msr d MSR_SYS_CFG) n)) \<and>
    (\<forall>i. i \<noteq> MSR_SYS_CFG \<longrightarrow> msr d' i =
      (if i = 0x259 then 0
       else if i \<in> {0x250, 0x258, 0x268, 0x269, 0x26A, 0x26B, 0x26C, 0x26D, 0x26E, 0x26F}
       then 0x1E1E1E1E1E1E1E1E else msr d i))"
proof -
  let ?c = "((msr d MSR_SYS_CFG OR SYS_CFG_MTRR_FIX_DRAM_MOD_EN) AND NOT SYS_CFG_MTRR_FIX_DRAM_MOD_EN)
    OR SYS_CFG_MTRR_FIX_DRAM_EN"
  have "r = 0" and c: "msr d' = (msr d)(0x250 := AMD_MTRR_WB_DRAM, 0x258 := AMD_MTRR_WB_DRAM, 0x259 := 0,
      0x268 := AMD_MTRR_WB_DRAM, 0x269 := AMD_MTRR_WB_DRAM, 0x26A := AMD_MTRR_WB_DRAM,
      0x26B := AMD_MTRR_WB_DRAM, 0x26C := AMD_MTRR_WB_DRAM, 0x26D := AMD_MTRR_WB_DRAM,
      0x26E := AMD_MTRR_WB_DRAM, 0x26F := AMD_MTRR_WB_DRAM, MSR_SYS_CFG := ?c)"
    using assms(2)
    by (auto simp: unlock_amd_mtrr_def case_prod_beta rdmsr_plain [OF assms(1)] wrmsr_plain [OF assms(1)]
        MSR_SYS_CFG_def fun_eq_iff)
  moreover have "bit ?c n \<longleftrightarrow> n \<noteq> 19 \<and> (n = 18 \<or> bit (msr d MSR_SYS_CFG) n)" if "n < 64" for n
    using that unfolding SYS_CFG_MTRR_FIX_DRAM_EN_def SYS_CFG_MTRR_FIX_DRAM_MOD_EN_def
      bit_or_iff bit_and_iff bit_not_iff bit_push_bit_iff by (auto simp: bit_1_iff)
  ultimately show ?thesis
    by (auto simp: c MSR_SYS_CFG_def AMD_MTRR_WB_DRAM_def)
qed

theorem unlock_amd_mtrr_registers_witness:
  "pc_msr (snd (run_state (unlock_amd_mtrr pc_hw) pc_example)) 0x26F = 0x1E1E1E1E1E1E1E1E"
  using unlock_amd_mtrr_registers [OF pc_plain_msrs, of pc_example]
  by (cases "run_state (unlock_amd_mtrr pc_hw) pc_example") (auto simp: MSR_SYS_CFG_def)

end
