(* ===== verification/Option_Rom.thy ===== *)
theory Option_Rom
  imports Unlock_Region
begin

text \<open>
  The search for the legacy image of a PCI option ROM, \<^verbatim>\<open>GetPciLegacyRom\<close> of \<^verbatim>\<open>src/video.c\<close>.  An option
  ROM is a chain of images; the code wants the one for PC-AT machines whose vendor and device
  match, preferably of the revision that suits the CSM.

  Images are read from the flat memory at the offsets of the packed structures of
  \<^verbatim>\<open>edk2/Pci22.h\<close> and \<^verbatim>\<open>edk2/Pci30.h\<close>.  Both loops of the source can run forever, so they are partial
  functions; \<open>rom_images\<close> is the chain they walk, and the selection is stated on it.
\<close>

section \<open>Structures\<close>

definition EFI_NOT_FOUND :: EFI_STATUS where "EFI_NOT_FOUND = 0x800000000000000E"
definition PCI_EXPANSION_ROM_HEADER_SIGNATURE :: u16 where "PCI_EXPANSION_ROM_HEADER_SIGNATURE = 0xAA55"
definition PCI_DATA_STRUCTURE_SIGNATURE :: u32 where "PCI_DATA_STRUCTURE_SIGNATURE = 0x52494350"
definition PCI_CODE_TYPE_PCAT_IMAGE :: u8 where "PCI_CODE_TYPE_PCAT_IMAGE = 0"

text \<open>\<^verbatim>\<open>EFI_PCI_ROM_HEADER\<close> is a union of pointers; \<^verbatim>\<open>PCI_DATA_STRUCTURE\<close> is the packed structure of PCI 2.2.\<close>

definition sizeof_EFI_PCI_ROM_HEADER :: nat where "sizeof_EFI_PCI_ROM_HEADER = 8"
definition sizeof_PCI_DATA_STRUCTURE :: nat where "sizeof_PCI_DATA_STRUCTURE = 24"

record PCI_3_0_DATA_STRUCTURE =
  pcir_Signature :: u32
  pcir_VendorId :: u16
  pcir_DeviceId :: u16
  pcir_DeviceListOffset :: u16
  pcir_Length :: u16
  pcir_Revision :: u8
  pcir_ImageLength :: u16
  pcir_CodeType :: u8
  pcir_Indicator :: u8
  pcir_MaxRuntimeImageLength :: u16
  pcir_ConfigUtilityCodeHeaderOffset :: u16

definition read_pcir :: "mem \<Rightarrow> nat \<Rightarrow> PCI_3_0_DATA_STRUCTURE" where
  "read_pcir m p =
     \<lparr>pcir_Signature = load32 m p, pcir_VendorId = load16 m (p + 4), pcir_DeviceId = load16 m (p + 6),
      pcir_DeviceListOffset = load16 m (p + 8), pcir_Length = load16 m (p + 10), pcir_Revision = m (p + 12),
      pcir_ImageLength = load16 m (p + 16), pcir_CodeType = m (p + 20), pcir_Indicator = m (p + 21),
      pcir_MaxRuntimeImageLength = load16 m (p + 22), pcir_ConfigUtilityCodeHeaderOffset = load16 m (p + 24)\<rparr>"

definition rom_Signature :: "mem \<Rightarrow> nat \<Rightarrow> u16" where "rom_Signature m raw = load16 m raw"
definition rom_PcirOffset :: "mem \<Rightarrow> nat \<Rightarrow> u16" where "rom_PcirOffset m raw = load16 m (raw + 24)"

abbreviation rom_pcir :: "mem \<Rightarrow> nat \<Rightarrow> PCI_3_0_DATA_STRUCTURE" where
  "rom_pcir m raw \<equiv> read_pcir m (raw + unat (rom_PcirOffset m raw))"

section \<open>The search\<close>

partial_function (option) device_list_match :: "mem \<Rightarrow> nat \<Rightarrow> u16 \<Rightarrow> bool option" where
  "device_list_match m p device =
     (if load16 m p = 0 then Some False
      else if load16 m p = device then Some True
      else device_list_match m (p + 2) device)"

definition rom_match :: "mem \<Rightarrow> nat \<Rightarrow> u16 \<Rightarrow> u16 \<Rightarrow> bool option" where
  "rom_match m p vendor device =
     (let pcir = read_pcir m p in
      if pcir_VendorId pcir = vendor then
        if pcir_DeviceId pcir = device then Some True
        else if pcir_Revision pcir \<ge> 3 \<and> pcir_DeviceListOffset pcir \<noteq> 0
        then device_list_match m (p + unat (pcir_DeviceListOffset pcir)) device
        else Some False
      else Some False)"

text \<open>The revision of the image that is perfect for the revision of the CSM.\<close>

definition rom_perfect :: "u16 \<Rightarrow> PCI_3_0_DATA_STRUCTURE \<Rightarrow> bool" where
  "rom_perfect csm16_revision pcir =
     (if csm16_revision \<ge> 0x0300 then pcir_Revision pcir \<ge> 3 else \<not> pcir_Revision pcir \<ge> 3)"

text \<open>The loop over the images returns \<^verbatim>\<open>BestImage\<close> and \<^verbatim>\<open>BackupImage\<close>.\<close>

partial_function (option) rom_scan ::
  "mem \<Rightarrow> u16 \<Rightarrow> u16 \<Rightarrow> u16 \<Rightarrow> nat \<Rightarrow> nat \<Rightarrow> nat \<Rightarrow> nat option \<Rightarrow> (nat option \<times> nat option) option" where
  "rom_scan m csm16_revision vendor device rom image_size raw backup =
     (if rom_Signature m raw \<noteq> PCI_EXPANSION_ROM_HEADER_SIGNATURE then Some (None, backup)
      else
        let off = rom_PcirOffset m raw; p = raw + unat off; pcir = read_pcir m p in
        if off = 0 \<or> off AND 3 \<noteq> 0 \<or> image_size < raw - rom + unat off + sizeof_PCI_DATA_STRUCTURE
        then Some (None, backup)
        else if pcir_Signature pcir \<noteq> PCI_DATA_STRUCTURE_SIGNATURE then Some (None, backup)
        else if raw - rom + unat (pcir_ImageLength pcir) * 512 > image_size then Some (None, backup)
        else
          case (if pcir_CodeType pcir = PCI_CODE_TYPE_PCAT_IMAGE then rom_match m p vendor device
                else Some False) of
            None \<Rightarrow> None
          | Some matches \<Rightarrow>
              if matches \<and> rom_perfect csm16_revision pcir then Some (Some raw, backup)
              else
                let backup = (if matches then Some raw else backup) in
                if pcir_Indicator pcir AND 0x80 = 0x80 then Some (None, backup)
                else rom_scan m csm16_revision vendor device rom image_size
                       (raw + 512 * unat (pcir_ImageLength pcir)) backup)"

text \<open>What the caller gets: the image, its size and the three optional results.\<close>

record legacy_rom =
  lr_Rom :: nat
  lr_ImageSize :: nat
  lr_MaxRuntimeImageLength :: nat
  lr_OpRomRevision :: u8
  lr_ConfigUtilityCodeHeader :: "nat option"

definition legacy_rom_of :: "mem \<Rightarrow> nat \<Rightarrow> legacy_rom" where
  "legacy_rom_of m raw =
     (let pcir = rom_pcir m raw in
      \<lparr>lr_Rom = raw, lr_ImageSize = unat (pcir_ImageLength pcir) * 512,
       lr_MaxRuntimeImageLength =
         (if pcir_Revision pcir < 3 then 0 else unat (pcir_MaxRuntimeImageLength pcir) * 512),
       lr_OpRomRevision = (if pcir_Length pcir \<ge> 0x1C then pcir_Revision pcir else 0),
       lr_ConfigUtilityCodeHeader =
         (if pcir_Revision pcir < 3 \<or> pcir_ConfigUtilityCodeHeaderOffset pcir = 0 then None
          else Some (raw + unat (pcir_ConfigUtilityCodeHeaderOffset pcir)))\<rparr>)"

definition GetPciLegacyRom ::
  "mem \<Rightarrow> u16 \<Rightarrow> u16 \<Rightarrow> u16 \<Rightarrow> nat \<Rightarrow> nat \<Rightarrow> (EFI_STATUS + legacy_rom) option" where
  "GetPciLegacyRom m csm16_revision vendor device rom image_size =
     (if image_size < sizeof_EFI_PCI_ROM_HEADER then Some (Inl EFI_NOT_FOUND)
      else
        case rom_scan m csm16_revision vendor device rom image_size rom None of
          None \<Rightarrow> None
        | Some (Some best, _) \<Rightarrow> Some (Inr (legacy_rom_of m best))
        | Some (None, None) \<Rightarrow> Some (Inl EFI_NOT_FOUND)
        | Some (None, Some backup) \<Rightarrow> Some (Inr (legacy_rom_of m backup)))"

section \<open>The chain of images\<close>

text \<open>An image the loop accepts, and the chain of them from an address on.\<close>

definition rom_ok :: "mem \<Rightarrow> nat \<Rightarrow> nat \<Rightarrow> nat \<Rightarrow> bool" where
  "rom_ok m rom image_size raw \<longleftrightarrow>
     rom_Signature m raw = PCI_EXPANSION_ROM_HEADER_SIGNATURE \<and>
     rom_PcirOffset m raw \<noteq> 0 \<and> rom_PcirOffset m raw AND 3 = 0 \<and>
     raw - rom + unat (rom_PcirOffset m raw) + sizeof_PCI_DATA_STRUCTURE \<le> image_size \<and>
     pcir_Signature (rom_pcir m raw) = PCI_DATA_STRUCTURE_SIGNATURE \<and>
     raw - rom + unat (pcir_ImageLength (rom_pcir m raw)) * 512 \<le> image_size"

definition rom_last :: "mem \<Rightarrow> nat \<Rightarrow> bool" where
  "rom_last m raw \<longleftrightarrow> pcir_Indicator (rom_pcir m raw) AND 0x80 = 0x80"

lemma rom_ok_advance:
  assumes "rom_ok m rom image_size raw" "pcir_ImageLength (rom_pcir m raw) \<noteq> 0"
  shows "rom + image_size - (raw + 512 * unat (pcir_ImageLength (rom_pcir m raw))) < rom + image_size - raw"
proof -
  have "0 < unat (pcir_ImageLength (rom_pcir m raw))" using assms(2) by (simp add: unat_gt_0)
  moreover have "raw < rom + image_size" using assms(1) by (auto simp: rom_ok_def sizeof_PCI_DATA_STRUCTURE_def)
  ultimately show ?thesis by linarith
qed

function rom_images :: "mem \<Rightarrow> nat \<Rightarrow> nat \<Rightarrow> nat \<Rightarrow> nat list" where
  "rom_images m rom image_size raw =
     (if \<not> rom_ok m rom image_size raw then []
      else raw # (if rom_last m raw \<or> pcir_ImageLength (rom_pcir m raw) = 0 then []
                  else rom_images m rom image_size (raw + 512 * unat (pcir_ImageLength (rom_pcir m raw)))))"
  by pat_completeness auto
termination
  by (relation "measure (\<lambda>(m, rom, image_size, raw). rom + image_size - raw)")
    (auto intro: rom_ok_advance)

declare rom_images.simps [simp del]

text \<open>The device list of an image, when it has one, and whether an image is for a device.\<close>

definition listed :: "mem \<Rightarrow> nat \<Rightarrow> u16 \<Rightarrow> bool" where
  "listed m p device \<longleftrightarrow> (\<exists>n. load16 m (p + 2 * n) = device \<and> (\<forall>k \<le> n. load16 m (p + 2 * k) \<noteq> 0))"

definition list_ends :: "mem \<Rightarrow> nat \<Rightarrow> bool" where
  "list_ends m p \<longleftrightarrow> (\<exists>n. load16 m (p + 2 * n) = 0)"

definition device_list :: "mem \<Rightarrow> nat \<Rightarrow> nat" where
  "device_list m raw = raw + unat (rom_PcirOffset m raw) + unat (pcir_DeviceListOffset (rom_pcir m raw))"

definition rom_hit :: "mem \<Rightarrow> u16 \<Rightarrow> u16 \<Rightarrow> nat \<Rightarrow> bool" where
  "rom_hit m vendor device raw \<longleftrightarrow>
     (let pcir = rom_pcir m raw in
      pcir_CodeType pcir = PCI_CODE_TYPE_PCAT_IMAGE \<and> pcir_VendorId pcir = vendor \<and>
      (pcir_DeviceId pcir = device \<or>
       pcir_Revision pcir \<ge> 3 \<and> pcir_DeviceListOffset pcir \<noteq> 0 \<and> listed m (device_list m raw) device))"

text \<open>The images for a device, and those among them of the revision that suits the CSM.\<close>

definition rom_hits :: "mem \<Rightarrow> u16 \<Rightarrow> u16 \<Rightarrow> nat \<Rightarrow> nat \<Rightarrow> nat list" where
  "rom_hits m vendor device rom image_size = filter (rom_hit m vendor device) (rom_images m rom image_size rom)"

definition rom_exact :: "mem \<Rightarrow> u16 \<Rightarrow> u16 \<Rightarrow> u16 \<Rightarrow> nat \<Rightarrow> nat \<Rightarrow> nat list" where
  "rom_exact m csm16_revision vendor device rom image_size =
     filter (\<lambda>r. rom_perfect csm16_revision (rom_pcir m r)) (rom_hits m vendor device rom image_size)"

text \<open>
  A chain on which the search ends: no image of length zero that is not marked as the last, and a
  terminated device list in every image that has one.
\<close>

definition rom_chain_ok :: "mem \<Rightarrow> nat \<Rightarrow> nat \<Rightarrow> nat \<Rightarrow> bool" where
  "rom_chain_ok m rom image_size raw \<longleftrightarrow>
     (\<forall>r \<in> set (rom_images m rom image_size raw).
        (rom_last m r \<or> pcir_ImageLength (rom_pcir m r) \<noteq> 0) \<and>
        (pcir_DeviceListOffset (rom_pcir m r) \<noteq> 0 \<longrightarrow> list_ends m (device_list m r)))"

lemma device_list_match_listed:
  assumes "list_ends m p"
  shows "device_list_match m p device = Some (listed m p device)"
proof -
  from assms obtain n where "load16 m (p + 2 * n) = 0" by (auto simp: list_ends_def)
  then show ?thesis
  proof (induction n arbitrary: p)
    case 0
    then have "\<not> listed m p device" by (auto simp: listed_def)
    with 0 show ?case by (simp add: device_list_match.simps)
  next
    case (Suc n)
    have l: "listed m p device \<longleftrightarrow> load16 m p \<noteq> 0 \<and> (load16 m p = device \<or> listed m (p + 2) device)"
    proof
      assume "listed m p device"
      then obtain k where k: "load16 m (p + 2 * k) = device" "\<forall>j \<le> k. load16 m (p + 2 * j) \<noteq> 0"
        by (auto simp: listed_def)
      have "load16 m (p + 2 + 2 * j) \<noteq> 0" if "k = Suc i" "j \<le> i" for i j
        using k(2) that by (auto dest: spec [of _ "Suc j"])
      with k show "load16 m p \<noteq> 0 \<and> (load16 m p = device \<or> listed m (p + 2) device)"
        by (cases k) (auto simp: listed_def dest: spec [of _ 0])
    next
      assume r: "load16 m p \<noteq> 0 \<and> (load16 m p = device \<or> listed m (p + 2) device)"
      then consider "load16 m p = device" | k where "load16 m (p + 2 * Suc k) = device"
        "\<forall>j \<le> k. load16 m (p + 2 * Suc j) \<noteq> 0" by (auto simp: listed_def)
      then show "listed m p device"
      proof cases
        case 1
        with r show ?thesis by (auto simp: listed_def intro: exI [of _ 0])
      next
        case (2 k)
        have "load16 m (p + 2 * j) \<noteq> 0" if "j \<le> Suc k" for j
          using that 2(2) r by (cases j) (auto simp del: mult_Suc_right)
        with 2(1) show ?thesis unfolding listed_def by blast
      qed
    qed
    have "load16 m (p + 2 + 2 * n) = 0" using Suc.prems by (simp add: add.assoc)
    then show ?case using Suc.IH [of "p + 2"] l by (subst device_list_match.simps) simp
  qed
qed

lemma rom_match_hit:
  assumes "pcir_DeviceListOffset (rom_pcir m raw) \<noteq> 0 \<longrightarrow> list_ends m (device_list m raw)"
  shows "(if pcir_CodeType (rom_pcir m raw) = PCI_CODE_TYPE_PCAT_IMAGE
      then rom_match m (raw + unat (rom_PcirOffset m raw)) vendor device else Some False) =
    Some (rom_hit m vendor device raw)"
  using assms device_list_match_listed [of m "device_list m raw" device]
  by (auto simp: rom_match_def rom_hit_def Let_def device_list_def)

text \<open>One round of the loop.\<close>

lemma rom_scan_stop: "\<not> rom_ok m rom sz raw \<Longrightarrow> rom_scan m crev vendor device rom sz raw b = Some (None, b)"
  by (subst rom_scan.simps) (auto simp: rom_ok_def Let_def not_le)

lemma rom_scan_image:
  assumes "rom_ok m rom sz raw"
    and "pcir_DeviceListOffset (rom_pcir m raw) \<noteq> 0 \<longrightarrow> list_ends m (device_list m raw)"
  shows "rom_scan m crev vendor device rom sz raw b =
    (if rom_hit m vendor device raw \<and> rom_perfect crev (rom_pcir m raw) then Some (Some raw, b)
     else let b = (if rom_hit m vendor device raw then Some raw else b) in
       if rom_last m raw then Some (None, b)
       else rom_scan m crev vendor device rom sz (raw + 512 * unat (pcir_ImageLength (rom_pcir m raw))) b)"
  using assms(1)
  by (subst rom_scan.simps) (auto simp: rom_ok_def Let_def not_less rom_match_hit [OF assms(2)] rom_last_def)

lemma rom_scan_images:
  assumes "rom_chain_ok m rom sz raw"
  shows "\<exists>b'. rom_scan m crev vendor device rom sz raw b =
    (let hits = filter (rom_hit m vendor device) (rom_images m rom sz raw)
     in Some (case filter (\<lambda>r. rom_perfect crev (rom_pcir m r)) hits of
         best # _ \<Rightarrow> (Some best, b')
       | [] \<Rightarrow> (None, if hits = [] then b else Some (last hits))))"
  using assms
proof (induction m rom sz raw arbitrary: b rule: rom_images.induct)
  case (1 m rom sz raw)
  show ?case
  proof (cases "rom_ok m rom sz raw")
    case False
    then show ?thesis by (simp add: rom_scan_stop rom_images.simps [of m rom sz raw])
  next
    case ok: True
    let ?n = "raw + 512 * unat (pcir_ImageLength (rom_pcir m raw))"
    let ?stop = "rom_last m raw \<or> pcir_ImageLength (rom_pcir m raw) = 0"
    have i: "rom_images m rom sz raw = raw # (if ?stop then [] else rom_images m rom sz ?n)"
      using ok by (simp add: rom_images.simps [of m rom sz raw])
    have c: "rom_last m raw \<or> pcir_ImageLength (rom_pcir m raw) \<noteq> 0"
      "pcir_DeviceListOffset (rom_pcir m raw) \<noteq> 0 \<longrightarrow> list_ends m (device_list m raw)"
      "\<not> ?stop \<Longrightarrow> rom_chain_ok m rom sz ?n"
      using "1.prems" by (auto simp: rom_chain_ok_def i)
    note s = rom_scan_image [OF ok c(2), of crev vendor device b]
    show ?thesis
    proof (cases "rom_last m raw")
      case True
      then show ?thesis by (auto simp: s i Let_def)
    next
      case False
      then have n: "\<not> ?stop" using c(1) by blast
      note IH = "1.IH" [OF _ n c(3) [OF n], of "if rom_hit m vendor device raw then Some raw else b"]
      from IH ok obtain b' where "rom_scan m crev vendor device rom sz ?n (if rom_hit m vendor device raw then Some raw else b) =
        (let hits = filter (rom_hit m vendor device) (rom_images m rom sz ?n)
         in Some (case filter (\<lambda>r. rom_perfect crev (rom_pcir m r)) hits of
             best # _ \<Rightarrow> (Some best, b')
           | [] \<Rightarrow> (None, if hits = [] then if rom_hit m vendor device raw then Some raw else b else Some (last hits))))"
        by auto
      then show ?thesis using False n by (auto simp: s i Let_def split: list.splits)
    qed
  qed
qed

lemma rom_images_inside:
  assumes "r \<in> set (rom_images m rom sz raw)" "rom \<le> raw"
  shows "rom_ok m rom sz r \<and> rom \<le> r"
  using assms
  by (induction m rom sz raw rule: rom_images.induct)
    (subst (asm) (2) rom_images.simps, auto split: if_splits)

section \<open>Properties\<close>

text \<open>
  C13.  On a ROM whose chain of images ends, \<^verbatim>\<open>GetPciLegacyRom\<close> returns.  Among the PC-AT images for
  the device it takes the first of the revision that suits the CSM, otherwise the last one; without any it
  reports \<^verbatim>\<open>EFI_NOT_FOUND\<close>.  What it selects lies inside the ROM.
\<close>

theorem GetPciLegacyRom_correct:
  assumes "8 \<le> sz" "rom_chain_ok m rom sz rom"
  shows "GetPciLegacyRom m crev vendor device rom sz =
      Some (if rom_exact m crev vendor device rom sz \<noteq> []
          then Inr (legacy_rom_of m (hd (rom_exact m crev vendor device rom sz)))
        else if rom_hits m vendor device rom sz \<noteq> [] then Inr (legacy_rom_of m (last (rom_hits m vendor device rom sz)))
        else Inl EFI_NOT_FOUND) \<and>
    (\<forall>r. GetPciLegacyRom m crev vendor device rom sz = Some (Inr r) \<longrightarrow>
      rom \<le> lr_Rom r \<and> lr_Rom r + lr_ImageSize r \<le> rom + sz)"
proof -
  let ?h = "rom_hits m vendor device rom sz" and ?e = "rom_exact m crev vendor device rom sz"
  from rom_scan_images [OF assms(2), of crev vendor device None] obtain b where
    s: "rom_scan m crev vendor device rom sz rom None =
      Some (case ?e of best # _ \<Rightarrow> (Some best, b) | [] \<Rightarrow> (None, if ?h = [] then None else Some (last ?h)))"
    unfolding Let_def rom_hits_def [symmetric] rom_exact_def [symmetric] by blast
  have g: "GetPciLegacyRom m crev vendor device rom sz =
      Some (if ?e \<noteq> [] then Inr (legacy_rom_of m (hd ?e))
        else if ?h \<noteq> [] then Inr (legacy_rom_of m (last ?h)) else Inl EFI_NOT_FOUND)"
    using assms(1) by (cases ?e) (simp_all add: GetPciLegacyRom_def sizeof_EFI_PCI_ROM_HEADER_def s)
  have "hd ?e \<in> set (rom_images m rom sz rom)" if "?e \<noteq> []"
    using hd_in_set [OF that] by (simp add: rom_hits_def rom_exact_def)
  moreover have "last ?h \<in> set (rom_images m rom sz rom)" if "?h \<noteq> []"
    using last_in_set [OF that] by (simp add: rom_hits_def)
  ultimately have "rom \<le> lr_Rom r \<and> lr_Rom r + lr_ImageSize r \<le> rom + sz"
    if "GetPciLegacyRom m crev vendor device rom sz = Some (Inr r)" for r
    using that rom_images_inside [of _ m rom sz rom]
    by (fastforce simp: g legacy_rom_of_def Let_def rom_ok_def split: if_splits)
  with g show ?thesis by blast
qed

text \<open>A ROM of one image for device 1111 of vendor 1234, in the revision 0 format.\<close>

definition rom_example :: mem where
  "rom_example = (\<lambda>_. 0)(0 := 0x55, 1 := 0xAA, 24 := 0x1C, 28 := 0x50, 29 := 0x43, 30 := 0x49, 31 := 0x52,
     32 := 0x34, 33 := 0x12, 34 := 0x11, 35 := 0x11, 38 := 0x18, 44 := 1, 49 := 0x80)"

lemma rom_example_fields:
  "rom_Signature rom_example 0 = 0xAA55" "rom_PcirOffset rom_example 0 = 0x1C"
  "read_pcir rom_example 28 = \<lparr>pcir_Signature = 0x52494350, pcir_VendorId = 0x1234, pcir_DeviceId = 0x1111,
     pcir_DeviceListOffset = 0, pcir_Length = 24, pcir_Revision = 0, pcir_ImageLength = 1, pcir_CodeType = 0,
     pcir_Indicator = 0x80, pcir_MaxRuntimeImageLength = 0, pcir_ConfigUtilityCodeHeaderOffset = 0\<rparr>"
  by (simp_all add: rom_Signature_def rom_PcirOffset_def read_pcir_def rom_example_def load16_def load32_def
      load_bytes_def upt_rec)

theorem GetPciLegacyRom_correct_witness:
  "map_option (map_sum id lr_ImageSize) (GetPciLegacyRom rom_example 0x300 0x1234 0x1111 0 512) = Some (Inr 512) \<and>
   GetPciLegacyRom rom_example 0x300 0x1234 0x1112 0 512 = Some (Inl EFI_NOT_FOUND)"
proof -
  have p: "rom_pcir rom_example 0 = read_pcir rom_example 28" by (simp add: rom_example_fields)
  have "rom_ok rom_example 0 512 0" "rom_last rom_example 0"
    by (simp_all add: rom_ok_def rom_last_def p rom_example_fields PCI_EXPANSION_ROM_HEADER_SIGNATURE_def
        PCI_DATA_STRUCTURE_SIGNATURE_def sizeof_PCI_DATA_STRUCTURE_def)
  then have i: "rom_images rom_example 0 512 0 = [0]" "rom_chain_ok rom_example 0 512 0"
    by (simp_all add: rom_images.simps [of rom_example 0 512 0] rom_chain_ok_def p rom_example_fields)
  have "rom_hit rom_example 0x1234 0x1111 0" "\<not> rom_hit rom_example 0x1234 0x1112 0"
    "\<not> rom_perfect 0x300 (rom_pcir rom_example 0)"
    by (simp_all add: rom_hit_def p rom_example_fields PCI_CODE_TYPE_PCAT_IMAGE_def rom_perfect_def)
  then show ?thesis
    using GetPciLegacyRom_correct [of 512 rom_example 0 "0x300" "0x1234" "0x1111"]
      GetPciLegacyRom_correct [of 512 rom_example 0 "0x300" "0x1234" "0x1112"] i
    by (simp add: rom_exact_def rom_hits_def legacy_rom_of_def Let_def p rom_example_fields)
qed

text \<open>The search does not return on a non-matching image of length zero that is not marked as the last.\<close>

lemma rom_scan_stuck:
  assumes "rom_ok m rom sz raw" "pcir_ImageLength (rom_pcir m raw) = 0" "\<not> rom_last m raw"
    and "pcir_CodeType (rom_pcir m raw) \<noteq> PCI_CODE_TYPE_PCAT_IMAGE"
  shows "rom_scan m crev vendor device rom sz raw b = None"
proof -
  have "\<not> (m' = m \<and> rom' = rom \<and> sz' = sz \<and> raw' = raw)"
    if "rom_scan m' crev' vendor' device' rom' sz' raw' b' = Some r" for m' crev' vendor' device' rom' sz' raw' b' r
  proof (rule rom_scan.raw_induct [OF _ that, of "\<lambda>m' _ _ _ rom' sz' raw' _ _. \<not> (m' = m \<and> rom' = rom \<and> sz' = sz \<and> raw' = raw)"],
      rule notI, elim conjE, goal_cases)
    case (1 scan m' crev' vendor' device' rom' sz' raw' b' r)
    from 1(2-) assms have "scan m crev' vendor' device' rom sz raw b' = Some r"
      by (auto simp: rom_ok_def Let_def not_less rom_last_def split: if_splits)
    from 1(1) [OF this] show False by simp
  qed
  then show ?thesis by (metis not_Some_eq)
qed

end
