(* ===== verification/Video.thy ===== *)
theory Video
  imports Option_Rom Coreboot
begin

text \<open>
  Video set-up of CSMWrap, \<^verbatim>\<open>src/video.c\<close>: finding the graphics output protocol and its PCI device,
  routing legacy VGA cycles to it, and choosing the VGA BIOS: the option ROM of the device, SeaVGABIOS on the
  frame buffer of the protocol, or SeaVGABIOS on a dummy frame buffer.

  The UEFI protocols are parameters: records of their functions over the state of the firmware and
  its devices.  \<open>None\<close> as a result stands for an access through a null pointer and for a search that does
  not return.
\<close>

section \<open>Protocols\<close>

datatype EFI_GRAPHICS_PIXEL_FORMAT =
  PixelRedGreenBlueReserved8BitPerColor | PixelBlueGreenRedReserved8BitPerColor | PixelBitMask
| PixelBltOnly | PixelFormatMax

record gop_mode_info =
  HorizontalResolution :: u32
  VerticalResolution :: u32
  PixelFormat :: EFI_GRAPHICS_PIXEL_FORMAT
  RedMask :: u32
  GreenMask :: u32
  BlueMask :: u32
  ReservedMask :: u32
  PixelsPerScanLine :: u32

text \<open>The two fields of \<^verbatim>\<open>Mode\<close> that the code reads, behind a pointer that may be null.\<close>

record gop_mode =
  mode_Mode :: u32
  FrameBufferBase :: u64

record 'd gop =
  gop_Mode :: "gop_mode option"
  gop_QueryMode :: "u32 \<Rightarrow> 'd \<Rightarrow> (EFI_STATUS \<times> gop_mode_info) \<times> 'd"

datatype pci_io_operation = EfiPciIoAttributeOperationSupported | EfiPciIoAttributeOperationEnable

text \<open>\<open>pio_Read width offset count\<close> delivers the bytes of the configuration space.\<close>

record 'd pci_io =
  pio_Attributes :: "pci_io_operation \<Rightarrow> u64 \<Rightarrow> 'd \<Rightarrow> (EFI_STATUS \<times> u64) \<times> 'd"
  pio_GetLocation :: "'d \<Rightarrow> (EFI_STATUS \<times> u64 \<times> u64 \<times> u64 \<times> u64) \<times> 'd"
  pio_Read :: "nat \<Rightarrow> u32 \<Rightarrow> nat \<Rightarrow> 'd \<Rightarrow> (EFI_STATUS \<times> u8 list) \<times> 'd"
  pio_RomImage :: nat
  pio_RomSize :: u64

record 'd video_services =
  LocateHandleBuffer :: "'d \<Rightarrow> (EFI_STATUS \<times> u64 list) \<times> 'd"
  HandleProtocol_gop :: "u64 \<Rightarrow> 'd \<Rightarrow> (EFI_STATUS \<times> 'd gop) \<times> 'd"
  HandleProtocol_DevicePath :: "u64 \<Rightarrow> 'd \<Rightarrow> (EFI_STATUS \<times> u64) \<times> 'd"
  LocateDevicePath_PciIo :: "u64 \<Rightarrow> 'd \<Rightarrow> (EFI_STATUS \<times> u64) \<times> 'd"
  HandleProtocol_PciIo :: "u64 \<Rightarrow> 'd \<Rightarrow> (EFI_STATUS \<times> 'd pci_io) \<times> 'd"
  FreeHandleBuffer :: "'d \<Rightarrow> 'd"
  bs_Revision :: u32
  DisconnectController :: "(u64 \<Rightarrow> 'd \<Rightarrow> EFI_STATUS \<times> 'd) option"

section \<open>State\<close>

text \<open>The video part of \<^verbatim>\<open>struct csmwrap_priv\<close>, and \<^verbatim>\<open>vbios_loc\<close> and \<^verbatim>\<open>vbios_size\<close>.\<close>

record 'd video =
  video_type :: csmwrap_video_type
  gop :: "'d gop option"
  gop_handle :: u64
  vga_pci_io :: "'d pci_io option"
  vga_pci_bus :: u8
  vga_pci_devfn :: u8
  cb_fb :: cb_framebuffer
  vbios_loc :: nat
  vbios_size :: nat

text \<open>The address and the size of the array \<^verbatim>\<open>vgabios_bin\<close>, which the build generates.\<close>

record vgabios_image =
  vgabios_bin :: nat
  sizeof_vgabios_bin :: nat

definition EFI_1_10_BOOT_SERVICES_REVISION :: u32 where "EFI_1_10_BOOT_SERVICES_REVISION = 0x1000A"
definition EFI_PCI_IO_ATTRIBUTE_VGA_MEMORY :: u64 where "EFI_PCI_IO_ATTRIBUTE_VGA_MEMORY = 0x8"
definition EFI_PCI_IO_ATTRIBUTE_VGA_IO :: u64 where "EFI_PCI_IO_ATTRIBUTE_VGA_IO = 0x10"
definition EFI_PCI_IO_ATTRIBUTE_VGA_IO_16 :: u64 where "EFI_PCI_IO_ATTRIBUTE_VGA_IO_16 = 0x40000"

section \<open>The display device\<close>

text \<open>The loop over the handles: the last status and the first handle with the protocol.\<close>

fun find_gop :: "'d video_services \<Rightarrow> u64 list \<Rightarrow> EFI_STATUS \<Rightarrow> 'd \<Rightarrow> (EFI_STATUS \<times> (u64 \<times> 'd gop) option) \<times> 'd" where
  "find_gop S [] status d = ((status, None), d)"
| "find_gop S (h # hs) status d =
     (let ((status, g), d) = HandleProtocol_gop S h d in
      if EFI_ERROR status then find_gop S hs status d else ((status, Some (h, g)), d))"

definition record_pci_io :: "'d pci_io \<Rightarrow> 'd video \<Rightarrow> 'd \<Rightarrow> EFI_STATUS \<times> 'd video \<times> 'd" where
  "record_pci_io PciIo v d =
     (let v = v\<lparr>vga_pci_io := Some PciIo\<rparr>;
          ((status, seg, bus, device, fn), d) = pio_GetLocation PciIo d;
          v = v\<lparr>vga_pci_bus := ucast bus, vga_pci_devfn := ucast (push_bit 3 device OR fn)\<rparr>;
          ((status, vendor), d) = pio_Read PciIo 2 0 1 d;
          ((status, device_id), d) = pio_Read PciIo 2 2 1 d
      in (status, v, d))"

definition FindGopPciDevice :: "'d video_services \<Rightarrow> 'd video \<Rightarrow> 'd \<Rightarrow> (EFI_STATUS \<times> 'd video \<times> 'd) option" where
  "FindGopPciDevice S v d =
     (let ((status, handles), d) = LocateHandleBuffer S d in
      if EFI_ERROR status then Some (status, v, d)
      else
        let ((status, found), d) = find_gop S handles status d;
            v = (case found of None \<Rightarrow> v | Some (h, g) \<Rightarrow> v\<lparr>gop := Some g, gop_handle := h\<rparr>)
        in if gop v = None then Some (status, v, FreeHandleBuffer S d)
           else case found of
             None \<Rightarrow> None
           | Some (h, g) \<Rightarrow>
               let ((status, path), d) = HandleProtocol_DevicePath S h d;
                   d = FreeHandleBuffer S d
               in if EFI_ERROR status then Some (status, v, d)
                  else
                    let ((status, handle), d) = LocateDevicePath_PciIo S path d in
                    if EFI_ERROR status then Some (status, v, d)
                    else
                      let ((status, PciIo), d) = HandleProtocol_PciIo S handle d in
                      if \<not> EFI_ERROR status then Some (record_pci_io PciIo v d) else Some (status, v, d))"

text \<open>The attributes to enable, from the supported ones; \<open>None\<close> if legacy VGA cannot be routed.\<close>

definition vga_attributes :: "u64 \<Rightarrow> u64 option" where
  "vga_attributes supported =
     (let both = EFI_PCI_IO_ATTRIBUTE_VGA_IO OR EFI_PCI_IO_ATTRIBUTE_VGA_IO_16;
          attributes = supported AND both;
          unsupported = (attributes = 0);
          attributes = (if attributes \<noteq> 0 \<and> attributes = both then EFI_PCI_IO_ATTRIBUTE_VGA_IO else attributes);
          mem_ok = supported AND EFI_PCI_IO_ATTRIBUTE_VGA_MEMORY \<noteq> 0;
          attributes = (if mem_ok then attributes OR EFI_PCI_IO_ATTRIBUTE_VGA_MEMORY else attributes);
          unsupported = (unsupported \<or> \<not> mem_ok)
      in if unsupported then None else Some attributes)"

definition csmwrap_pci_vgaarb :: "'d video \<Rightarrow> 'd \<Rightarrow> EFI_STATUS \<times> 'd" where
  "csmwrap_pci_vgaarb v d =
     (case vga_pci_io v of
        None \<Rightarrow> (- 1, d)
      | Some PciIo \<Rightarrow>
          let ((status, supported), d) = pio_Attributes PciIo EfiPciIoAttributeOperationSupported 0 d in
          if EFI_ERROR status then (status, d)
          else case vga_attributes supported of
            None \<Rightarrow> (- 1, d)
          | Some attributes \<Rightarrow>
              let ((status, _), d) = pio_Attributes PciIo EfiPciIoAttributeOperationEnable attributes d in
              if EFI_ERROR status then (status, d) else (0, d))"

section \<open>The three kinds of VGA BIOS\<close>

definition csmwrap_video_oprom_init :: "mem \<Rightarrow> 'd video \<Rightarrow> 'd \<Rightarrow> (EFI_STATUS \<times> 'd video \<times> 'd) option" where
  "csmwrap_video_oprom_init m v d =
     (case vga_pci_io v of
        None \<Rightarrow> Some (EFI_UNSUPPORTED, v, d)
      | Some PciIo \<Rightarrow>
          if pio_RomImage PciIo = 0 \<or> pio_RomSize PciIo = 0 then Some (EFI_UNSUPPORTED, v, d)
          else
            let ((_, hdr), d) = pio_Read PciIo 4 0 16 d;
                vendor = of_le (take 2 hdr); device = of_le (take 2 (drop 2 hdr))
            in case GetPciLegacyRom m 0x0300 vendor device (pio_RomImage PciIo) (unat (pio_RomSize PciIo)) of
                 None \<Rightarrow> None
               | Some (Inl status) \<Rightarrow> Some (status, v, d)
               | Some (Inr r) \<Rightarrow>
                   Some (0, v\<lparr>vbios_loc := lr_Rom r, vbios_size := lr_ImageSize r, video_type := CSMWRAP_VIDEO_OPROM\<rparr>, d))"

text \<open>\<^verbatim>\<open>__builtin_ffs\<close> and \<^verbatim>\<open>__builtin_popcount\<close>.\<close>

definition builtin_ffs :: "u32 \<Rightarrow> int" where
  "builtin_ffs w = (if w = 0 then 0 else int (length (takeWhile (\<lambda>i. \<not> bit w i) [0..<32])) + 1)"

definition builtin_popcount :: "u32 \<Rightarrow> int" where
  "builtin_popcount w = int (length (filter (bit w) [0..<32]))"

definition gop_masks :: "gop_mode_info \<Rightarrow> cb_framebuffer \<Rightarrow> cb_framebuffer option" where
  "gop_masks info fb =
     (case PixelFormat info of
        PixelRedGreenBlueReserved8BitPerColor \<Rightarrow>
          Some (fb\<lparr>red_mask_pos := 0, red_mask_size := 8, green_mask_pos := 8, green_mask_size := 8,
                   blue_mask_pos := 16, blue_mask_size := 8, reserved_mask_pos := 24, reserved_mask_size := 8\<rparr>)
      | PixelBlueGreenRedReserved8BitPerColor \<Rightarrow>
          Some (fb\<lparr>blue_mask_pos := 0, blue_mask_size := 8, green_mask_pos := 8, green_mask_size := 8,
                   red_mask_pos := 16, red_mask_size := 8, reserved_mask_pos := 24, reserved_mask_size := 8\<rparr>)
      | PixelBitMask \<Rightarrow>
          Some (fb\<lparr>red_mask_pos := word_of_int (builtin_ffs (RedMask info) - 1),
                   green_mask_pos := word_of_int (builtin_ffs (GreenMask info) - 1),
                   blue_mask_pos := word_of_int (builtin_ffs (BlueMask info) - 1),
                   reserved_mask_pos := word_of_int (builtin_ffs (ReservedMask info) - 1),
                   red_mask_size := word_of_int (builtin_popcount (RedMask info)),
                   green_mask_size := word_of_int (builtin_popcount (GreenMask info)),
                   blue_mask_size := word_of_int (builtin_popcount (BlueMask info)),
                   reserved_mask_size := word_of_int (builtin_popcount (ReservedMask info))\<rparr>)
      | _ \<Rightarrow> None)"

text \<open>The address and the geometry are stored before the pixel format is checked.\<close>

definition csmwrap_video_seavgabios_init ::
  "vgabios_image \<Rightarrow> 'd video \<Rightarrow> 'd \<Rightarrow> (EFI_STATUS \<times> 'd video \<times> 'd) option" where
  "csmwrap_video_seavgabios_init I v d =
     (case gop v of
        None \<Rightarrow> Some (EFI_UNSUPPORTED, v, d)
      | Some g \<Rightarrow>
          let currentMode = (case gop_Mode g of None \<Rightarrow> 0 | Some md \<Rightarrow> mode_Mode md);
              ((status, info), d) = gop_QueryMode g currentMode d
          in if EFI_ERROR status then Some (- 1, v, d)
             else case gop_Mode g of
               None \<Rightarrow> None
             | Some md \<Rightarrow>
                 let fb_addr = FrameBufferBase md in
                 if fb_addr = 0 then Some (EFI_UNSUPPORTED, v, d)
                 else if fb_addr > 0xFFFFFFFF then Some (EFI_UNSUPPORTED, v, d)
                 else
                   let fb = (cb_fb v)\<lparr>physical_address := fb_addr, x_resolution := HorizontalResolution info,
                               y_resolution := VerticalResolution info,
                               bytes_per_line := PixelsPerScanLine info * 4, cb_framebuffer.bits_per_pixel := 32\<rparr>
                   in case gop_masks info fb of
                        None \<Rightarrow> Some (EFI_UNSUPPORTED, v\<lparr>cb_fb := fb\<rparr>, d)
                      | Some fb \<Rightarrow>
                          Some (0, v\<lparr>cb_fb := fb, vbios_loc := vgabios_bin I, vbios_size := sizeof_vgabios_bin I,
                                     video_type := CSMWRAP_VIDEO_SEAVGABIOS\<rparr>, d))"

definition csmwrap_video_fallback :: "vgabios_image \<Rightarrow> 'd video \<Rightarrow> EFI_STATUS \<times> 'd video" where
  "csmwrap_video_fallback I v =
     (0, v\<lparr>cb_fb := (cb_fb v)\<lparr>physical_address := 0xA0000, x_resolution := 1024, y_resolution := 768,
              bytes_per_line := 1024 * 4, cb_framebuffer.bits_per_pixel := 32, red_mask_pos := 0,
              red_mask_size := 8, green_mask_pos := 8, green_mask_size := 8, blue_mask_pos := 16,
              blue_mask_size := 8, reserved_mask_pos := 24, reserved_mask_size := 8\<rparr>,
            vbios_loc := vgabios_bin I, vbios_size := sizeof_vgabios_bin I, video_type := CSMWRAP_VIDEO_FALLBACK\<rparr>)"

section \<open>The entry points\<close>

definition csmwrap_video_prepare_exitbs :: "'d video_services \<Rightarrow> 'd video \<Rightarrow> 'd \<Rightarrow> (EFI_STATUS \<times> 'd) option" where
  "csmwrap_video_prepare_exitbs S v d =
     (if video_type v = CSMWRAP_VIDEO_OPROM then
        if gop_handle v = 0 then Some (EFI_UNSUPPORTED, d)
        else if bs_Revision S < EFI_1_10_BOOT_SERVICES_REVISION \<and> DisconnectController S = None
        then Some (EFI_UNSUPPORTED, d)
        else case DisconnectController S of
          None \<Rightarrow> None
        | Some disconnect \<Rightarrow>
            let (status, d) = disconnect (gop_handle v) d in
            if EFI_ERROR status then Some (status, d) else Some (EFI_SUCCESS, d)
      else Some (EFI_SUCCESS, d))"

definition csmwrap_video_init ::
  "'d video_services \<Rightarrow> vgabios_image \<Rightarrow> mem \<Rightarrow> 'd video \<Rightarrow> 'd \<Rightarrow> (EFI_STATUS \<times> 'd video \<times> 'd) option" where
  "csmwrap_video_init S I m v d =
     (case FindGopPciDevice S v d of
        None \<Rightarrow> None
      | Some (status, v, d) \<Rightarrow>
          if EFI_ERROR status \<and> gop v = None then Some (- 1, v, d)
          else
            let d = (if vga_pci_io v \<noteq> None then snd (csmwrap_pci_vgaarb v d) else d) in
            if vbios_loc v \<noteq> 0 then Some (0, v, d)
            else case csmwrap_video_oprom_init m v d of
              None \<Rightarrow> None
            | Some (status, v, d) \<Rightarrow>
                if status = EFI_SUCCESS then Some (0, v, d)
                else case csmwrap_video_seavgabios_init I v d of
                  None \<Rightarrow> None
                | Some (status, v, d) \<Rightarrow>
                    if status = EFI_SUCCESS then Some (0, v, d)
                    else let (status, v) = csmwrap_video_fallback I v in
                      if status = EFI_SUCCESS then Some (0, v, d) else Some (EFI_UNSUPPORTED, v, d))"

section \<open>Pixel masks\<close>

lemma upt_split: "i \<le> j \<Longrightarrow> j \<le> k \<Longrightarrow> [i..<k] = [i..<j] @ [j..<k]"
  using upt_add_eq_append [of i j "k - j"] by simp

lemma bit_shifted_mask:
  fixes w :: u32
  assumes "w = push_bit p (mask n)" "i < 32"
  shows "bit w i \<longleftrightarrow> p \<le> i \<and> i < p + n"
  using assms by (auto simp: bit_simps)

lemma ffs_shifted_mask:
  assumes "w = push_bit p (mask n)" "0 < n" "p + n \<le> 32"
  shows "builtin_ffs w = int p + 1"
proof -
  note b = bit_shifted_mask [OF assms(1)]
  have "[0..<32] = [0..<p] @ p # [Suc p..<32]"
    using assms(2,3) upt_split [of 0 p 32] by (simp add: upt_conv_Cons)
  moreover have "\<not> bit w i" if "i \<in> set [0..<p]" for i using b assms(3) that by auto
  moreover have "bit w p" using b [of p] assms(2,3) by simp
  ultimately have "takeWhile (\<lambda>i. \<not> bit w i) [0..<32] = [0..<p]"
    using takeWhile_append2 [of "[0..<p]" "\<lambda>i. \<not> bit w i" "p # [Suc p..<32]"] by simp
  with \<open>bit w p\<close> show ?thesis by (auto simp: builtin_ffs_def)
qed

lemma popcount_shifted_mask:
  assumes "w = push_bit p (mask n)" "p + n \<le> 32"
  shows "builtin_popcount w = int n"
proof -
  note b = bit_shifted_mask [OF assms(1)]
  have "[0..<32] = [0..<p] @ [p..<p + n] @ [p + n..<32]"
    using assms(2) upt_split [of 0 p 32] upt_split [of p "p + n" 32] by simp
  moreover have "filter (bit w) [0..<p] = []" "filter (bit w) [p + n..<32] = []"
    "filter (bit w) [p..<p + n] = [p..<p + n]"
    using assms(2) b by (auto simp: filter_empty_conv filter_id_conv)
  ultimately have "filter (bit w) [0..<32] = [p..<p + n]" by (metis append_Nil append_Nil2 filter_append)
  then show ?thesis by (simp add: builtin_popcount_def)
qed

text \<open>A contiguous mask is recovered from the position and the size that are passed on.\<close>

lemma shifted_mask_recovered:
  fixes w :: u32
  assumes "w = push_bit p (mask n)" "0 < n" "p + n \<le> 32"
  shows "push_bit (unat (word_of_int (builtin_ffs w - 1) :: u8)) (mask (unat (word_of_int (builtin_popcount w) :: u8))) = w"
proof -
  have "unat (word_of_int (int k) :: u8) = k" if "k \<le> 32" for k
    using that by (simp add: unat_of_nat)
  then show ?thesis
    using assms ffs_shifted_mask [OF assms] popcount_shifted_mask [OF assms(1,3)] by simp
qed

section \<open>Properties\<close>

lemma find_gop_services: "snd (fst (find_gop S hs st d)) = Some (h, g) \<Longrightarrow> h \<in> set hs"
  by (induction S hs st d rule: find_gop.induct) (auto simp: Let_def split: prod.splits if_splits)

lemma FindGopPciDevice_keeps:
  assumes "FindGopPciDevice S v d = Some (status, v', d')"
  shows "video_type v' = video_type v" "cb_fb v' = cb_fb v" "vbios_loc v' = vbios_loc v" "vbios_size v' = vbios_size v"
  using assms
  by (auto simp: FindGopPciDevice_def record_pci_io_def Let_def split: prod.splits if_splits option.splits)

lemma seavgabios_init_cases:
  assumes "csmwrap_video_seavgabios_init I v d = Some (status, v', d')"
  shows "gop v' = gop v \<and>
    (if status = 0 then \<exists>g md info fb s.
       gop v = Some g \<and> gop_Mode g = Some md \<and> gop_QueryMode g (mode_Mode md) d = ((s, info), d') \<and> \<not> EFI_ERROR s \<and>
       FrameBufferBase md \<noteq> 0 \<and> FrameBufferBase md \<le> 0xFFFFFFFF \<and>
       gop_masks info ((cb_fb v)\<lparr>physical_address := FrameBufferBase md, x_resolution := HorizontalResolution info,
           y_resolution := VerticalResolution info, bytes_per_line := PixelsPerScanLine info * 4,
           cb_framebuffer.bits_per_pixel := 32\<rparr>) = Some fb \<and>
       v' = v\<lparr>cb_fb := fb, vbios_loc := vgabios_bin I, vbios_size := sizeof_vgabios_bin I,
               video_type := CSMWRAP_VIDEO_SEAVGABIOS\<rparr>
     else video_type v' = video_type v)"
  using assms
  by (auto simp: csmwrap_video_seavgabios_init_def Let_def EFI_UNSUPPORTED_def split: prod.splits if_splits option.splits)

lemma gop_masks_keep:
  assumes "gop_masks info fb = Some fb'"
  shows "physical_address fb' = physical_address fb" "x_resolution fb' = x_resolution fb" "y_resolution fb' = y_resolution fb"
    "bytes_per_line fb' = bytes_per_line fb" "cb_framebuffer.bits_per_pixel fb' = cb_framebuffer.bits_per_pixel fb"
  using assms by (auto simp: gop_masks_def split: EFI_GRAPHICS_PIXEL_FORMAT.splits)

lemma GetPciLegacyRom_error: "GetPciLegacyRom m crev vendor device rom sz = Some (Inl e) \<Longrightarrow> e = EFI_NOT_FOUND"
  by (auto simp: GetPciLegacyRom_def split: if_splits option.splits)

lemma oprom_init_cases:
  assumes "csmwrap_video_oprom_init m v d = Some (status, v', d')"
  shows "if status = 0 then video_type v' = CSMWRAP_VIDEO_OPROM \<and> (\<exists>P vendor device r. vga_pci_io v' = Some P \<and>
        vbios_loc v' = lr_Rom r \<and> vbios_size v' = lr_ImageSize r \<and>
        GetPciLegacyRom m 0x0300 vendor device (pio_RomImage P) (unat (pio_RomSize P)) = Some (Inr r))
      else v' = v"
proof -
  have e: "EFI_UNSUPPORTED \<noteq> 0" "EFI_NOT_FOUND \<noteq> 0" by (simp_all add: EFI_UNSUPPORTED_def EFI_NOT_FOUND_def)
  show ?thesis
  proof (cases "vga_pci_io v")
    case None
    then show ?thesis using assms e by (auto simp: csmwrap_video_oprom_init_def)
  next
    case (Some P)
    obtain st hdr d1 where h: "pio_Read P 4 0 16 d = ((st, hdr), d1)" by (metis prod.exhaust)
    let ?g = "GetPciLegacyRom m 0x0300 (of_le (take 2 hdr)) (of_le (take 2 (drop 2 hdr))) (pio_RomImage P) (unat (pio_RomSize P))"
    consider "pio_RomImage P = 0 \<or> pio_RomSize P = 0" | "\<not> (pio_RomImage P = 0 \<or> pio_RomSize P = 0)" "?g = None"
      | x where "\<not> (pio_RomImage P = 0 \<or> pio_RomSize P = 0)" "?g = Some (Inl x)"
      | r where "\<not> (pio_RomImage P = 0 \<or> pio_RomSize P = 0)" "?g = Some (Inr r)"
      by (metis option.exhaust sum.exhaust)
    then show ?thesis
    proof cases
      case (4 r)
      then have "status = 0" "v' = v\<lparr>vbios_loc := lr_Rom r, vbios_size := lr_ImageSize r, video_type := CSMWRAP_VIDEO_OPROM\<rparr>"
        using assms Some h by (auto simp: csmwrap_video_oprom_init_def Let_def)
      with 4(2) Some show ?thesis by (intro if_bool_eq_conj [THEN iffD2] conjI impI exI [of _ P] exI [of _ r] exI) auto
    qed (use assms Some h e in \<open>auto simp: csmwrap_video_oprom_init_def Let_def dest: GetPciLegacyRom_error\<close>)
  qed
qed


text \<open>The state at start, and a machine with one display without a PCI device.\<close>

definition video_start :: "'d video" where
  "video_start = \<lparr>video_type = CSMWRAP_VIDEO_NONE, gop = None, gop_handle = 0, vga_pci_io = None, vga_pci_bus = 0,
     vga_pci_devfn = 0, cb_fb = \<lparr>fb_tag = 0, fb_size = 0, physical_address = 0, x_resolution = 0, y_resolution = 0,
       bytes_per_line = 0, bits_per_pixel = 0, red_mask_pos = 0, red_mask_size = 0, green_mask_pos = 0,
       green_mask_size = 0, blue_mask_pos = 0, blue_mask_size = 0, reserved_mask_pos = 0, reserved_mask_size = 0\<rparr>,
     vbios_loc = 0, vbios_size = 0\<rparr>"

definition gop_info_example :: gop_mode_info where
  "gop_info_example = \<lparr>HorizontalResolution = 1024, VerticalResolution = 768, PixelFormat = PixelBlueGreenRedReserved8BitPerColor,
     RedMask = 0, GreenMask = 0, BlueMask = 0, ReservedMask = 0, PixelsPerScanLine = 1024\<rparr>"

definition gop_example :: "unit gop" where
  "gop_example = \<lparr>gop_Mode = Some \<lparr>mode_Mode = 2, FrameBufferBase = 0x80000000\<rparr>,
     gop_QueryMode = (\<lambda>_ d. ((0, gop_info_example), d))\<rparr>"

definition video_services_example :: "unit video_services" where
  "video_services_example = \<lparr>LocateHandleBuffer = (\<lambda>d. ((0, [1]), d)), HandleProtocol_gop = (\<lambda>_ d. ((0, gop_example), d)),
     HandleProtocol_DevicePath = (\<lambda>_ d. ((EFI_UNSUPPORTED, 0), d)), LocateDevicePath_PciIo = (\<lambda>_ d. ((0, 0), d)),
     HandleProtocol_PciIo = (\<lambda>_ d. ((EFI_UNSUPPORTED, undefined), d)), FreeHandleBuffer = id, bs_Revision = 0x20000,
     DisconnectController = Some (\<lambda>_ d. (0, d))\<rparr>"

lemma video_init_example:
  "csmwrap_video_init video_services_example I m video_start () =
    csmwrap_video_seavgabios_init I (video_start\<lparr>gop := Some gop_example, gop_handle := 1\<rparr>) ()"
  "csmwrap_video_seavgabios_init I (video_start\<lparr>gop := Some gop_example, gop_handle := 1\<rparr>) () =
    Some (0, video_start\<lparr>gop := Some gop_example, gop_handle := 1,
      cb_fb := (cb_fb video_start)\<lparr>physical_address := 0x80000000, x_resolution := 1024, y_resolution := 768,
        bytes_per_line := 4096, cb_framebuffer.bits_per_pixel := 32, blue_mask_pos := 0, blue_mask_size := 8,
        green_mask_pos := 8, green_mask_size := 8, red_mask_pos := 16, red_mask_size := 8, reserved_mask_pos := 24,
        reserved_mask_size := 8\<rparr>, vbios_loc := vgabios_bin I, vbios_size := sizeof_vgabios_bin I,
      video_type := CSMWRAP_VIDEO_SEAVGABIOS\<rparr>, ())"
  by (simp_all add: csmwrap_video_init_def FindGopPciDevice_def video_services_example_def EFI_ERROR_def
      video_start_def csmwrap_video_oprom_init_def EFI_UNSUPPORTED_def EFI_SUCCESS_def Let_def
      csmwrap_video_seavgabios_init_def gop_example_def gop_info_example_def gop_masks_def)


end
