(* ===== verification/Calendar.thy ===== *)
theory Calendar
  imports CSM_Prelude "HOL-Library.Signed_Division"
begin

text \<open>
  The clock behind \<^verbatim>\<open>uacpi_kernel_get_nanoseconds_since_boot\<close>, \<^verbatim>\<open>src/acpi.c\<close>: the Julian day number of
  a date and nanoseconds since 1970.  The reference is a count of days by the rules of the Gregorian
  calendar; the closed formula of the source is shown to agree with it.
\<close>

section \<open>The source\<close>

text \<open>\<^verbatim>\<open>EFI_TIME\<close> without padding, time zone and daylight saving, which the code does not read.\<close>

record EFI_TIME =
  Year :: u16
  Month :: u8
  Day :: u8
  Hour :: u8
  Minute :: u8
  Second :: u8
  Nanosecond :: u32

text \<open>\<^verbatim>\<open>int\<close> arithmetic, with division rounding towards zero; 16-bit years do not overflow it.\<close>

definition get_jdn :: "int \<Rightarrow> int \<Rightarrow> int \<Rightarrow> int" where
  "get_jdn days months years =
     (1461 * (years + 4800 + (months - 14) sdiv 12)) sdiv 4
     + (367 * (months - 2 - 12 * ((months - 14) sdiv 12))) sdiv 12
     - (3 * ((years + 4900 + (months - 14) sdiv 12) sdiv 100)) sdiv 4
     + days - 32075"

definition NS_PER_S :: u64 where "NS_PER_S = 1000000000"

definition get_unix_epoch :: "u16 \<Rightarrow> u8 \<Rightarrow> u8 \<Rightarrow> u8 \<Rightarrow> u8 \<Rightarrow> u8 \<Rightarrow> u16 \<Rightarrow> u64" where
  "get_unix_epoch nanoseconds seconds minutes hours days months years =
     (let jdn_current = word_of_int (get_jdn (uint days) (uint months) (uint years));
          jdn_1970 = word_of_int (get_jdn 1 1 1970);
          jdn_diff = jdn_current - jdn_1970
      in (jdn_diff * 60 * 60 * 24 * NS_PER_S)
         + (word_of_int (uint hours * 3600) * NS_PER_S)
         + (word_of_int (uint minutes * 60) * NS_PER_S)
         + (ucast seconds * NS_PER_S)
         + ucast nanoseconds)"

text \<open>The call passes the 32-bit \<^verbatim>\<open>Nanosecond\<close> as a 16-bit argument.\<close>

definition time_epoch :: "EFI_TIME \<Rightarrow> u64" where
  "time_epoch t = get_unix_epoch (ucast (Nanosecond t)) (Second t) (Minute t) (Hour t) (Day t) (Month t) (Year t)"

section \<open>Counting days\<close>

definition leap_year :: "int \<Rightarrow> bool" where
  "leap_year y \<longleftrightarrow> y mod 4 = 0 \<and> (y mod 100 \<noteq> 0 \<or> y mod 400 = 0)"

definition month_days :: "int \<Rightarrow> nat \<Rightarrow> int" where
  "month_days y m = (if m = 2 then (if leap_year y then 29 else 28) else if m \<in> {4, 6, 9, 11} then 30 else 31)"

definition year_days :: "int \<Rightarrow> int" where
  "year_days y = (\<Sum>m \<leftarrow> [1..<13]. month_days y m)"

text \<open>The number of a date, 1 for 1 January of the year 1.\<close>

definition day_number :: "int \<Rightarrow> nat \<Rightarrow> nat \<Rightarrow> int" where
  "day_number d m y = (\<Sum>k \<leftarrow> [1..<y]. year_days (int k)) + (\<Sum>k \<leftarrow> [1..<m]. month_days (int y) k) + d"

lemma year_days: "year_days y = (if leap_year y then 366 else 365)"
  by (simp add: year_days_def month_days_def upt_rec)

section \<open>The formula\<close>

text \<open>The part of the formula that depends on the year, counted from March.\<close>

definition jdn_year :: "int \<Rightarrow> int" where
  "jdn_year y = (1461 * (y + 4800)) div 4 - (3 * ((y + 4900) div 100)) div 4"

lemma jdn_year_shift: "jdn_year (400 * q + r) = jdn_year r + 146097 * q"
proof -
  have "(1461 * (400 * q + r + 4800)) div 4 = 146100 * q + (1461 * (r + 4800)) div 4"
    using div_mult_self2 [of 4 "1461 * (r + 4800)" "146100 * q"] by (simp add: algebra_simps)
  moreover have "(400 * q + r + 4900) div 100 = 4 * q + (r + 4900) div 100"
    using div_mult_self2 [of 100 "r + 4900" "4 * q"] by (simp add: algebra_simps)
  moreover have "(3 * (4 * q + c)) div 4 = 3 * q + (3 * c) div 4" for c :: int
    using div_mult_self2 [of 4 "3 * c" "3 * q"] by (simp add: algebra_simps)
  ultimately show ?thesis by (simp add: jdn_year_def)
qed

lemma jdn_year_400: "\<forall>r \<in> set (map int [0..<400]). jdn_year r - jdn_year (r - 1) = (if leap_year r then 366 else 365)"
  by code_simp

lemma jdn_year_step: "jdn_year y - jdn_year (y - 1) = (if leap_year y then 366 else 365)"
proof -
  define q r where "q = y div 400" and "r = y mod 400"
  have y: "y = 400 * q + r" "y - 1 = 400 * q + (r - 1)" by (simp_all add: q_def r_def)
  have r: "0 \<le> r" "r < 400" by (simp_all add: r_def)
  then have "r \<in> set (map int [0..<400])"
    by (auto intro!: image_eqI [of _ _ "nat r"])
  moreover have "leap_year y = leap_year r"
    unfolding leap_year_def r_def by (simp add: mod_mod_cancel)
  moreover have "jdn_year y - jdn_year (y - 1) = jdn_year r - jdn_year (r - 1)"
    unfolding y(2) by (subst y(1)) (simp only: jdn_year_shift)
  ultimately show ?thesis using jdn_year_400 by simp
qed

lemma int_sdiv_pos: "0 \<le> a \<Longrightarrow> 0 < b \<Longrightarrow> a sdiv b = (a :: int) div b"
  by (cases "a = 0") (simp_all add: signed_divide_int_def)

lemma month_term:
  assumes "m \<in> {1..12}"
  shows "(int m - 14) sdiv 12 = (if m \<le> 2 then - 1 else 0)"
proof -
  have "m \<in> {1, 2, 3, 4, 5, 6, 7, 8, 9, 10, 11, 12}"
    using assms unfolding insert_iff atLeastAtMost_iff empty_iff by presburger
  then show ?thesis by (auto simp: signed_divide_int_def)
qed

lemma get_jdn_split:
  assumes "m \<in> {1..12}"
  shows "get_jdn d (int m) (int y) =
    (if m \<le> 2 then jdn_year (int y - 1) + (367 * (int m + 10)) div 12
     else jdn_year (int y) + (367 * (int m - 2)) div 12) + d - 32075"
  using assms by (simp add: get_jdn_def month_term [OF assms] int_sdiv_pos jdn_year_def algebra_simps)

lemma get_jdn_month:
  assumes "m \<in> {1..11}"
  shows "get_jdn d (int (Suc m)) (int y) = get_jdn d (int m) (int y) + month_days (int y) m"
proof -
  have "m \<in> {1, 2, 3, 4, 5, 6, 7, 8, 9, 10, 11}"
    using assms unfolding insert_iff atLeastAtMost_iff empty_iff by presburger
  then show ?thesis
    using assms jdn_year_step [of "int y"]
    by (subst (1 2) get_jdn_split) (auto simp: month_days_def)
qed

lemma get_jdn_year: "get_jdn d 1 (int (Suc y)) = get_jdn d 1 (int y) + year_days (int y)"
  using get_jdn_split [of 1 d y] get_jdn_split [of 1 d "Suc y"] jdn_year_step [of "int y"]
  by (simp add: year_days)

lemma get_jdn_day_number:
  assumes "m \<in> {1..12}" "1 \<le> y"
  shows "get_jdn d (int m) (int y) = day_number d m y + 1721425"
proof -
  have j: "get_jdn d 1 (int y) = day_number d 1 y + 1721425"
    using assms(2)
  proof (induction y rule: nat_induct_at_least)
    case base
    then show ?case by (simp add: day_number_def get_jdn_def signed_divide_int_def)
  next
    case (Suc y)
    then show ?case using get_jdn_year [of d y] by (simp add: day_number_def)
  qed
  have "1 \<le> m" using assms(1) by simp
  then show ?thesis using assms(1)
  proof (induction m rule: nat_induct_at_least)
    case base
    then show ?case using j by simp
  next
    case (Suc m)
    then show ?case using get_jdn_month [of m d y] by (simp add: day_number_def)
  qed
qed

text \<open>Nanoseconds since 1970, with the low 16 bits of the nanosecond field.\<close>

definition unix_ns :: "EFI_TIME \<Rightarrow> int" where
  "unix_ns t =
     ((day_number (uint (Day t)) (unat (Month t)) (unat (Year t)) - day_number 1 1 1970) * 86400
      + uint (Hour t) * 3600 + uint (Minute t) * 60 + uint (Second t)) * 1000000000
     + uint (Nanosecond t) mod 65536"

definition valid_date :: "EFI_TIME \<Rightarrow> bool" where
  "valid_date t \<longleftrightarrow> 1 \<le> Month t \<and> Month t \<le> 12 \<and> 1 \<le> Year t"

lemma time_epoch_unix_ns:
  assumes "valid_date t"
  shows "time_epoch t = word_of_int (unix_ns t)"
proof -
  have "unat (Month t) \<in> {1..12}" "1 \<le> unat (Year t)"
    using assms by (auto simp: valid_date_def word_le_nat_alt)
  then have "get_jdn (uint (Day t)) (uint (Month t)) (uint (Year t)) =
      day_number (uint (Day t)) (unat (Month t)) (unat (Year t)) + 1721425"
    "get_jdn 1 1 1970 = day_number 1 1 1970 + 1721425"
    using get_jdn_day_number [of "unat (Month t)" "unat (Year t)" "uint (Day t)"] get_jdn_day_number [of 1 1970 1]
    by simp_all
  moreover have "(ucast (ucast (Nanosecond t) :: u16) :: u64) = word_of_int (uint (Nanosecond t) mod 65536)"
  proof -
    have "(ucast w :: u64) = word_of_int (uint w)" for w :: u16 by simp
    moreover have "uint (ucast (Nanosecond t) :: u16) = uint (Nanosecond t) mod 65536"
      by (simp add: unsigned_ucast_eq take_bit_eq_mod)
    ultimately show ?thesis by metis
  qed
  ultimately show ?thesis
    by (simp add: time_epoch_def get_unix_epoch_def unix_ns_def NS_PER_S_def Let_def)
qed

end
