(* ===== verification/Acpi.thy ===== *)
theory Acpi
  imports Unlock_Region Libc Calendar
begin

text \<open>
  The ACPI part of CSMWrap, \<^verbatim>\<open>src/acpi.c\<close>: the functions that the uACPI library calls for hardware
  access, time and memory, and the search for the root pointer (RSDP) that is copied into the CSM image.

  UEFI services and the entry points of uACPI are parameters, functions on the state of firmware and
  devices.  Handles are addresses of pool memory, which the functions read and write in the flat memory.
\<close>

section \<open>Services\<close>

datatype uacpi_status =
  UACPI_STATUS_OK | UACPI_STATUS_OUT_OF_MEMORY | UACPI_STATUS_NOT_FOUND | UACPI_STATUS_INVALID_ARGUMENT
| UACPI_STATUS_UNIMPLEMENTED | UACPI_STATUS_OTHER u32

record 'd acpi_services =
  AllocatePool :: "nat \<Rightarrow> 'd \<Rightarrow> (EFI_STATUS \<times> nat) \<times> 'd"
  FreePool :: "nat \<Rightarrow> 'd \<Rightarrow> 'd"
  GetTime :: "'d \<Rightarrow> (EFI_STATUS \<times> EFI_TIME) \<times> 'd"
  bs_Stall :: "u64 \<Rightarrow> 'd \<Rightarrow> 'd"
  uacpi_setup_early_table_access :: "nat \<Rightarrow> nat \<Rightarrow> 'd \<Rightarrow> uacpi_status \<times> 'd"
  uacpi_initialize :: "'d \<Rightarrow> uacpi_status \<times> 'd"
  uacpi_namespace_load :: "'d \<Rightarrow> uacpi_status \<times> 'd"
  uacpi_namespace_initialize :: "'d \<Rightarrow> uacpi_status \<times> 'd"
  uacpi_state_reset :: "'d \<Rightarrow> 'd"

section \<open>The kernel interface of uACPI\<close>

datatype uacpi_log_level =
  UACPI_LOG_DEBUG | UACPI_LOG_TRACE | UACPI_LOG_INFO | UACPI_LOG_WARN | UACPI_LOG_ERROR

fun uacpi_log_level_to_string :: "uacpi_log_level \<Rightarrow> string" where
  "uacpi_log_level_to_string UACPI_LOG_DEBUG = ''DEBUG''"
| "uacpi_log_level_to_string UACPI_LOG_TRACE = ''TRACE''"
| "uacpi_log_level_to_string UACPI_LOG_INFO = ''INFO''"
| "uacpi_log_level_to_string UACPI_LOG_WARN = ''WARN''"
| "uacpi_log_level_to_string UACPI_LOG_ERROR = ''ERROR''"

text \<open>The text a log call prints.\<close>

definition uacpi_kernel_log :: "uacpi_log_level \<Rightarrow> string \<Rightarrow> string" where
  "uacpi_kernel_log lvl txt = ''[uACPI]['' @ uacpi_log_level_to_string lvl @ ''] '' @ txt"

definition uacpi_kernel_map :: "u64 \<Rightarrow> u64 \<Rightarrow> u64" where
  "uacpi_kernel_map addr len = addr"

definition uacpi_kernel_alloc :: "'d acpi_services \<Rightarrow> nat \<Rightarrow> 'd \<Rightarrow> nat \<times> 'd" where
  "uacpi_kernel_alloc S sz d =
     (let ((status, p), d) = AllocatePool S sz d in if status \<noteq> EFI_SUCCESS then (0, d) else (p, d))"

definition uacpi_kernel_free :: "'d acpi_services \<Rightarrow> nat \<Rightarrow> 'd \<Rightarrow> 'd" where
  "uacpi_kernel_free S p d = (if p \<noteq> 0 then FreePool S p d else d)"

text \<open>\<^verbatim>\<open>uacpi_kernel_create_spinlock\<close>, \<^verbatim>\<open>uacpi_kernel_create_event\<close> and \<^verbatim>\<open>uacpi_kernel_create_mutex\<close>.\<close>

definition uacpi_kernel_create_spinlock :: "'d acpi_services \<Rightarrow> 'd \<Rightarrow> nat \<times> 'd" where
  "uacpi_kernel_create_spinlock S d =
     (let ((status, p), d) = AllocatePool S 1 d in if status \<noteq> EFI_SUCCESS then (0, d) else (p, d))"

definition uacpi_kernel_free_spinlock :: "'d acpi_services \<Rightarrow> nat \<Rightarrow> 'd \<Rightarrow> 'd" where
  "uacpi_kernel_free_spinlock S handle d = FreePool S handle d"

definition uacpi_kernel_create_event :: "'d acpi_services \<Rightarrow> 'd \<Rightarrow> nat \<times> 'd" where
  "uacpi_kernel_create_event S d =
     (let ((status, p), d) = AllocatePool S 1 d in if status \<noteq> EFI_SUCCESS then (0, d) else (p, d))"

definition uacpi_kernel_free_event :: "'d acpi_services \<Rightarrow> nat \<Rightarrow> 'd \<Rightarrow> 'd" where
  "uacpi_kernel_free_event S handle d = FreePool S handle d"

definition uacpi_kernel_create_mutex :: "'d acpi_services \<Rightarrow> 'd \<Rightarrow> nat \<times> 'd" where
  "uacpi_kernel_create_mutex S d =
     (let ((status, p), d) = AllocatePool S 1 d in if status \<noteq> EFI_SUCCESS then (0, d) else (p, d))"

definition uacpi_kernel_free_mutex :: "'d acpi_services \<Rightarrow> nat \<Rightarrow> 'd \<Rightarrow> 'd" where
  "uacpi_kernel_free_mutex S handle d = FreePool S handle d"

definition uacpi_kernel_wait_for_event :: "nat \<Rightarrow> u16 \<Rightarrow> bool" where
  "uacpi_kernel_wait_for_event handle timeout = True"

definition uacpi_kernel_acquire_mutex :: "nat \<Rightarrow> u16 \<Rightarrow> uacpi_status" where
  "uacpi_kernel_acquire_mutex handle timeout = UACPI_STATUS_OK"

definition uacpi_kernel_stall :: "'d acpi_services \<Rightarrow> u8 \<Rightarrow> 'd \<Rightarrow> 'd" where
  "uacpi_kernel_stall S usec d = bs_Stall S (ucast usec) d"

definition uacpi_kernel_sleep :: "'d acpi_services \<Rightarrow> u64 \<Rightarrow> 'd \<Rightarrow> 'd" where
  "uacpi_kernel_sleep S msec d = bs_Stall S (msec * 1000) d"

definition uacpi_kernel_get_nanoseconds_since_boot :: "'d acpi_services \<Rightarrow> EFI_TIME \<Rightarrow> 'd \<Rightarrow> u64 \<times> 'd" where
  "uacpi_kernel_get_nanoseconds_since_boot S gTimeAtBoot d =
     (let ((status, time), d) = GetTime S d in
      if status \<noteq> EFI_SUCCESS then (0, d)
      else (time_epoch time - time_epoch gTimeAtBoot, d))"

subsection \<open>PCI configuration space\<close>

text \<open>\<^verbatim>\<open>uacpi_pci_address\<close>: segment, bus, device and function, and a byte of padding.\<close>

definition sizeof_uacpi_pci_address :: nat where "sizeof_uacpi_pci_address = 6"

record uacpi_pci_address =
  pa_segment :: u16
  pa_bus :: u8
  pa_device :: u8
  pa_function :: u8
  pa_pad :: u8

definition pci_address_bytes :: "uacpi_pci_address \<Rightarrow> u8 list" where
  "pci_address_bytes a = le_bytes 2 (pa_segment a) @ [pa_bus a, pa_device a, pa_function a, pa_pad a]"

definition uacpi_kernel_pci_device_open ::
  "'d acpi_services \<Rightarrow> uacpi_pci_address \<Rightarrow> mem \<Rightarrow> 'd \<Rightarrow> (uacpi_status + nat) \<times> mem \<times> 'd" where
  "uacpi_kernel_pci_device_open S address m d =
     (let ((status, handle), d) = AllocatePool S sizeof_uacpi_pci_address d in
      if status \<noteq> EFI_SUCCESS then (Inl UACPI_STATUS_OUT_OF_MEMORY, m, d)
      else (Inr handle, store_bytes handle (pci_address_bytes address) m, d))"

definition uacpi_kernel_pci_device_close :: "'d acpi_services \<Rightarrow> nat \<Rightarrow> 'd \<Rightarrow> 'd" where
  "uacpi_kernel_pci_device_close S handle d = FreePool S handle d"

text \<open>The bus, the device and the function at a handle.\<close>

definition pa_bdf :: "mem \<Rightarrow> nat \<Rightarrow> u32 \<times> u32 \<times> u32" where
  "pa_bdf m p = (ucast (m (p + 2)), ucast (m (p + 3)), ucast (m (p + 4)))"

definition uacpi_kernel_pci_read8 :: "'d hw \<Rightarrow> mem \<Rightarrow> nat \<Rightarrow> u64 \<Rightarrow> ('d, uacpi_status \<times> u8) state" where
  "uacpi_kernel_pci_read8 hw m p offset = do {
     let (b, s, f) = pa_bdf m p;
     v \<leftarrow> pciConfigReadByte hw b s f (ucast offset);
     State_Monad.return (UACPI_STATUS_OK, v)
   }"

definition uacpi_kernel_pci_read16 :: "'d hw \<Rightarrow> mem \<Rightarrow> nat \<Rightarrow> u64 \<Rightarrow> ('d, uacpi_status \<times> u16) state" where
  "uacpi_kernel_pci_read16 hw m p offset = do {
     let (b, s, f) = pa_bdf m p;
     v \<leftarrow> pciConfigReadWord hw b s f (ucast offset);
     State_Monad.return (UACPI_STATUS_OK, v)
   }"

definition uacpi_kernel_pci_read32 :: "'d hw \<Rightarrow> mem \<Rightarrow> nat \<Rightarrow> u64 \<Rightarrow> ('d, uacpi_status \<times> u32) state" where
  "uacpi_kernel_pci_read32 hw m p offset = do {
     let (b, s, f) = pa_bdf m p;
     v \<leftarrow> pciConfigReadDWord hw b s f (ucast offset);
     State_Monad.return (UACPI_STATUS_OK, v)
   }"

definition uacpi_kernel_pci_write8 :: "'d hw \<Rightarrow> mem \<Rightarrow> nat \<Rightarrow> u64 \<Rightarrow> u8 \<Rightarrow> ('d, uacpi_status) state" where
  "uacpi_kernel_pci_write8 hw m p offset v = do {
     let (b, s, f) = pa_bdf m p;
     pciConfigWriteByte hw b s f (ucast offset) v;
     State_Monad.return UACPI_STATUS_OK
   }"

definition uacpi_kernel_pci_write16 :: "'d hw \<Rightarrow> mem \<Rightarrow> nat \<Rightarrow> u64 \<Rightarrow> u16 \<Rightarrow> ('d, uacpi_status) state" where
  "uacpi_kernel_pci_write16 hw m p offset v = do {
     let (b, s, f) = pa_bdf m p;
     pciConfigWriteWord hw b s f (ucast offset) v;
     State_Monad.return UACPI_STATUS_OK
   }"

definition uacpi_kernel_pci_write32 :: "'d hw \<Rightarrow> mem \<Rightarrow> nat \<Rightarrow> u64 \<Rightarrow> u32 \<Rightarrow> ('d, uacpi_status) state" where
  "uacpi_kernel_pci_write32 hw m p offset v = do {
     let (b, s, f) = pa_bdf m p;
     pciConfigWriteDWord hw b s f (ucast offset) v;
     State_Monad.return UACPI_STATUS_OK
   }"

subsection \<open>I/O ports\<close>

text \<open>
  \<^verbatim>\<open>struct mapped_io\<close> has a base and a length of 64 bits each; the memory for it is allocated with
  the size of a PCI address.
\<close>

definition sizeof_mapped_io :: nat where "sizeof_mapped_io = 16"

definition uacpi_kernel_io_map ::
  "'d acpi_services \<Rightarrow> u64 \<Rightarrow> u64 \<Rightarrow> mem \<Rightarrow> 'd \<Rightarrow> (uacpi_status + nat) \<times> mem \<times> 'd" where
  "uacpi_kernel_io_map S base len m d =
     (let ((status, handle), d) = AllocatePool S sizeof_uacpi_pci_address d in
      if status \<noteq> EFI_SUCCESS then (Inl UACPI_STATUS_OUT_OF_MEMORY, m, d)
      else let m = store64 handle base m; m = store64 (handle + 8) len m in (Inr handle, m, d))"

definition uacpi_kernel_io_unmap :: "'d acpi_services \<Rightarrow> nat \<Rightarrow> 'd \<Rightarrow> 'd" where
  "uacpi_kernel_io_unmap S handle d = FreePool S handle d"

definition uacpi_kernel_io_read8 :: "'d hw \<Rightarrow> mem \<Rightarrow> nat \<Rightarrow> u64 \<Rightarrow> ('d, uacpi_status + u8) state" where
  "uacpi_kernel_io_read8 hw m handle offset =
     (if offset \<ge> load64 m (handle + 8) then State_Monad.return (Inl UACPI_STATUS_INVALID_ARGUMENT)
      else do { v \<leftarrow> inb hw (ucast (load64 m handle + offset)); State_Monad.return (Inr v) })"

definition uacpi_kernel_io_read16 :: "'d hw \<Rightarrow> mem \<Rightarrow> nat \<Rightarrow> u64 \<Rightarrow> ('d, uacpi_status + u16) state" where
  "uacpi_kernel_io_read16 hw m handle offset =
     (if offset \<ge> load64 m (handle + 8) then State_Monad.return (Inl UACPI_STATUS_INVALID_ARGUMENT)
      else do { v \<leftarrow> inw hw (ucast (load64 m handle + offset)); State_Monad.return (Inr v) })"

definition uacpi_kernel_io_read32 :: "'d hw \<Rightarrow> mem \<Rightarrow> nat \<Rightarrow> u64 \<Rightarrow> ('d, uacpi_status + u32) state" where
  "uacpi_kernel_io_read32 hw m handle offset =
     (if offset \<ge> load64 m (handle + 8) then State_Monad.return (Inl UACPI_STATUS_INVALID_ARGUMENT)
      else do { v \<leftarrow> inl hw (ucast (load64 m handle + offset)); State_Monad.return (Inr v) })"

definition uacpi_kernel_io_write8 :: "'d hw \<Rightarrow> mem \<Rightarrow> nat \<Rightarrow> u64 \<Rightarrow> u8 \<Rightarrow> ('d, uacpi_status) state" where
  "uacpi_kernel_io_write8 hw m handle offset v =
     (if offset \<ge> load64 m (handle + 8) then State_Monad.return UACPI_STATUS_INVALID_ARGUMENT
      else do { outb hw (ucast (load64 m handle + offset)) v; State_Monad.return UACPI_STATUS_OK })"

definition uacpi_kernel_io_write16 :: "'d hw \<Rightarrow> mem \<Rightarrow> nat \<Rightarrow> u64 \<Rightarrow> u16 \<Rightarrow> ('d, uacpi_status) state" where
  "uacpi_kernel_io_write16 hw m handle offset v =
     (if offset \<ge> load64 m (handle + 8) then State_Monad.return UACPI_STATUS_INVALID_ARGUMENT
      else do { outw hw (ucast (load64 m handle + offset)) v; State_Monad.return UACPI_STATUS_OK })"

definition uacpi_kernel_io_write32 :: "'d hw \<Rightarrow> mem \<Rightarrow> nat \<Rightarrow> u64 \<Rightarrow> u32 \<Rightarrow> ('d, uacpi_status) state" where
  "uacpi_kernel_io_write32 hw m handle offset v =
     (if offset \<ge> load64 m (handle + 8) then State_Monad.return UACPI_STATUS_INVALID_ARGUMENT
      else do { outl hw (ucast (load64 m handle + offset)) v; State_Monad.return UACPI_STATUS_OK })"

section \<open>Initialisation\<close>

text \<open>The configuration tables of UEFI, and the comparison of their GUIDs as blocks of memory.\<close>

record config_table =
  VendorGuid :: "u8 list"
  VendorTable :: nat

definition guid :: "u32 \<Rightarrow> u16 \<Rightarrow> u16 \<Rightarrow> u8 list \<Rightarrow> u8 list" where
  "guid a b c e = le_bytes 4 a @ le_bytes 2 b @ le_bytes 2 c @ e"

definition ACPI_TABLE_GUID :: "u8 list" where
  "ACPI_TABLE_GUID = guid 0xEB9D2D30 0x2D88 0x11D3 [0x9A, 0x16, 0, 0x90, 0x27, 0x3F, 0xC1, 0x4D]"

definition ACPI_20_TABLE_GUID :: "u8 list" where
  "ACPI_20_TABLE_GUID = guid 0x8868E871 0xE4F1 0x11D3 [0xBC, 0x22, 0, 0x80, 0xC7, 0x3C, 0x88, 0x81]"

definition efi_guidcmp :: "u8 list \<Rightarrow> u8 list \<Rightarrow> int" where
  "efi_guidcmp l r = bytes_compare l r"

definition find_config_table :: "config_table list \<Rightarrow> u8 list \<Rightarrow> config_table option" where
  "find_config_table ts g = find (\<lambda>t. efi_guidcmp (VendorGuid t) g = 0) ts"

definition sizeof_RSDP_2_0 :: nat where "sizeof_RSDP_2_0 = 36"
definition sizeof_RSDP_1_0 :: nat where "sizeof_RSDP_1_0 = 20"

record acpi =
  g_rsdp :: nat
  early_table_buffer :: nat
  fully_initialized :: bool

text \<open>The search for the RSDP, which copies it to \<open>target\<close> in the CSM image.\<close>

definition acpi_find_rsdp :: "config_table list \<Rightarrow> nat \<Rightarrow> mem \<Rightarrow> acpi \<Rightarrow> mem \<times> acpi" where
  "acpi_find_rsdp ts target m a =
     (let (m, a) = (case find_config_table ts ACPI_20_TABLE_GUID of
            None \<Rightarrow> (m, a)
          | Some t \<Rightarrow> (fst (libc_memcpy target (VendorTable t) sizeof_RSDP_2_0 m), a\<lparr>g_rsdp := VendorTable t\<rparr>))
      in if g_rsdp a = 0 then
           case find_config_table ts ACPI_TABLE_GUID of
             None \<Rightarrow> (m, a)
           | Some t \<Rightarrow> (fst (libc_memcpy target (VendorTable t) sizeof_RSDP_1_0 m), a\<lparr>g_rsdp := VendorTable t\<rparr>)
         else (m, a))"

definition acpi_init ::
  "'d acpi_services \<Rightarrow> config_table list \<Rightarrow> nat \<Rightarrow> mem \<Rightarrow> acpi \<Rightarrow> 'd \<Rightarrow> bool \<times> mem \<times> acpi \<times> 'd" where
  "acpi_init S ts target m a d =
     (let (m, a) = acpi_find_rsdp ts target m a in
      if g_rsdp a \<noteq> 0 then
        let ((status, p), d) = AllocatePool S 4096 d in
        if status \<noteq> EFI_SUCCESS then (False, m, a, d)
        else
          let a = a\<lparr>early_table_buffer := p\<rparr>;
              (ustatus, d) = uacpi_setup_early_table_access S p 4096 d
          in if ustatus \<noteq> UACPI_STATUS_OK then (False, m, a, d) else (True, m, a, d)
      else (False, m, a, d))"

definition uacpi_kernel_get_rsdp :: "acpi \<Rightarrow> uacpi_status + nat" where
  "uacpi_kernel_get_rsdp a = (if g_rsdp a = 0 then Inl UACPI_STATUS_NOT_FOUND else Inr (g_rsdp a))"

definition free_early_table :: "'d acpi_services \<Rightarrow> acpi \<Rightarrow> 'd \<Rightarrow> acpi \<times> 'd" where
  "free_early_table S a d =
     (if early_table_buffer a \<noteq> 0
      then (a\<lparr>early_table_buffer := 0\<rparr>, FreePool S (early_table_buffer a) d) else (a, d))"

definition acpi_full_init :: "'d acpi_services \<Rightarrow> acpi \<Rightarrow> 'd \<Rightarrow> bool \<times> acpi \<times> 'd" where
  "acpi_full_init S a d =
     (let (status, d) = uacpi_initialize S d in
      if status \<noteq> UACPI_STATUS_OK then (False, a, d)
      else let (status, d) = uacpi_namespace_load S d in
        if status \<noteq> UACPI_STATUS_OK then (False, a, d)
        else let (status, d) = uacpi_namespace_initialize S d in
          if status \<noteq> UACPI_STATUS_OK then (False, a, d)
          else let (a, d) = free_early_table S a d in (True, a\<lparr>fully_initialized := True\<rparr>, d))"

definition acpi_prepare_exitbs :: "'d acpi_services \<Rightarrow> acpi \<Rightarrow> 'd \<Rightarrow> acpi \<times> 'd" where
  "acpi_prepare_exitbs S a d =
     (let d = (if fully_initialized a then uacpi_state_reset S d else d) in free_early_table S a d)"

section \<open>Properties\<close>

text \<open>
  C25.  The time since boot is the difference of two exact calendar times in nanoseconds since 1970,
  modulo the width of the result, where of the nanosecond field only the low 16 bits count; a failing clock gives 0.
\<close>

theorem nanoseconds_since_boot_correct:
  assumes "valid_date t0" "GetTime S d = ((status, t), d')" "status = EFI_SUCCESS \<longrightarrow> valid_date t"
  shows "uacpi_kernel_get_nanoseconds_since_boot S t0 d =
    (if status = EFI_SUCCESS then word_of_int (unix_ns t - unix_ns t0) else 0, d')"
  using assms time_epoch_unix_ns [of t] time_epoch_unix_ns [of t0]
  by (simp add: uacpi_kernel_get_nanoseconds_since_boot_def)

text \<open>A firmware without memory whose clock shows one time.\<close>

definition clock_services :: "EFI_TIME \<Rightarrow> unit acpi_services" where
  "clock_services t = \<lparr>AllocatePool = (\<lambda>_ d. ((0x8000000000000009, 0), d)), FreePool = (\<lambda>_ d. d),
     GetTime = (\<lambda>d. ((0, t), d)), bs_Stall = (\<lambda>_ d. d),
     uacpi_setup_early_table_access = (\<lambda>_ _ d. (UACPI_STATUS_OK, d)), uacpi_initialize = (\<lambda>d. (UACPI_STATUS_OK, d)),
     uacpi_namespace_load = (\<lambda>d. (UACPI_STATUS_OK, d)), uacpi_namespace_initialize = (\<lambda>d. (UACPI_STATUS_OK, d)),
     uacpi_state_reset = (\<lambda>d. d)\<rparr>"

definition boot_time_example :: EFI_TIME where
  "boot_time_example = \<lparr>Year = 2024, Month = 2, Day = 28, Hour = 23, Minute = 59, Second = 59, Nanosecond = 65535\<rparr>"

theorem nanoseconds_since_boot_correct_witness:
  "fst (uacpi_kernel_get_nanoseconds_since_boot
     (clock_services (boot_time_example\<lparr>Month := 3, Day := 1, Hour := 0, Minute := 0, Second := 0\<rparr>)) boot_time_example ()) =
   86401000000000"
proof -
  let ?t = "boot_time_example\<lparr>Month := 3, Day := 1, Hour := 0, Minute := 0, Second := 0\<rparr>"
  have "valid_date boot_time_example" "valid_date ?t" by (simp_all add: valid_date_def boot_time_example_def)
  moreover have "unix_ns ?t - unix_ns boot_time_example = 86401000000000"
  proof -
    have m: "day_number d 3 2024 = day_number 0 1 2024 + 60 + d" "day_number d 2 2024 = day_number 0 1 2024 + 31 + d" for d
      by (simp_all add: day_number_def month_days_def leap_year_def numeral_2_eq_2 numeral_3_eq_3 del: upt_conv_Cons)
    have u: "uint (Day ?t) = 1" "unat (Month ?t) = 3" "unat (Year ?t) = 2024" "uint (Hour ?t) = 0" "uint (Minute ?t) = 0"
      "uint (Second ?t) = 0" "uint (Nanosecond ?t) = 65535" "uint (Day boot_time_example) = 28"
      "unat (Month boot_time_example) = 2" "unat (Year boot_time_example) = 2024" "uint (Hour boot_time_example) = 23"
      "uint (Minute boot_time_example) = 59" "uint (Second boot_time_example) = 59" "uint (Nanosecond boot_time_example) = 65535"
      by (simp_all add: boot_time_example_def)
    show ?thesis unfolding unix_ns_def u m by simp
  qed
  ultimately show ?thesis
    using nanoseconds_since_boot_correct [of boot_time_example "clock_services ?t" "()" 0 ?t "()"]
    by (simp add: clock_services_def EFI_SUCCESS_def)
qed

text \<open>One nanosecond later the clock is 65535 nanoseconds behind.\<close>

lemma clock_runs_backwards:
  "fst (uacpi_kernel_get_nanoseconds_since_boot
     (clock_services (boot_time_example\<lparr>Nanosecond := 65536\<rparr>)) boot_time_example ()) = - 65535"
  by (simp add: uacpi_kernel_get_nanoseconds_since_boot_def clock_services_def EFI_SUCCESS_def time_epoch_def
      get_unix_epoch_def boot_time_example_def Let_def)

lemma find_config_table_guid:
  assumes "list_all (\<lambda>t. length (VendorGuid t) = 16) ts" "length g = 16"
  shows "find_config_table ts g = find (\<lambda>t. VendorGuid t = g) ts"
  using assms
  by (induction ts) (auto simp: find_config_table_def efi_guidcmp_def bytes_compare_eq)

lemma length_guids [simp]: "length ACPI_TABLE_GUID = 16" "length ACPI_20_TABLE_GUID = 16"
  by (simp_all add: ACPI_TABLE_GUID_def ACPI_20_TABLE_GUID_def guid_def)

text \<open>The table whose content is wanted, with the number of bytes: an ACPI 2.0 pointer, else a 1.0 pointer.\<close>

definition wanted_rsdp :: "config_table list \<Rightarrow> (nat \<times> nat) option" where
  "wanted_rsdp ts =
     (case find (\<lambda>t. VendorGuid t = ACPI_20_TABLE_GUID) ts of
        Some t \<Rightarrow> Some (VendorTable t, 36)
      | None \<Rightarrow> map_option (\<lambda>t. (VendorTable t, 20)) (find (\<lambda>t. VendorGuid t = ACPI_TABLE_GUID) ts))"

lemma acpi_find_rsdp_wanted:
  assumes "list_all (\<lambda>t. length (VendorGuid t) = 16 \<and> VendorTable t \<noteq> 0 \<and>
      (target + 36 \<le> VendorTable t \<or> VendorTable t + 36 \<le> target)) ts" "g_rsdp a = 0"
  shows "acpi_find_rsdp ts target m a =
    (case wanted_rsdp ts of None \<Rightarrow> (m, a) | Some (p, n) \<Rightarrow> (block_copy target p n m, a\<lparr>g_rsdp := p\<rparr>))"
proof -
  have l: "list_all (\<lambda>t. length (VendorGuid t) = 16) ts" using assms(1) by (auto simp: list_all_iff)
  have t: "VendorTable t \<noteq> 0" "target + 36 \<le> VendorTable t \<or> VendorTable t + 36 \<le> target"
    if "find P ts = Some t" for P t
    using that assms(1) by (auto simp: find_Some_iff list_all_iff)
  have c: "fst (libc_memcpy target (VendorTable t) n m) = block_copy target (VendorTable t) n m"
    if "find P ts = Some t" "n \<le> 36" for P t n
    using copy_up [of target "VendorTable t" n m] t(2) [OF that(1)] that(2) by (auto simp: libc_memcpy_def)
  note defs = acpi_find_rsdp_def find_config_table_guid [OF l] wanted_rsdp_def sizeof_RSDP_2_0_def sizeof_RSDP_1_0_def
  show ?thesis
  proof (cases "find (\<lambda>t. VendorGuid t = ACPI_20_TABLE_GUID) ts")
    case None
    then show ?thesis using assms(2) c by (auto simp: defs split: option.splits)
  next
    case (Some t')
    then show ?thesis using c [OF Some] t(1) [OF Some] by (simp add: defs)
  qed
qed

text \<open>
  C24.  \<^verbatim>\<open>acpi_init\<close> copies the RSDP that the firmware announces, 36 bytes of an ACPI 2.0 table or else 20
  bytes of an ACPI 1.0 table, to its place in the CSM image, writes nothing else and remembers the address for uACPI.  It succeeds only with an
  RSDP, and leaving boot services gives the table buffer back.
\<close>

theorem acpi_init_correct:
  assumes "list_all (\<lambda>t. length (VendorGuid t) = 16 \<and> VendorTable t \<noteq> 0 \<and>
      (target + 36 \<le> VendorTable t \<or> VendorTable t + 36 \<le> target)) ts"
    and "g_rsdp a = 0" "acpi_init S ts target m a d = (ok, m', a', d')"
  shows "(case wanted_rsdp ts of
       None \<Rightarrow> m' = m \<and> \<not> ok \<and> uacpi_kernel_get_rsdp a' = Inl UACPI_STATUS_NOT_FOUND
     | Some (p, n) \<Rightarrow> m' = block_copy target p n m \<and> uacpi_kernel_get_rsdp a' = Inr p) \<and>
    early_table_buffer (fst (acpi_prepare_exitbs S a' d')) = 0"
proof -
  have p: "p \<noteq> 0" if "wanted_rsdp ts = Some (p, n)" for p n
    using that assms(1) by (auto simp: wanted_rsdp_def find_Some_iff list_all_iff split: option.splits)
  have "early_table_buffer (fst (acpi_prepare_exitbs S a' d')) = 0"
    by (simp add: acpi_prepare_exitbs_def free_early_table_def Let_def)
  then show ?thesis
    using assms(2,3) p acpi_find_rsdp_wanted [OF assms(1,2), of m]
    by (auto simp: acpi_init_def uacpi_kernel_get_rsdp_def Let_def split: option.splits prod.splits if_splits)
qed

definition rsdp_table_example :: "config_table list" where
  "rsdp_table_example = [\<lparr>VendorGuid = ACPI_TABLE_GUID, VendorTable = 0x1000\<rparr>,
     \<lparr>VendorGuid = ACPI_20_TABLE_GUID, VendorTable = 0x2000\<rparr>]"

lemma rsdp_table_example_wanted: "wanted_rsdp rsdp_table_example = Some (0x2000, 36)"
  by (simp add: rsdp_table_example_def wanted_rsdp_def ACPI_TABLE_GUID_def ACPI_20_TABLE_GUID_def guid_def le_bytes_def upt_rec)

theorem acpi_init_correct_witness:
  "\<exists>m' a' ok. acpi_init (clock_services boot_time_example) rsdp_table_example 0x5000 (\<lambda>x. of_nat x)
      \<lparr>g_rsdp = 0, early_table_buffer = 0, fully_initialized = False\<rparr> () = (ok, m', a', ()) \<and>
    m' = block_copy 0x5000 0x2000 36 (\<lambda>x. of_nat x) \<and> uacpi_kernel_get_rsdp a' = Inr 0x2000"
proof -
  let ?a = "\<lparr>g_rsdp = 0, early_table_buffer = 0, fully_initialized = False\<rparr>"
  obtain ok m' a' d' where i: "acpi_init (clock_services boot_time_example) rsdp_table_example 0x5000 (\<lambda>x. of_nat x) ?a () = (ok, m', a', d')"
    by (metis prod.exhaust)
  have "list_all (\<lambda>t. length (VendorGuid t) = 16 \<and> VendorTable t \<noteq> 0 \<and>
      (0x5000 + 36 \<le> VendorTable t \<or> VendorTable t + 36 \<le> 0x5000)) rsdp_table_example"
    by (simp add: rsdp_table_example_def)
  from acpi_init_correct [OF this _ i] i show ?thesis by (simp add: rsdp_table_example_wanted)
qed

text \<open>
  Mapping ports and accessing them: an offset beyond the length is refused without touching the
  device, any other reaches the port at base and offset.  Accesses of two and four bytes are
  checked by their first byte only.
\<close>

lemma uacpi_io_checked:
  assumes "uacpi_kernel_io_map S base len m d = (Inr handle, m', d')"
  shows "run_state (uacpi_kernel_io_read8 hw m' handle off) e =
      (if off < len then map_prod Inr id (run_state (inb hw (ucast (base + off))) e) else (Inl UACPI_STATUS_INVALID_ARGUMENT, e))"
    "run_state (uacpi_kernel_io_read32 hw m' handle off) e =
      (if off < len then map_prod Inr id (run_state (inl hw (ucast (base + off))) e) else (Inl UACPI_STATUS_INVALID_ARGUMENT, e))"
    "run_state (uacpi_kernel_io_write8 hw m' handle off v) e =
      (if off < len then (UACPI_STATUS_OK, snd (run_state (outb hw (ucast (base + off)) v) e)) else (UACPI_STATUS_INVALID_ARGUMENT, e))"
proof -
  have "load64 m' handle = base" "load64 m' (handle + 8) = len"
    using assms
    by (auto simp: uacpi_kernel_io_map_def Let_def load64_store64 load64_def store64_def load_store_disjoint
        of_le_le_bytes load_store_same split: prod.splits if_splits)
  then show "run_state (uacpi_kernel_io_read8 hw m' handle off) e =
      (if off < len then map_prod Inr id (run_state (inb hw (ucast (base + off))) e) else (Inl UACPI_STATUS_INVALID_ARGUMENT, e))"
    "run_state (uacpi_kernel_io_read32 hw m' handle off) e =
      (if off < len then map_prod Inr id (run_state (inl hw (ucast (base + off))) e) else (Inl UACPI_STATUS_INVALID_ARGUMENT, e))"
    "run_state (uacpi_kernel_io_write8 hw m' handle off v) e =
      (if off < len then (UACPI_STATUS_OK, snd (run_state (outb hw (ucast (base + off)) v) e)) else (UACPI_STATUS_INVALID_ARGUMENT, e))"
    by (auto simp: uacpi_kernel_io_read8_def uacpi_kernel_io_read32_def uacpi_kernel_io_write8_def outb_def split: prod.splits)
qed

end
