(* ===== verification/Workarounds.thy ===== *)
theory Workarounds
  imports Pci_Io
begin

text \<open>
  The Intel platform workaround, \<^verbatim>\<open>src/intel_workarounds.c\<close>: finding the P2SB bridge, unhiding it
  if it is hidden, turning off clock gating of the 8254 timer, and testing that the timer counts.
  The UEFI service \<^verbatim>\<open>Stall\<close> is a parameter.
\<close>

definition R_P2SB_CFG_P2SBC :: u32 where "R_P2SB_CFG_P2SBC = 0xE0"
definition B_P2SB_CFG_P2SBC_HIDE :: u32 where "B_P2SB_CFG_P2SBC_HIDE = push_bit 8 1"
definition B_PCH_PCR_ITSS_ITSSPRC_8254CGE :: u32 where "B_PCH_PCR_ITSS_ITSSPRC_8254CGE = push_bit 2 1"
definition R_PCH_PCR_ITSS_ITSSPRC :: u32 where "R_PCH_PCR_ITSS_ITSSPRC = 0x3300"
definition PID_ITSS :: u8 where "PID_ITSS = 0xC4"
definition SBREG_BAR :: u32 where "SBREG_BAR = 0x10"
definition SBREG_BARH :: u32 where "SBREG_BARH = 0x14"

definition PCH_PCR_ADDRESS :: "u64 \<Rightarrow> u8 \<Rightarrow> u32 \<Rightarrow> u64" where
  "PCH_PCR_ADDRESS base pid offset =
     base OR ucast (push_bit 8 (offset AND 0x0F0000)) OR push_bit 16 (ucast pid)
       OR ucast (offset AND 0xFFFF)"

definition PORT_PIT_COUNTER0 :: u16 where "PORT_PIT_COUNTER0 = 0x40"
definition PORT_PIT_MODE :: u16 where "PORT_PIT_MODE = 0x43"
definition PM_READ_BACK_0 :: u8 where "PM_READ_BACK_0 = push_bit 6 3 OR push_bit 4 1 OR push_bit 1 1"

abbreviation p2sb_read :: "'d hw \<Rightarrow> u32 \<Rightarrow> ('d, u32) state" where
  "p2sb_read hw off \<equiv> pciConfigReadDWord hw 0 31 1 off"

abbreviation p2sb_write :: "'d hw \<Rightarrow> u32 \<Rightarrow> u32 \<Rightarrow> ('d, unit) state" where
  "p2sb_write hw off v \<equiv> pciConfigWriteDWord hw 0 31 1 off v"

text \<open>Clearing the clock gating bit, between the vendor check and the label \<^verbatim>\<open>test_pit\<close>.\<close>

definition disable_8254cge :: "'d hw \<Rightarrow> bool \<Rightarrow> ('d, unit) state" where
  "disable_8254cge hw p2sb_hide = do {
     reg \<leftarrow> p2sb_read hw SBREG_BAR;
     let base = (ucast (reg AND NOT 0x0F) :: u64);
     reg \<leftarrow> p2sb_read hw SBREG_BARH;
     let base = base OR push_bit 32 (ucast reg AND 0xFFFFFFFF);
     let addr = unat (PCH_PCR_ADDRESS base PID_ITSS R_PCH_PCR_ITSS_ITSSPRC);
     reg \<leftarrow> readl hw addr;
     writel hw addr (reg AND NOT B_PCH_PCR_ITSS_ITSSPRC_8254CGE);
     if p2sb_hide then do {
       reg \<leftarrow> p2sb_read hw R_P2SB_CFG_P2SBC;
       p2sb_write hw R_P2SB_CFG_P2SBC (reg OR B_P2SB_CFG_P2SBC_HIDE)
     }
     else State_Monad.return ()
   }"

definition read_pit :: "'d hw \<Rightarrow> ('d, u16) state" where
  "read_pit hw = do {
     outb hw PORT_PIT_MODE PM_READ_BACK_0;
     l \<leftarrow> inb hw PORT_PIT_COUNTER0;
     h \<leftarrow> inb hw PORT_PIT_COUNTER0;
     State_Monad.return (ucast l OR push_bit 8 (ucast h))
   }"

definition test_pit :: "'d hw \<Rightarrow> (nat \<Rightarrow> 'd \<Rightarrow> 'd) \<Rightarrow> ('d, int) state" where
  "test_pit hw Stall = do {
     v1 \<leftarrow> read_pit hw;
     effect (Stall 1000);
     v2 \<leftarrow> read_pit hw;
     State_Monad.return (if v1 = v2 then - 1 else 0)
   }"

definition pit_8254cge_workaround :: "'d hw \<Rightarrow> (nat \<Rightarrow> 'd \<Rightarrow> 'd) \<Rightarrow> ('d, int) state" where
  "pit_8254cge_workaround hw Stall = do {
     reg \<leftarrow> p2sb_read hw 0;
     p2sb_hide \<leftarrow> (if reg AND 0xFFFF = 0xFFFF then do {
         reg \<leftarrow> p2sb_read hw R_P2SB_CFG_P2SBC;
         p2sb_write hw R_P2SB_CFG_P2SBC (reg AND NOT B_P2SB_CFG_P2SBC_HIDE);
         State_Monad.return True
       }
       else State_Monad.return False);
     reg \<leftarrow> p2sb_read hw 0;
     (if reg AND 0xFFFF \<noteq> 0x8086 then State_Monad.return () else disable_8254cge hw p2sb_hide);
     test_pit hw Stall
   }"

definition apply_intel_platform_workarounds :: "'d hw \<Rightarrow> (nat \<Rightarrow> 'd \<Rightarrow> 'd) \<Rightarrow> ('d, int) state" where
  "apply_intel_platform_workarounds hw Stall = do {
     vendor_id \<leftarrow> pciConfigReadWord hw 0 0 0 0;
     if vendor_id \<noteq> 0x8086 then State_Monad.return 0
     else do {
       pit_8254cge_workaround hw Stall;
       State_Monad.return 0
     }
   }"

section \<open>Register contracts\<close>

text \<open>
  A 32-bit memory-mapped register at an address: loads return it, stores set it, and neither
  disturbs configuration space; port accesses do not disturb the register.
\<close>

definition mmio_register :: "'d hw \<Rightarrow> ('d \<Rightarrow> u32 \<Rightarrow> u8) \<Rightarrow> nat \<Rightarrow> ('d \<Rightarrow> u32) \<Rightarrow> bool" where
  "mmio_register hw cfg a r \<longleftrightarrow>
     (\<forall>d. fst (hw_load hw 4 a d) = ucast (r d) \<and> r (snd (hw_load hw 4 a d)) = r d \<and>
          cfg (snd (hw_load hw 4 a d)) = cfg d) \<and>
     (\<forall>v d. r (hw_store hw 4 a v d) = ucast v \<and> cfg (hw_store hw 4 a v d) = cfg d) \<and>
     (\<forall>n p d. r (snd (hw_in hw n p d)) = r d) \<and> (\<forall>n p v d. r (hw_out hw n p v d) = r d)"

lemma p2sb_read_reg:
  assumes "mmio_register hw cfg a r"
  shows "r (snd (run_state (pciConfigReadDWord hw b s f off) d)) = r d"
    "r (snd (run_state (pciConfigWriteDWord hw b s f off v) d)) = r d"
    "r (snd (run_state (inb hw p) d)) = r d" "r (snd (run_state (outb hw p w) d)) = r d"
  using assms by (simp_all add: mmio_register_def pci_access_defs)

lemma readl_reg:
  assumes "mmio_register hw cfg a r"
  shows "fst (run_state (readl hw a) d) = r d" "r (snd (run_state (readl hw a) d)) = r d"
    "cfg (snd (run_state (readl hw a) d)) = cfg d"
    "r (snd (run_state (writel hw a v) d)) = v" "cfg (snd (run_state (writel hw a v) d)) = cfg d"
  using assms by (simp_all add: mmio_register_def readl_def writel_def)

text \<open>A doubleword of the configuration space of the P2SB bridge, and where its ITSSPRC register is.\<close>

definition p2sb_dword :: "('d \<Rightarrow> u32 \<Rightarrow> u8) \<Rightarrow> 'd \<Rightarrow> u32 \<Rightarrow> u32" where
  "p2sb_dword cfg d off = of_le (map (\<lambda>i. cfg d (pci_key 0 31 1 ((off AND NOT 3) OR of_nat i))) [0..<4])"

definition itssprc_address :: "('d \<Rightarrow> u32 \<Rightarrow> u8) \<Rightarrow> 'd \<Rightarrow> nat" where
  "itssprc_address cfg d = unat (PCH_PCR_ADDRESS
     (ucast (p2sb_dword cfg d SBREG_BAR AND NOT 0x0F) OR
      push_bit 32 (ucast (p2sb_dword cfg d SBREG_BARH) AND 0xFFFFFFFF)) PID_ITSS R_PCH_PCR_ITSS_ITSSPRC)"

lemma p2sb_dword_cong: "cfg d = cfg d' \<Longrightarrow> p2sb_dword cfg d = p2sb_dword cfg d'"
  by (simp add: p2sb_dword_def fun_eq_iff)

lemma run_p2sb_read:
  assumes "mechanism1 hw latch cfg" "mmio_register hw cfg a r"
  obtains d' where "run_state (p2sb_read hw off) d = (p2sb_dword cfg d off, d')"
    "cfg d' = cfg d" "r d' = r d"
  using read_dword [OF assms(1), of 0 31 1 off d] p2sb_read_reg(1) [OF assms(2), of 0 31 1 off d]
  by (cases "run_state (p2sb_read hw off) d") (auto simp: p2sb_dword_def)

lemma disable_8254cge_effect:
  assumes "mechanism1 hw latch cfg" "mmio_register hw cfg (itssprc_address cfg d) r"
  shows "r (snd (run_state (disable_8254cge hw False) d)) = r d AND NOT B_PCH_PCR_ITSS_ITSSPRC_8254CGE \<and>
    cfg (snd (run_state (disable_8254cge hw False) d)) = cfg d"
proof -
  note rd = run_p2sb_read [OF assms]
  obtain d1 where d1: "run_state (p2sb_read hw SBREG_BAR) d = (p2sb_dword cfg d SBREG_BAR, d1)"
    "cfg d1 = cfg d" "r d1 = r d" by (rule rd)
  obtain d2 where d2: "run_state (p2sb_read hw SBREG_BARH) d1 = (p2sb_dword cfg d SBREG_BARH, d2)"
    "cfg d2 = cfg d" "r d2 = r d"
    using d1 p2sb_dword_cong [of cfg d1 d] by (metis rd)
  define a where "a = itssprc_address cfg d"
  note reg = readl_reg [OF assms(2), folded a_def]
  obtain d3 where d3: "run_state (readl hw a) d2 = (r d, d3)" "r d3 = r d" "cfg d3 = cfg d"
    using reg(1-3) [of d2] d2 by (cases "run_state (readl hw a) d2") auto
  have "run_state (disable_8254cge hw False) d =
      run_state (writel hw a (r d AND NOT B_PCH_PCR_ITSS_ITSSPRC_8254CGE)) d3"
    by (simp only: disable_8254cge_def run_state_bind d1(1) d2(1) prod.case Let_def
        itssprc_address_def [symmetric] a_def [symmetric] d3(1)) (simp split: prod.splits)
  then show ?thesis using reg(4,5) d3 by simp
qed

lemma test_pit_reg:
  assumes "mmio_register hw cfg a r" "\<forall>n d. r (Stall n d) = r d"
  shows "r (snd (run_state (test_pit hw Stall) d)) = r d"
  using p2sb_read_reg(3,4) [OF assms(1)] assms(2)
  by (simp add: test_pit_def read_pit_def case_prod_beta)

section \<open>Properties\<close>

text \<open>
  C29.  With a visible P2SB bridge the workaround clears the 8254 clock gating bit of the
  ITSSPRC register and no other bit of it; the register is addressed at offset 0xC43300 of the
  bridge's 16 MiB window.
\<close>

theorem pit_workaround_clears_gating:
  assumes "mechanism1 hw latch cfg" "mmio_register hw cfg (itssprc_address cfg d) r"
    and "\<forall>n d. r (Stall n d) = r d" "p2sb_dword cfg d 0 AND 0xFFFF = 0x8086"
    and "run_state (pit_8254cge_workaround hw Stall) d = (ret, d')"
  shows "(\<forall>n. bit (r d') n \<longleftrightarrow> n \<noteq> 2 \<and> bit (r d) n) \<and>
    (\<forall>base. base AND 0xFFFFFF = 0 \<longrightarrow>
      PCH_PCR_ADDRESS base PID_ITSS R_PCH_PCR_ITSS_ITSSPRC = base + 0xC43300)"
proof -
  note rd = run_p2sb_read [OF assms(1,2)]
  obtain d1 where d1: "run_state (p2sb_read hw 0) d = (p2sb_dword cfg d 0, d1)"
    "cfg d1 = cfg d" "r d1 = r d" by (rule rd)
  obtain d2 where d2: "run_state (p2sb_read hw 0) d1 = (p2sb_dword cfg d 0, d2)"
    "cfg d2 = cfg d" "r d2 = r d"
    using d1 p2sb_dword_cong [of cfg d1 d] by (metis rd)
  have a: "itssprc_address cfg d2 = itssprc_address cfg d"
    using p2sb_dword_cong [OF d2(2)] by (simp add: itssprc_address_def)
  have "run_state (pit_8254cge_workaround hw Stall) d =
      run_state (test_pit hw Stall) (snd (run_state (disable_8254cge hw False) d2))"
    using d1(1) d2(1) assms(4) by (simp add: pit_8254cge_workaround_def case_prod_beta)
  then have "r d' = r d AND NOT B_PCH_PCR_ITSS_ITSSPRC_8254CGE"
    using assms(5) test_pit_reg [OF assms(2,3)] disable_8254cge_effect [OF assms(1), of d2 r]
      assms(2) a d2(3) by (metis snd_conv)
  then have "\<forall>n. bit (r d') n \<longleftrightarrow> n \<noteq> 2 \<and> bit (r d) n"
    unfolding B_PCH_PCR_ITSS_ITSSPRC_8254CGE_def
    by (simp only: bit_and_iff bit_not_iff bit_push_bit_iff)
      (auto simp: bit_1_iff dest: bit_imp_le_length)
  moreover have "PCH_PCR_ADDRESS base PID_ITSS R_PCH_PCR_ITSS_ITSSPRC = base + 0xC43300"
    if "base AND 0xFFFFFF = 0" for base
  proof -
    have "base AND 0xC43300 = (base AND 0xFFFFFF) AND 0xC43300" by (simp add: and.assoc)
    then have "base AND 0xC43300 = 0" using that by simp
    moreover have "PCH_PCR_ADDRESS base PID_ITSS R_PCH_PCR_ITSS_ITSSPRC = base OR 0xC43300"
      by (simp add: PCH_PCR_ADDRESS_def PID_ITSS_def R_PCH_PCR_ITSS_ITSSPRC_def or.assoc)
    ultimately show ?thesis by (simp add: disjunctive_add_eq_or)
  qed
  ultimately show ?thesis by simp
qed

lemma pc_mmio_register: "mmio_register pc_hw pc_cfg a (\<lambda>d. load32 (pc_ram d) a)"
proof -
  have "(of_le (le_bytes 4 v) :: u32) = ucast v" for v :: u64
    using le_bytes_ucast [where 'a = 32 and n = 4 and v = v]
      of_le_le_bytes [where n = 4 and w = "ucast v :: u32"] by simp
  then show ?thesis
    by (simp add: mmio_register_def pc_hw_def load32_def ucast_of_le load_store_same)
qed

definition pc_pch :: pc where
  "pc_pch = pc_example\<lparr>pc_cfg := (\<lambda>_. 0)(0xF900 := 0x86, 0xF901 := 0x80),
     pc_ram := store32 0xC43300 0x0000001F (\<lambda>_. 0)\<rparr>"

theorem pit_workaround_clears_gating_witness:
  "\<not> bit (load32 (pc_ram (snd (run_state (pit_8254cge_workaround pc_hw (\<lambda>_ d. d)) pc_pch))) 0xC43300) 2"
proof -
  have key: "pci_key 0 31 1 off = 0xF900 OR (off AND 0xFF)" for off
    by (simp add: pci_key_def or.assoc [symmetric])
  have dw: "p2sb_dword pc_cfg pc_pch off = (if off = 0 then 0x8086 else 0)"
    if "off \<in> {0, 0x10, 0x14}" for off
    using that by (auto simp: p2sb_dword_def key pc_pch_def upt_rec)
  then have a: "itssprc_address pc_cfg pc_pch = 0xC43300"
    by (simp add: itssprc_address_def SBREG_BAR_def SBREG_BARH_def PCH_PCR_ADDRESS_def PID_ITSS_def
        R_PCH_PCR_ITSS_ITSSPRC_def)
  show ?thesis
    using pit_workaround_clears_gating [OF pc_mechanism1 pc_mmio_register, of "\<lambda>_ d. d" pc_pch,
        unfolded a] dw [of 0]
    by (cases "run_state (pit_8254cge_workaround pc_hw (\<lambda>_ d. d)) pc_pch") simp
qed

end
