(* ===== verification/Csmwrap.thy ===== *)
theory Csmwrap
  imports Thunk E820 Video Acpi Workarounds
begin

text \<open>
  The main program, \<^verbatim>\<open>src/csmwrap.c\<close>: \<^verbatim>\<open>efi_main\<close> unlocks the BIOS region, locates the CSM image,
  collects ACPI, video and SMBIOS information, lays out the low memory, leaves the boot services of UEFI, builds the
  memory map, copies the ROM images into place and calls the CSM.

  UEFI services, the generated images and the 16-bit code are parameters.  The state has the state of
  firmware and devices, and the flat memory with all buffers the code works on; the firmware's
  private memory is not part of it.  \<^verbatim>\<open>efi_main\<close> is a list of phases, each of which goes on, returns a status
  to the firmware, or is stuck (a null pointer or a loop that does not end).
\<close>

section \<open>Layout\<close>

definition LOW_STUB_BASE :: nat where "LOW_STUB_BASE = 0x20000"
definition CONVEN_END :: nat where "CONVEN_END = 0x80000"
definition VGABIOS_START :: nat where "VGABIOS_START = 0xC0000"
definition VGABIOS_END :: nat where "VGABIOS_END = 0xC8000"
definition HIPMM_SIZE :: u32 where "HIPMM_SIZE = 0x400000"

text \<open>The members of the packed \<^verbatim>\<open>struct low_stub\<close>.\<close>

definition low_init_table :: nat where "low_init_table = LOW_STUB_BASE + 12416"
definition low_boot_table :: nat where "low_boot_table = LOW_STUB_BASE + 12456"
definition low_vga_oprom_table :: nat where "low_vga_oprom_table = LOW_STUB_BASE + 20901"
definition low_e820_entries :: nat where "low_e820_entries = LOW_STUB_BASE + 20916"
definition low_e820_map :: nat where "low_e820_map = LOW_STUB_BASE + 20920"
definition sizeof_low_stub :: nat where "sizeof_low_stub = 23480"

lemmas layout_defs = LOW_STUB_BASE_def CONVEN_END_def VGABIOS_START_def VGABIOS_END_def low_init_table_def
  low_boot_table_def low_vga_oprom_table_def low_e820_entries_def low_e820_map_def sizeof_low_stub_def

definition EFI_COMPATIBILITY16_TABLE_SIGNATURE :: u32 where "EFI_COMPATIBILITY16_TABLE_SIGNATURE = 0x24454649"

text \<open>Fields of \<^verbatim>\<open>EFI_COMPATIBILITY16_TABLE\<close>.\<close>

definition ct_CallSegment :: nat where "ct_CallSegment = 12"
definition ct_CallOffset :: nat where "ct_CallOffset = 14"
definition ct_AcpiRsdPtrPointer :: nat where "ct_AcpiRsdPtrPointer = 28"
definition ct_E820Pointer :: nat where "ct_E820Pointer = 34"
definition ct_E820Length :: nat where "ct_E820Length = 38"

definition EFI_SEGMENT :: "nat \<Rightarrow> u16" where
  "EFI_SEGMENT adr = ucast (drop_bit 4 (of_nat adr :: u64)) AND 0xF000"

definition EFI_OFFSET :: "nat \<Rightarrow> u16" where
  "EFI_OFFSET adr = ucast (of_nat adr :: u64) AND 0xFFFF"

definition SMBIOS_TABLE_GUID :: "u8 list" where
  "SMBIOS_TABLE_GUID = guid 0xEB9D2D31 0x2D88 0x11D3 [0x9A, 0x16, 0, 0x90, 0x27, 0x3F, 0xC1, 0x4D]"

definition SMBIOS3_TABLE_GUID :: "u8 list" where
  "SMBIOS3_TABLE_GUID = guid 0xF2FD1544 0x9794 0x4A2C [0x99, 0x2E, 0xE5, 0xBB, 0xCF, 0x20, 0xE3, 0x94]"

section \<open>Parameters and state\<close>

text \<open>What the build generates: the two binary images, the 16-bit code and the padding of a structure.\<close>

record csm_images =
  Csm16_bin :: nat
  sizeof_Csm16_bin :: nat
  img_vgabios :: vgabios_image
  img_thunk :: thunk_code
  img_asm16 :: asm16
  img_pad :: "u8 \<times> u8 \<times> u8"

text \<open>\<open>Read_vgabios n\<close> delivers at most \<open>n\<close> bytes of the file; \<open>GetMemoryMap n\<close> the map, its size, its key
  and the size of a descriptor.\<close>

record 'd firmware =
  fw_video :: "'d video_services"
  fw_acpi :: "'d acpi_services"
  fw_region :: "'d legacy_region2"
  fw_hw :: "'d hw"
  fw_stall :: "nat \<Rightarrow> 'd \<Rightarrow> 'd"
  ConfigurationTable :: "config_table list"
  SetWatchdogTimer :: "'d \<Rightarrow> 'd"
  HandleProtocol_LoadedImage :: "'d \<Rightarrow> (EFI_STATUS \<times> u64) \<times> 'd"
  HandleProtocol_FileSystem :: "u64 \<Rightarrow> 'd \<Rightarrow> EFI_STATUS \<times> 'd"
  OpenVolume :: "'d \<Rightarrow> EFI_STATUS \<times> 'd"
  Open_vgabios :: "'d \<Rightarrow> EFI_STATUS \<times> 'd"
  Read_vgabios :: "nat \<Rightarrow> 'd \<Rightarrow> (EFI_STATUS \<times> u8 list) \<times> 'd"
  Close_vgabios :: "'d \<Rightarrow> 'd"
  Close_dir :: "'d \<Rightarrow> 'd"
  RaiseTPL :: "'d \<Rightarrow> 'd"
  AllocatePages :: "nat \<Rightarrow> 'd \<Rightarrow> (EFI_STATUS \<times> u64) \<times> 'd"
  GetMemoryMap :: "nat \<Rightarrow> 'd \<Rightarrow> (EFI_STATUS \<times> u8 list \<times> nat \<times> u64 \<times> nat) \<times> 'd"
  ExitBootServices :: "u64 \<Rightarrow> 'd \<Rightarrow> EFI_STATUS \<times> 'd"
  cpu_cli :: "'d \<Rightarrow> 'd"

record 'd csmwrap =
  dev :: 'd
  mem :: mem
  video :: "'d video"
  acpi :: acpi
  gTimeAtBoot :: EFI_TIME
  csm_bin_base :: u64
  csm_efi_table :: nat
  thunk_context :: THUNK_CONTEXT

datatype 'd outcome = Stuck | Returned EFI_STATUS "'d csmwrap" | Running "'d csmwrap"

fun and_then :: "('d csmwrap \<Rightarrow> 'd outcome) \<Rightarrow> 'd outcome \<Rightarrow> 'd outcome" where
  "and_then p (Running s) = p s"
| "and_then p out = out"

section \<open>Tables\<close>

function find_table_loop :: "mem \<Rightarrow> u32 \<Rightarrow> nat \<Rightarrow> nat \<Rightarrow> nat option" where
  "find_table_loop m signature ptr lim =
     (if ptr < lim then
        if load32 m ptr = signature then Some ptr else find_table_loop m signature (ptr + 0x10) lim
      else None)"
  by pat_completeness auto
termination by (relation "measure (\<lambda>(m, signature, ptr, lim). lim - ptr)") auto

declare find_table_loop.simps [simp del]

definition find_table :: "mem \<Rightarrow> u32 \<Rightarrow> nat \<Rightarrow> nat \<Rightarrow> nat option" where
  "find_table m signature base sz = find_table_loop m signature base (base + sz)"

text \<open>
  The address is checked before it is assigned, when it is still 0, so the check always passes; the
  store keeps its low 32 bits.
\<close>

definition smbios_table_addr :: "config_table list \<Rightarrow> u64" where
  "smbios_table_addr ts =
     (let table_addr = 0;
          table_addr = (case find_config_table ts SMBIOS_TABLE_GUID of
              None \<Rightarrow> table_addr
            | Some t \<Rightarrow> if table_addr < 0x100000000 then of_nat (VendorTable t) else table_addr)
      in if table_addr = 0 then
           case find_config_table ts SMBIOS3_TABLE_GUID of
             None \<Rightarrow> table_addr
           | Some t \<Rightarrow> if table_addr < 0x100000000 then of_nat (VendorTable t) else table_addr
         else table_addr)"

definition set_smbios_table :: "config_table list \<Rightarrow> mem \<Rightarrow> int \<times> mem" where
  "set_smbios_table ts m =
     (let table_addr = smbios_table_addr ts in
      if table_addr \<noteq> 0 then (0, store32 (low_boot_table + 8) (ucast table_addr) m) else (- 1, m))"

section \<open>The phases of \<^verbatim>\<open>efi_main\<close>\<close>

definition em_start :: "'d firmware \<Rightarrow> 'd csmwrap \<Rightarrow> 'd outcome" where
  "em_start F s =
     (let s = s\<lparr>dev := SetWatchdogTimer F (dev s)\<rparr>;
          ((status, time), d) = GetTime (fw_acpi F) (dev s);
          s = s\<lparr>dev := d\<rparr>
      in if status \<noteq> EFI_SUCCESS then Returned (- 1) s else Running (s\<lparr>gTimeAtBoot := time\<rparr>))"

text \<open>Reading \<^verbatim>\<open>vgabios.bin\<close> into a buffer of 256 KiB.\<close>

definition read_vgabios :: "'d firmware \<Rightarrow> 'd csmwrap \<Rightarrow> 'd csmwrap" where
  "read_vgabios F s =
     (let max_size = 256 * 1024;
          ((status, p), d) = AllocatePool (fw_acpi F) max_size (dev s)
      in if status \<noteq> EFI_SUCCESS then s\<lparr>dev := d, video := (video s)\<lparr>vbios_loc := 0\<rparr>\<rparr>
         else
           let ((status, bytes), d) = Read_vgabios F max_size d in
           if status = EFI_SUCCESS then
             s\<lparr>dev := d, mem := store_bytes p bytes (mem s),
               video := (video s)\<lparr>vbios_loc := p, vbios_size := length bytes\<rparr>\<rparr>
           else s\<lparr>dev := FreePool (fw_acpi F) p d, video := (video s)\<lparr>vbios_loc := 0\<rparr>\<rparr>)"

definition em_load_vgabios :: "'d firmware \<Rightarrow> 'd csmwrap \<Rightarrow> 'd outcome" where
  "em_load_vgabios F s =
     (let ((status, device), d) = HandleProtocol_LoadedImage F (dev s);
          loaded = (status = EFI_SUCCESS);
          (sfs, d) = (if loaded then map_prod (\<lambda>st. st = EFI_SUCCESS) id (HandleProtocol_FileSystem F device d)
                      else (False, d));
          (dir, d) = (if sfs then map_prod (\<lambda>st. st = EFI_SUCCESS) id (OpenVolume F d) else (False, d));
          s = s\<lparr>dev := d\<rparr>
      in if dir then
           let (status, d) = Open_vgabios F (dev s);
               s = s\<lparr>dev := d\<rparr>;
               s = (if status = EFI_SUCCESS then
                      let s = read_vgabios F s in s\<lparr>dev := Close_vgabios F (dev s)\<rparr>
                    else s)
           in Running (s\<lparr>dev := Close_dir F (dev s)\<rparr>)
         else Running s)"

definition em_unlock :: "'d firmware \<Rightarrow> 'd csmwrap \<Rightarrow> 'd outcome" where
  "em_unlock F s =
     (let d = RaiseTPL F (dev s);
          (r, d) = run_state (unlock_bios_region (fw_hw F) (fw_region F)) d
      in if r \<noteq> 0 then Returned (- 1) (s\<lparr>dev := d\<rparr>)
         else let (_, d) = run_state (apply_intel_platform_workarounds (fw_hw F) (fw_stall F)) d in
           Running (s\<lparr>dev := d\<rparr>))"

definition em_csm_image :: "csm_images \<Rightarrow> 'd csmwrap \<Rightarrow> 'd outcome" where
  "em_csm_image I s =
     (let base = of_nat BIOSROM_END - of_nat (sizeof_Csm16_bin I);
          s = s\<lparr>csm_bin_base := base\<rparr>
      in if base < of_nat VGABIOS_END then Returned (- 1) s
         else case find_table (mem s) EFI_COMPATIBILITY16_TABLE_SIGNATURE (Csm16_bin I) (sizeof_Csm16_bin I) of
           None \<Rightarrow> Returned (- 1) (s\<lparr>csm_efi_table := 0\<rparr>)
         | Some t \<Rightarrow> Running (s\<lparr>csm_efi_table := t\<rparr>))"

text \<open>The place of the RSDP in the image.\<close>

definition rsdp_target :: "csm_images \<Rightarrow> 'd csmwrap \<Rightarrow> nat" where
  "rsdp_target I s =
     unat (of_nat (Csm16_bin I) + (ucast (load32 (mem s) (csm_efi_table s + ct_AcpiRsdPtrPointer)) - csm_bin_base s))"

definition em_acpi_video :: "'d firmware \<Rightarrow> csm_images \<Rightarrow> 'd csmwrap \<Rightarrow> 'd outcome" where
  "em_acpi_video F I s =
     (let (_, m, a, d) = acpi_init (fw_acpi F) (ConfigurationTable F) (rsdp_target I s) (mem s) (acpi s) (dev s);
          s = s\<lparr>mem := m, acpi := a, dev := d\<rparr>
      in case csmwrap_video_init (fw_video F) (img_vgabios I) (mem s) (video s) (dev s) of
           None \<Rightarrow> Stuck
         | Some (_, v, d) \<Rightarrow> Running (s\<lparr>video := v, dev := d\<rparr>))"

text \<open>The init table and the table of the VGA option ROM.\<close>

definition fill_init_table :: "u64 \<Rightarrow> u64 \<Rightarrow> mem \<Rightarrow> mem" where
  "fill_init_table pmm_base HiPmm m =
     (let m = store32 low_init_table 0x00080000 m;
          m = store32 (low_init_table + 24) (of_nat LOW_STUB_BASE) m;
          m = store32 (low_init_table + 28) (of_nat sizeof_low_stub) m;
          m = store32 (low_init_table + 32) (ucast pmm_base) m;
          m = store32 (low_init_table + 36) (of_nat CONVEN_END - ucast pmm_base) m;
          m = store32 (low_init_table + 8) HIPMM_SIZE m;
          m = store32 (low_init_table + 4) (ucast HiPmm) m
      in m)"

definition fill_oprom_table :: "'d video \<Rightarrow> mem \<Rightarrow> mem" where
  "fill_oprom_table v m =
     (let m = store16 (low_vga_oprom_table + 4) (EFI_SEGMENT VGABIOS_START) m;
          m = m(low_vga_oprom_table + 6 := vga_pci_bus v)
      in m(low_vga_oprom_table + 7 := vga_pci_devfn v))"

definition em_low_stub :: "'d firmware \<Rightarrow> csm_images \<Rightarrow> 'd csmwrap \<Rightarrow> 'd outcome" where
  "em_low_stub F I s =
     (let ((status, HiPmm), d) = AllocatePages F (unat HIPMM_SIZE div 4096) (dev s);
          s = s\<lparr>dev := d\<rparr>
      in if status \<noteq> EFI_SUCCESS then Returned (- 1) s
         else
           let m = fst (libc_memset LOW_STUB_BASE 0 (CONVEN_END - LOW_STUB_BASE) (mem s));
               (_, m) = set_smbios_table (ConfigurationTable F) m;
               m = store32 (low_boot_table + 4) (load32 m (csm_efi_table s + ct_AcpiRsdPtrPointer)) m;
               (pmm_base, ctx, m) =
                 LegacyBiosInitializeThunkAndTable (img_thunk I) (of_nat LOW_STUB_BASE) (of_nat sizeof_low_stub) m;
               m = fill_init_table pmm_base HiPmm m;
               m = fill_oprom_table (video s) m
           in Running (s\<lparr>mem := m, thunk_context := ctx\<rparr>))"

definition em_prepare_exit :: "'d firmware \<Rightarrow> csm_images \<Rightarrow> 'd csmwrap \<Rightarrow> 'd outcome" where
  "em_prepare_exit F I s =
     (let (m, _) = build_coreboot_table (video_type (video s)) (cb_fb (video s)) (img_pad I) (mem s);
          s = s\<lparr>mem := m\<rparr>
      in case csmwrap_video_prepare_exitbs (fw_video F) (video s) (dev s) of
           None \<Rightarrow> Stuck
         | Some (_, d) \<Rightarrow>
             let (a, d) = acpi_prepare_exitbs (fw_acpi F) (acpi s) d in Running (s\<lparr>acpi := a, dev := d\<rparr>))"

text \<open>The attempts to leave boot services; \<open>status\<close> is that of the attempt before.\<close>

fun try_exit :: "'d firmware \<Rightarrow> u64 \<Rightarrow> nat \<Rightarrow> EFI_STATUS \<Rightarrow> 'd \<Rightarrow> EFI_STATUS \<times> 'd" where
  "try_exit F key 0 status d = (status, d)"
| "try_exit F key (Suc n) status d =
     (let (status, d) = ExitBootServices F key d in
      if status = EFI_SUCCESS then (status, d) else try_exit F key n status d)"

definition sizeof_EFI_MEMORY_DESCRIPTOR :: nat where "sizeof_EFI_MEMORY_DESCRIPTOR = 40"

text \<open>The area with the memory map after the low memory was cleared, and its bytes in the low stub.\<close>

definition e820_cleared :: e820_area where
  "e820_cleared = \<lparr>e820_entries = 0, e820_map = replicate E820_MAX_ENTRIES \<lparr>BaseAddr = 0, Length = 0, Type = 0\<rparr>\<rparr>"

definition e820_entry_bytes :: "EFI_E820_ENTRY64 \<Rightarrow> u8 list" where
  "e820_entry_bytes e = le_bytes 8 (BaseAddr e) @ le_bytes 8 (Length e) @ le_bytes 4 (Type e)"

definition store_e820 :: "e820_area \<Rightarrow> mem \<Rightarrow> mem" where
  "store_e820 a m = store_bytes low_e820_map (concat (map e820_entry_bytes (e820_map a)))
     (store32 low_e820_entries (of_nat (e820_entries a)) m)"

text \<open>Leaving boot services delivers the address, the size and the descriptor size of the memory map.\<close>

definition exit_boot_services ::
  "'d firmware \<Rightarrow> 'd csmwrap \<Rightarrow> ('d csmwrap + 'd csmwrap \<times> nat \<times> nat \<times> nat)" where
  "exit_boot_services F s =
     (let ((_, _, sz, _, _), d) = GetMemoryMap F sizeof_EFI_MEMORY_DESCRIPTOR (dev s);
          sz = sz + 4096;
          ((status, efi_mmap), d) = AllocatePool (fw_acpi F) sz d
      in if status \<noteq> EFI_SUCCESS then Inl (s\<lparr>dev := d\<rparr>)
         else
           let ((status, bytes, sz, key, desc), d) = GetMemoryMap F sz d;
               s = s\<lparr>dev := d, mem := store_bytes efi_mmap bytes (mem s)\<rparr>
           in if status \<noteq> EFI_SUCCESS then Inl s
              else
                let (status, d) = try_exit F key 128 status (dev s);
                    s = s\<lparr>dev := d\<rparr>
                in if status \<noteq> EFI_SUCCESS then Inl s
                   else Inr (s\<lparr>dev := cpu_cli F (dev s)\<rparr>, efi_mmap, sz, desc))"

definition em_memory_map :: "'d firmware \<Rightarrow> 'd csmwrap \<Rightarrow> 'd outcome" where
  "em_memory_map F s =
     (case exit_boot_services F s of
        Inl s \<Rightarrow> Returned (- 1) s
      | Inr (s, efi_mmap, sz, desc) \<Rightarrow>
          (case build_e820_map (mem s) efi_mmap sz desc e820_cleared of
             None \<Rightarrow> Stuck
           | Some (area, _) \<Rightarrow>
               let m = store_e820 area (mem s);
                   m = store32 (csm_efi_table s + ct_E820Pointer) (of_nat low_e820_map) m;
                   m = store32 (csm_efi_table s + ct_E820Length) (20 * of_nat (e820_entries area)) m
               in Running (s\<lparr>mem := m\<rparr>)))"

definition em_pic :: "'d firmware \<Rightarrow> 'd csmwrap \<Rightarrow> 'd outcome" where
  "em_pic F s =
     (let (_, d) = run_state (do {
            outb (fw_hw F) 0x21 0xFF; outb (fw_hw F) 0xA1 0xFF; outb (fw_hw F) 0x43 0x36;
            outb (fw_hw F) 0x40 0; outb (fw_hw F) 0x40 0 }) (dev s)
      in Running (s\<lparr>dev := d\<rparr>))"

definition em_copy_roms :: "csm_images \<Rightarrow> 'd csmwrap \<Rightarrow> 'd outcome" where
  "em_copy_roms I s =
     (let m = fst (libc_memcpy (unat (csm_bin_base s)) (Csm16_bin I) (sizeof_Csm16_bin I) (mem s));
          m = fst (libc_memcpy VGABIOS_START (vbios_loc (video s)) (vbios_size (video s)) m)
      in Running (s\<lparr>mem := m\<rparr>))"

definition Legacy16InitializeYourself :: u16 where "Legacy16InitializeYourself = 0"
definition Legacy16PrepareToBoot :: u16 where "Legacy16PrepareToBoot = 2"
definition Legacy16Boot :: u16 where "Legacy16Boot = 3"
definition Legacy16DispatchOprom :: u16 where "Legacy16DispatchOprom = 5"

text \<open>A far call to the CSM, with the entry point read from the table in the image.\<close>

definition call_csm :: "csm_images \<Rightarrow> 'd csmwrap \<Rightarrow> EFI_IA32_REGISTER_SET \<Rightarrow> mem \<Rightarrow> mem" where
  "call_csm I s regs m =
     (case LegacyBiosFarCall86 (img_asm16 I) (thunk_context s)
        (load16 m (csm_efi_table s + ct_CallSegment)) (load16 m (csm_efi_table s + ct_CallOffset)) regs [] m of
        (_, _, _, m) \<Rightarrow> m)"

definition table_regs :: "u16 \<Rightarrow> nat \<Rightarrow> EFI_IA32_REGISTER_SET" where
  "table_regs fn table =
     r_zero\<lparr>r_EAX := set_low fn 0, r_ES := EFI_SEGMENT table, r_EBX := set_low (EFI_OFFSET table) 0\<rparr>"

definition em_calls :: "csm_images \<Rightarrow> 'd csmwrap \<Rightarrow> 'd outcome" where
  "em_calls I s =
     (let m = mem s;
          m = call_csm I s (table_regs Legacy16InitializeYourself low_init_table) m;
          m = call_csm I s (table_regs Legacy16DispatchOprom low_vga_oprom_table) m;
          m = call_csm I s (table_regs Legacy16PrepareToBoot low_boot_table) m;
          m = call_csm I s (r_zero\<lparr>r_EAX := set_low Legacy16Boot 0\<rparr>) m
      in Returned 0 (s\<lparr>mem := m\<rparr>))"

text \<open>Everything up to the first call of the CSM, and the whole program.\<close>

definition em_prepare :: "'d firmware \<Rightarrow> csm_images \<Rightarrow> 'd csmwrap \<Rightarrow> 'd outcome" where
  "em_prepare F I s =
     fold and_then [em_start F, em_load_vgabios F, em_unlock F, em_csm_image I, em_acpi_video F I, em_low_stub F I,
       em_prepare_exit F I, em_memory_map F, em_pic F, em_copy_roms I] (Running s)"

definition efi_main :: "'d firmware \<Rightarrow> csm_images \<Rightarrow> 'd csmwrap \<Rightarrow> 'd outcome" where
  "efi_main F I s = and_then (em_calls I) (em_prepare F I s)"

end
