(* ===== verification/Csmwrap_Run.thy ===== *)
theory Csmwrap_Run
  imports Csmwrap
begin

text \<open>
  Runs of \<^verbatim>\<open>efi_main\<close>: what each phase keeps, what the memory looks like when the CSM is called, that
  the program gets there when the firmware cooperates, and what it leaves alone when it gives up.

  What the firmware promises is stated by \<open>pools_ok\<close>, \<open>memory_map_ok\<close>, \<open>platform_ok\<close>, \<open>display_ok\<close> and
  \<open>services_ok\<close>, what the build provides by \<open>image_ok\<close> and \<open>placed_ok\<close>.
\<close>

section \<open>Following the phases\<close>

lemma and_then_Running: "and_then p out = Running s \<longleftrightarrow> (\<exists>s0. out = Running s0 \<and> p s0 = Running s)"
  by (cases out) auto

lemma and_then_Returned:
  "and_then p out = Returned st s \<longleftrightarrow> out = Returned st s \<or> (\<exists>s0. out = Running s0 \<and> p s0 = Returned st s)"
  by (cases out) auto

lemma em_prepareE:
  assumes "em_prepare F I s = Running s'"
  obtains s1 s2 s3 s4 s5 s6 s7 s8 s9 where "em_start F s = Running s1" "em_load_vgabios F s1 = Running s2"
    "em_unlock F s2 = Running s3" "em_csm_image I s3 = Running s4" "em_acpi_video F I s4 = Running s5"
    "em_low_stub F I s5 = Running s6" "em_prepare_exit F I s6 = Running s7" "em_memory_map F s7 = Running s8"
    "em_pic F s8 = Running s9" "em_copy_roms I s9 = Running s'"
  using assms by (auto simp: em_prepare_def and_then_Running)

lemma memcpy_out: "x < d \<or> d + n \<le> x \<Longrightarrow> fst (libc_memcpy d s n m) x = m x"
  by (induction n) (auto simp: libc_memcpy_def)

lemma memcpy_apart: "d + n \<le> s \<or> s + n \<le> d \<Longrightarrow> fst (libc_memcpy d s n m) = block_copy d s n m"
  using copy_up [of d s n m] by (auto simp: libc_memcpy_def)

lemma load_bytes_cong: "\<forall>i < n. m (a + i) = m' (b + i) \<Longrightarrow> load_bytes m a n = load_bytes m' b n"
  by (simp add: load_bytes_def)

lemma load_cong:
  "\<forall>i < 2. m (a + i) = m' (b + i) \<Longrightarrow> load16 m a = load16 m' b"
  "\<forall>i < 4. m (a + i) = m' (b + i) \<Longrightarrow> load32 m a = load32 m' b"
  "\<forall>i < 8. m (a + i) = m' (b + i) \<Longrightarrow> load64 m a = load64 m' b"
  by (simp_all add: load16_def load32_def load64_def load_bytes_cong [of _ m a m' b])

text \<open>What the firmware promises of its memory: pool blocks lie above 1 MiB and apart from the
  loaded image, and no service delivers more bytes than the buffer holds.\<close>

definition pools_ok :: "'d firmware \<Rightarrow> csm_images \<Rightarrow> bool" where
  "pools_ok F I \<longleftrightarrow>
     (\<forall>n d st p d'. AllocatePool (fw_acpi F) n d = ((st, p), d') \<and> st = EFI_SUCCESS \<longrightarrow>
        0x100000 \<le> p \<and> (p + n \<le> Csm16_bin I \<or> Csm16_bin I + sizeof_Csm16_bin I \<le> p)) \<and>
     (\<forall>n d. length (snd (fst (Read_vgabios F n d))) \<le> n) \<and>
     (\<forall>n d st bytes r d'. GetMemoryMap F n d = ((st, bytes, r), d') \<longrightarrow> length bytes \<le> n)"

text \<open>The fields that stay as they are from a phase on.\<close>

lemma em_start_keeps:
  assumes "em_start F s = Running s'"
  shows "mem s' = mem s" "video s' = video s" "acpi s' = acpi s"
  using assms by (auto simp: em_start_def Let_def split: prod.splits if_splits)

lemma em_unlock_keeps:
  assumes "em_unlock F s = Running s'"
  shows "mem s' = mem s" "video s' = video s" "acpi s' = acpi s"
  using assms by (auto simp: em_unlock_def Let_def split: prod.splits if_splits)

lemma em_pic_keeps:
  assumes "em_pic F s = Running s'"
  shows "mem s' = mem s" "video s' = video s" "csm_bin_base s' = csm_bin_base s" "csm_efi_table s' = csm_efi_table s"
    "thunk_context s' = thunk_context s"
  using assms by (auto simp: em_pic_def Let_def split: prod.splits)

lemma em_csm_image_found:
  assumes "em_csm_image I s = Running s'"
  shows "mem s' = mem s" "video s' = video s" "acpi s' = acpi s"
    "csm_bin_base s' = of_nat BIOSROM_END - of_nat (sizeof_Csm16_bin I)" "of_nat VGABIOS_END \<le> csm_bin_base s'"
    "find_table (mem s) EFI_COMPATIBILITY16_TABLE_SIGNATURE (Csm16_bin I) (sizeof_Csm16_bin I) = Some (csm_efi_table s')"
  using assms by (auto simp: em_csm_image_def Let_def not_less split: if_splits option.splits)

lemma em_acpi_video_keeps:
  assumes "em_acpi_video F I s = Running s'"
  shows "csm_bin_base s' = csm_bin_base s" "csm_efi_table s' = csm_efi_table s"
  using assms by (auto simp: em_acpi_video_def Let_def split: prod.splits option.splits)

lemma em_low_stub_keeps:
  assumes "em_low_stub F I s = Running s'"
  shows "csm_bin_base s' = csm_bin_base s" "csm_efi_table s' = csm_efi_table s" "video s' = video s"
  using assms by (auto simp: em_low_stub_def Let_def split: prod.splits if_splits)

lemma em_prepare_exit_keeps:
  assumes "em_prepare_exit F I s = Running s'"
  shows "csm_bin_base s' = csm_bin_base s" "csm_efi_table s' = csm_efi_table s" "video s' = video s"
    "thunk_context s' = thunk_context s"
  using assms by (auto simp: em_prepare_exit_def Let_def split: prod.splits option.splits)

section \<open>The memory map in the low stub\<close>

lemma length_e820_entry_bytes [simp]: "length (e820_entry_bytes e) = 20"
  by (simp add: e820_entry_bytes_def)

lemma concat_block:
  assumes "\<forall>x \<in> set xs. length (f x) = n" "i < length xs"
  shows "take n (drop (n * i) (concat (map f xs))) = f (xs ! i)"
  using assms
proof (induction xs arbitrary: i)
  case (Cons x xs)
  then show ?case by (cases i) simp_all
qed simp

lemma length_concat_block: "\<forall>x \<in> set xs. length (f x) = n \<Longrightarrow> length (concat (map f xs)) = n * length xs"
  by (induction xs) simp_all

lemma load_e820_entry:
  assumes "i < length (e820_map a)"
  shows "load_bytes (store_e820 a m) (low_e820_map + 20 * i) 20 = e820_entry_bytes (e820_map a ! i)"
proof -
  have l: "length (concat (map e820_entry_bytes (e820_map a))) = 20 * length (e820_map a)"
    by (rule length_concat_block) simp
  have "20 * i + 20 \<le> 20 * length (e820_map a)" using assms by simp
  then show ?thesis
    using concat_block [of "e820_map a" e820_entry_bytes 20 i] assms
    by (simp add: store_e820_def load_store_inside l)
qed

lemma load_part: "k + n \<le> l \<Longrightarrow> load_bytes m (a + k) n = take n (drop k (load_bytes m a l))"
  by (rule nth_equalityI) (auto simp: add.assoc)

lemma e820_entry_fields:
  assumes "load_bytes m a 20 = e820_entry_bytes e"
  shows "load64 m a = BaseAddr e" "load64 m (a + 8) = Length e" "load32 m (a + 16) = Type e"
  using load_part [of 0 8 20 m a] load_part [of 8 8 20 m a] load_part [of 16 4 20 m a]
  by (simp_all add: load64_def load32_def assms e820_entry_bytes_def of_le_le_bytes)

lemma e820_cleared_invar: "e820_invar e820_cleared"
  by (simp add: e820_invar_def e820_cleared_def E820_MAX_ENTRIES_def)

lemma build_e820_map_invar:
  assumes "0 < desc" "build_e820_map m p sz desc s = Some (area, r)" "e820_invar s"
  shows "e820_invar area"
proof -
  have "e820_invar (e820_add_descriptor x s)" if "e820_invar s" for x s
    using that by (simp add: e820_add_descriptor_def Let_def e820_add_invar)
  then have "e820_invar (fold e820_add_descriptor xs s)" for xs
    using assms(3) by (induction xs arbitrary: s) auto
  then show ?thesis
    using assms(1,2) by (auto simp: build_e820_map_def e820_walk_fold e820_low_memory_def e820_remove_def Let_def e820_add_invar)
qed

text \<open>What the phase that leaves boot services did.\<close>

lemma em_memory_mapE:
  assumes "em_memory_map F s = Running s'" "pools_ok F I"
  obtains n d bytes sz key desc d' p area r where
    "GetMemoryMap F n d = ((EFI_SUCCESS, bytes, sz, key, desc), d')" "length bytes \<le> n"
    "0x100000 \<le> p" "p + n \<le> Csm16_bin I \<or> Csm16_bin I + sizeof_Csm16_bin I \<le> p"
    "build_e820_map (store_bytes p bytes (mem s)) p sz desc e820_cleared = Some (area, r)"
    "mem s' = store32 (csm_efi_table s + ct_E820Length) (20 * of_nat (e820_entries area))
      (store32 (csm_efi_table s + ct_E820Pointer) (of_nat low_e820_map) (store_e820 area (store_bytes p bytes (mem s))))"
    "video s' = video s" "csm_bin_base s' = csm_bin_base s" "csm_efi_table s' = csm_efi_table s"
    "thunk_context s' = thunk_context s"
proof -
  obtain x1 x2 sz0 x4 x5 d1 where g1: "GetMemoryMap F sizeof_EFI_MEMORY_DESCRIPTOR (dev s) = ((x1, x2, sz0, x4, x5), d1)"
    by (metis prod.exhaust)
  obtain st p d2 where a: "AllocatePool (fw_acpi F) (sz0 + 4096) d1 = ((st, p), d2)" by (metis prod.exhaust)
  obtain st2 bytes sz key desc d3 where g2: "GetMemoryMap F (sz0 + 4096) d2 = ((st2, bytes, sz, key, desc), d3)"
    by (metis prod.exhaust)
  obtain st3 d4 where t: "try_exit F key 128 st2 d3 = (st3, d4)" by (metis prod.exhaust)
  have ok: "st = EFI_SUCCESS" "st2 = EFI_SUCCESS" "st3 = EFI_SUCCESS"
    using assms(1) g1 a g2 t by (auto simp: em_memory_map_def exit_boot_services_def Let_def split: if_splits)
  then obtain area r where b: "build_e820_map (store_bytes p bytes (mem s)) p sz desc e820_cleared = Some (area, r)"
    using assms(1) g1 a g2 t
    by (auto simp: em_memory_map_def exit_boot_services_def Let_def split: option.splits)
  have s': "s' = s\<lparr>dev := cpu_cli F d4, mem := store32 (csm_efi_table s + ct_E820Length) (20 * of_nat (e820_entries area))
      (store32 (csm_efi_table s + ct_E820Pointer) (of_nat low_e820_map) (store_e820 area (store_bytes p bytes (mem s))))\<rparr>"
    using assms(1) g1 a g2 t ok b by (auto simp: em_memory_map_def exit_boot_services_def Let_def)
  have "length bytes \<le> sz0 + 4096" "0x100000 \<le> p"
    "p + (sz0 + 4096) \<le> Csm16_bin I \<or> Csm16_bin I + sizeof_Csm16_bin I \<le> p"
    using assms(2) g2 a ok(1) unfolding pools_ok_def by blast+
  with g2 ok b s' show ?thesis by (intro that [of "sz0 + 4096" d2 bytes sz key desc d3 p area r]) simp_all
qed

section \<open>The memory the CSM finds\<close>

lemma find_table_loop_found:
  "find_table_loop m sig ptr lim = Some t \<Longrightarrow> ptr \<le> t \<and> t < lim \<and> load32 m t = sig \<and> (t - ptr) mod 16 = 0"
proof (induction m sig ptr lim rule: find_table_loop.induct)
  case (1 m sig ptr lim)
  show ?case
  proof (cases "ptr < lim \<and> load32 m ptr \<noteq> sig")
    case True
    then have "find_table_loop m sig (ptr + 0x10) lim = Some t"
      using "1.prems" by (simp add: find_table_loop.simps [of m sig ptr])
    then have "ptr + 16 \<le> t" "t < lim" "load32 m t = sig" "(t - (ptr + 16)) mod 16 = 0" using "1.IH" True by auto
    moreover from this have "t - ptr = t - (ptr + 16) + 16" by simp
    ultimately show ?thesis by (metis add_leD1 mod_add_self2)
  next
    case False
    then show ?thesis using "1.prems" by (auto simp: find_table_loop.simps [of m sig ptr] split: if_splits)
  qed
qed

lemma bin_base_unat: "n \<le> 0x100000 \<Longrightarrow> unat (of_nat BIOSROM_END - of_nat n :: u64) = 0x100000 - n"
  by (simp add: BIOSROM_END_def unat_sub word_le_nat_alt unat_of_nat)

text \<open>The image and the VGA BIOS have room, and the table that was found is complete.\<close>

definition placed_ok :: "csm_images \<Rightarrow> 'd csmwrap \<Rightarrow> bool" where
  "placed_ok I s \<longleftrightarrow>
     0x100000 \<le> Csm16_bin I \<and> sizeof_Csm16_bin I \<le> 0x38000 \<and>
     csm_efi_table s + 91 \<le> Csm16_bin I + sizeof_Csm16_bin I \<and>
     0xC0000 + vbios_size (video s) \<le> 0x100000 - sizeof_Csm16_bin I"

text \<open>Where the table of the image is when the CSM runs.\<close>

definition placed_table :: "csm_images \<Rightarrow> 'd csmwrap \<Rightarrow> nat" where
  "placed_table I s = 0x100000 - sizeof_Csm16_bin I + (csm_efi_table s - Csm16_bin I)"

lemma em_copy_roms_mem:
  assumes "em_copy_roms I s = Running s'" "placed_ok I s'"
    and "csm_bin_base s = of_nat BIOSROM_END - of_nat (sizeof_Csm16_bin I)"
  shows "x < 0xC0000 \<Longrightarrow> mem s' x = mem s x"
    "0x100000 - sizeof_Csm16_bin I \<le> x \<Longrightarrow> x < 0x100000 \<Longrightarrow>
      mem s' x = mem s (Csm16_bin I + (x - (0x100000 - sizeof_Csm16_bin I)))"
    "0x100000 \<le> x \<Longrightarrow> mem s' x = mem s x"
proof -
  have b: "unat (csm_bin_base s) = 0x100000 - sizeof_Csm16_bin I"
    using assms(2,3) bin_base_unat [of "sizeof_Csm16_bin I"] by (simp add: placed_ok_def)
  have c: "fst (libc_memcpy (unat (csm_bin_base s)) (Csm16_bin I) (sizeof_Csm16_bin I) (mem s)) =
      block_copy (0x100000 - sizeof_Csm16_bin I) (Csm16_bin I) (sizeof_Csm16_bin I) (mem s)"
    using assms(2) unfolding b by (intro memcpy_apart) (auto simp: placed_ok_def)
  have m: "mem s' = fst (libc_memcpy 0xC0000 (vbios_loc (video s)) (vbios_size (video s))
      (block_copy (0x100000 - sizeof_Csm16_bin I) (Csm16_bin I) (sizeof_Csm16_bin I) (mem s)))" "video s' = video s"
    using assms(1) c by (auto simp: em_copy_roms_def VGABIOS_START_def Let_def)
  show "x < 0xC0000 \<Longrightarrow> mem s' x = mem s x"
    "0x100000 - sizeof_Csm16_bin I \<le> x \<Longrightarrow> x < 0x100000 \<Longrightarrow>
      mem s' x = mem s (Csm16_bin I + (x - (0x100000 - sizeof_Csm16_bin I)))"
    "0x100000 \<le> x \<Longrightarrow> mem s' x = mem s x"
    using assms(2) unfolding m(1) placed_ok_def m(2) by (subst memcpy_out; auto simp: block_copy_def)+
qed

lemma em_copy_roms_keeps:
  assumes "em_copy_roms I s = Running s'"
  shows "video s' = video s" "csm_bin_base s' = csm_bin_base s" "csm_efi_table s' = csm_efi_table s"
    "thunk_context s' = thunk_context s" "dev s' = dev s"
  using assms by (auto simp: em_copy_roms_def Let_def)

lemma store_e820_out: "length (e820_map a) = 128 \<Longrightarrow> x < low_e820_entries \<or> low_e820_map + 2560 \<le> x \<Longrightarrow> store_e820 a m x = m x"
  using length_concat_block [of "e820_map a" e820_entry_bytes 20]
  by (auto simp: store_e820_def store_bytes_def store32_def layout_defs)

text \<open>The firmware's memory map: whole descriptors, the bytes delivered are the size reported.\<close>

definition map_descriptors :: "u8 list \<Rightarrow> nat \<Rightarrow> EFI_MEMORY_DESCRIPTOR list" where
  "map_descriptors bytes desc = memory_descriptors (store_bytes 0 bytes (\<lambda>_. 0)) 0 (length bytes) desc"

definition memory_map_ok :: "'d firmware \<Rightarrow> bool" where
  "memory_map_ok F \<longleftrightarrow>
     (\<forall>n d bytes sz key desc d'. GetMemoryMap F n d = ((EFI_SUCCESS, bytes, sz, key, desc), d') \<longrightarrow>
        sz = length bytes \<and> 32 \<le> desc \<and> desc dvd sz \<and>
        list_all (\<lambda>x. good_request (descriptor_request x)) (map_descriptors bytes desc) \<and>
        (\<forall>k \<le> length (map_descriptors bytes desc).
          e820_entries (fold e820_add_descriptor (take k (map_descriptors bytes desc)) e820_cleared) + 8 \<le> E820_MAX_ENTRIES))"

lemma memory_descriptors_stored:
  assumes "32 \<le> desc" "desc dvd length bytes"
  shows "memory_descriptors (store_bytes p bytes m) p (length bytes) desc = map_descriptors bytes desc"
proof -
  obtain k where k: "length bytes = desc * k" using assms(2) by (auto elim: dvdE)
  have "length bytes + desc - 1 = desc - 1 + k * desc" using assms(1) k by (simp add: mult.commute)
  then have n: "(length bytes + desc - 1) div desc = k"
    using assms(1) div_mult_self1 [of desc "desc - 1" k] by (simp only:) simp
  have b: "desc * i + 32 \<le> length bytes" if "i < k" for i
    using that assms(1) mult_le_mono2 [of "Suc i" k desc] k by simp
  have "load_bytes (store_bytes p bytes m) (p + q) l = load_bytes (store_bytes 0 bytes (\<lambda>_. 0)) q l"
    if "q + l \<le> length bytes" for q l
    using that by (intro load_bytes_cong) (auto simp: store_bytes_def)
  note l = this
  have "memory_descriptor (store_bytes p bytes m) (p + i * desc) = memory_descriptor (store_bytes 0 bytes (\<lambda>_. 0)) (0 + i * desc)"
    if "i < k" for i
    using b [OF that] l [of "i * desc" 4] l [of "i * desc + 8" 8] l [of "i * desc + 24" 8]
    by (simp add: memory_descriptor_def load32_def load64_def add.assoc mult.commute)
  then show ?thesis unfolding map_descriptors_def memory_descriptors_def n by simp
qed

lemma prepared_e820:
  assumes "em_prepare F I s = Running s'" "pools_ok F I" "placed_ok I s'" "memory_map_ok F"
  obtains n d bytes key desc d' area p m where
    "GetMemoryMap F n d = ((EFI_SUCCESS, bytes, length bytes, key, desc), d')"
    "build_e820_map (store_bytes p bytes m) p (length bytes) desc e820_cleared = Some (area, 0)" "e820_invar area"
    "32 \<le> desc" "desc dvd length bytes"
    "load32 (mem s') (placed_table I s' + ct_E820Pointer) = of_nat low_e820_map"
    "load32 (mem s') (placed_table I s' + ct_E820Length) = 20 * of_nat (e820_entries area)"
    "\<forall>i < e820_entries area. load_bytes (mem s') (low_e820_map + 20 * i) 20 = e820_entry_bytes (e820_map area ! i)"
proof -
  from assms(1) obtain s3 s4 s5 s6 s7 s8 s9 where ph: "em_csm_image I s3 = Running s4" "em_acpi_video F I s4 = Running s5"
    "em_low_stub F I s5 = Running s6" "em_prepare_exit F I s6 = Running s7" "em_memory_map F s7 = Running s8"
    "em_pic F s8 = Running s9" "em_copy_roms I s9 = Running s'" by (rule em_prepareE)
  from ph(5) assms(2) obtain n d bytes sz key desc d' p area r where g: "GetMemoryMap F n d = ((EFI_SUCCESS, bytes, sz, key, desc), d')"
    and bm: "build_e820_map (store_bytes p bytes (mem s7)) p sz desc e820_cleared = Some (area, r)"
    and ms: "mem s8 = store32 (csm_efi_table s7 + ct_E820Length) (20 * of_nat (e820_entries area))
      (store32 (csm_efi_table s7 + ct_E820Pointer) (of_nat low_e820_map) (store_e820 area (store_bytes p bytes (mem s7))))"
    and k8: "csm_bin_base s8 = csm_bin_base s7" "csm_efi_table s8 = csm_efi_table s7"
    by (rule em_memory_mapE)
  have ok: "sz = length bytes" "32 \<le> desc" "desc dvd sz" using assms(4) g unfolding memory_map_ok_def by blast+
  note k = k8 em_pic_keeps [OF ph(6)] em_prepare_exit_keeps [OF ph(4)] em_low_stub_keeps [OF ph(3)]
    em_acpi_video_keeps [OF ph(2)] em_copy_roms_keeps [OF ph(7)]
  note c = em_csm_image_found [OF ph(1)]
  have base: "csm_bin_base s9 = of_nat BIOSROM_END - of_nat (sizeof_Csm16_bin I)" using c(4) k by simp
  note roms = em_copy_roms_mem [OF ph(7) assms(3) base]
  have t: "csm_efi_table s7 = csm_efi_table s'" "Csm16_bin I \<le> csm_efi_table s'"
    using c(6) find_table_loop_found [of "mem s3"] k unfolding find_table_def by auto
  have inv: "e820_invar area" using build_e820_map_invar [OF _ bm e820_cleared_invar] ok(2) by simp
  have r: "r = 0" using bm by (auto simp: build_e820_map_def split: option.splits)
  let ?t = "csm_efi_table s'"
  have img: "mem s' (placed_table I s' + off + i) = mem s8 (?t + off + i)" if "off + i < 91" for off i
  proof -
    have "placed_table I s' + off + i < 0x100000" "0x100000 - sizeof_Csm16_bin I \<le> placed_table I s' + off + i"
      "Csm16_bin I + (placed_table I s' + off + i - (0x100000 - sizeof_Csm16_bin I)) = ?t + off + i"
      using that assms(3) t(2) unfolding placed_ok_def placed_table_def by linarith+
    then show ?thesis using roms(2) k(3) by simp
  qed
  have "load32 (mem s') (placed_table I s' + ct_E820Pointer) = load32 (mem s8) (?t + ct_E820Pointer)"
    by (rule load_cong(2)) (simp add: img ct_E820Pointer_def)
  then have 1: "load32 (mem s') (placed_table I s' + ct_E820Pointer) = of_nat low_e820_map"
    by (simp add: ms t(1) ct_E820Pointer_def ct_E820Length_def mem_simps)
  have "load32 (mem s') (placed_table I s' + ct_E820Length) = load32 (mem s8) (?t + ct_E820Length)"
    by (rule load_cong(2)) (simp add: img ct_E820Length_def)
  then have 2: "load32 (mem s') (placed_table I s' + ct_E820Length) = 20 * of_nat (e820_entries area)"
    by (simp add: ms t(1) mem_simps)
  have 3: "load_bytes (mem s') (low_e820_map + 20 * i) 20 = e820_entry_bytes (e820_map area ! i)"
    if "i < e820_entries area" for i
  proof -
    have i: "i < length (e820_map area)" "length (e820_map area) = 128"
      using that inv by (simp_all add: e820_invar_def E820_MAX_ENTRIES_def)
    have "load_bytes (mem s') (low_e820_map + 20 * i) 20 =
        load_bytes (store_e820 area (store_bytes p bytes (mem s7))) (low_e820_map + 20 * i) 20"
      using i t assms(3) k(3) roms(1)
      by (intro load_bytes_cong) (auto simp: placed_ok_def layout_defs ms store32_out ct_E820Pointer_def ct_E820Length_def)
    with load_e820_entry [OF i(1)] show ?thesis by simp
  qed
  show ?thesis using g bm inv ok r 1 2 3 by (intro that [of n d bytes key desc d' p "mem s7" area]) simp_all
qed

section \<open>The loaded image\<close>

text \<open>
  The image in memory: above 1 MiB, small enough for the BIOS region, with a complete table whose RSDP pointer
  is an address of the image in its final place, apart from the table.
\<close>

definition image_ok :: "csm_images \<Rightarrow> mem \<Rightarrow> bool" where
  "image_ok I m \<longleftrightarrow>
     0x100000 \<le> Csm16_bin I \<and> Csm16_bin I < 2 ^ 63 \<and> sizeof_Csm16_bin I \<le> 0x38000 \<and> sizeof_Csm16_bin I mod 16 = 0 \<and>
     (\<forall>t. find_table m EFI_COMPATIBILITY16_TABLE_SIGNATURE (Csm16_bin I) (sizeof_Csm16_bin I) = Some t \<longrightarrow>
       t + 91 \<le> Csm16_bin I + sizeof_Csm16_bin I \<and>
       (let q = unat (load32 m (t + ct_AcpiRsdPtrPointer)) in
        0x100000 - sizeof_Csm16_bin I \<le> q \<and> q + 36 \<le> 0x100000))"

definition same_image :: "csm_images \<Rightarrow> mem \<Rightarrow> mem \<Rightarrow> bool" where
  "same_image I m m' \<longleftrightarrow> (\<forall>x. Csm16_bin I \<le> x \<and> x < Csm16_bin I + sizeof_Csm16_bin I \<longrightarrow> m' x = m x)"

lemma find_table_loop_cong:
  assumes "\<forall>x. ptr \<le> x \<and> x < lim \<longrightarrow> m' x = m x" "(lim - ptr) mod 16 = 0"
  shows "find_table_loop m' sig ptr lim = find_table_loop m sig ptr lim"
  using assms
proof (induction m sig ptr lim rule: find_table_loop.induct)
  case (1 m sig ptr lim)
  show ?case
  proof (cases "ptr < lim")
    case True
    then have l: "ptr + 16 \<le> lim" using "1.prems"(2) mod_less [of "lim - ptr" 16] by linarith
    then have "load32 m' ptr = load32 m ptr" using "1.prems"(1) by (intro load_cong(2)) auto
    moreover have "(lim - (ptr + 16)) mod 16 = 0"
    proof -
      have "lim - ptr = lim - (ptr + 16) + 16" using l by simp
      then show ?thesis using "1.prems"(2) by (metis mod_add_self2)
    qed
    ultimately show ?thesis using "1.IH" [OF True] "1.prems"(1) True
      by (subst (1 2) find_table_loop.simps) auto
  next
    case False
    then show ?thesis by (subst (1 2) find_table_loop.simps) simp
  qed
qed

lemma find_table_same:
  assumes "same_image I m m'" "sizeof_Csm16_bin I mod 16 = 0"
  shows "find_table m' sig (Csm16_bin I) (sizeof_Csm16_bin I) = find_table m sig (Csm16_bin I) (sizeof_Csm16_bin I)"
  unfolding find_table_def using assms by (intro find_table_loop_cong) (auto simp: same_image_def)

lemma em_load_vgabios_frame:
  assumes "pools_ok F I" "em_load_vgabios F s = out"
  shows "\<exists>s'. out = Running s' \<and> same_image I (mem s) (mem s') \<and> (\<forall>x < 0x100000. mem s' x = mem s x) \<and>
    gop (video s') = gop (video s) \<and> vga_pci_io (video s') = vga_pci_io (video s) \<and> acpi s' = acpi s"
proof -
  have r: "same_image I (mem s) (mem (read_vgabios F s)) \<and> (\<forall>x < 0x100000. mem (read_vgabios F s) x = mem s x) \<and>
      gop (video (read_vgabios F s)) = gop (video s) \<and> vga_pci_io (video (read_vgabios F s)) = vga_pci_io (video s) \<and>
      acpi (read_vgabios F s) = acpi s" for s
  proof -
    obtain st p d where a: "AllocatePool (fw_acpi F) 262144 (dev s) = ((st, p), d)" by (metis prod.exhaust)
    obtain st2 bytes d2 where b: "Read_vgabios F 262144 d = ((st2, bytes), d2)" by (metis prod.exhaust)
    have "length bytes \<le> 262144" using assms(1) b unfolding pools_ok_def by (metis fst_conv snd_conv)
    moreover have "st = EFI_SUCCESS \<Longrightarrow> 0x100000 \<le> p \<and> (p + 262144 \<le> Csm16_bin I \<or> Csm16_bin I + sizeof_Csm16_bin I \<le> p)"
      using assms(1) a unfolding pools_ok_def by blast
    ultimately show ?thesis using a b by (auto simp: read_vgabios_def Let_def same_image_def store_bytes_def)
  qed
  show ?thesis using assms(2) r
    by (auto simp: em_load_vgabios_def Let_def same_image_def split: prod.splits)
qed

section \<open>Success\<close>

text \<open>The attempts to leave boot services succeed when one of them does.\<close>

lemma try_exit_succeeds:
  assumes "\<exists>k < n. fst (ExitBootServices F key (((\<lambda>d. snd (ExitBootServices F key d)) ^^ k) d)) = EFI_SUCCESS"
  shows "fst (try_exit F key n status d) = EFI_SUCCESS"
  using assms
proof (induction n arbitrary: d status)
  case (Suc n)
  then obtain k where k: "k < Suc n" "fst (ExitBootServices F key (((\<lambda>d. snd (ExitBootServices F key d)) ^^ k) d)) = EFI_SUCCESS"
    by blast
  obtain st d' where e: "ExitBootServices F key d = (st, d')" by (rule prod.exhaust)
  show ?case
  proof (cases "st = EFI_SUCCESS")
    case False
    with k e obtain j where "k = Suc j" by (cases k) auto
    with k e have "\<exists>k < n. fst (ExitBootServices F key (((\<lambda>d. snd (ExitBootServices F key d)) ^^ k) d')) = EFI_SUCCESS"
      by (intro exI [of _ j]) (simp add: funpow_Suc_right del: funpow.simps)
    with Suc.IH e False show ?thesis by simp
  qed (simp add: e)
qed simp

text \<open>The firmware services that \<^verbatim>\<open>efi_main\<close> depends on succeed.\<close>

definition platform_ok :: "'d firmware \<Rightarrow> bool" where
  "platform_ok F \<longleftrightarrow>
     (\<forall>d. fst (fst (GetTime (fw_acpi F) d)) = EFI_SUCCESS) \<and>
     (\<forall>d. fst (run_state (unlock_bios_region (fw_hw F) (fw_region F)) d) = 0)"

definition services_ok :: "'d firmware \<Rightarrow> bool" where
  "services_ok F \<longleftrightarrow>
     DisconnectController (fw_video F) \<noteq> None \<and>
     (\<forall>n d. fst (fst (AllocatePages F n d)) = EFI_SUCCESS) \<and>
     (\<forall>n d. fst (fst (AllocatePool (fw_acpi F) n d)) = EFI_SUCCESS) \<and>
     (\<forall>n d. 4096 \<le> n \<longrightarrow> fst (fst (GetMemoryMap F n d)) = EFI_SUCCESS) \<and>
     (\<forall>key d. \<exists>k < 128. fst (ExitBootServices F key (((\<lambda>d. snd (ExitBootServices F key d)) ^^ k) d)) = EFI_SUCCESS)"

lemma platform_okD:
  assumes "platform_ok F"
  shows "GetTime (fw_acpi F) d = ((st, t), d') \<Longrightarrow> st = EFI_SUCCESS"
    "run_state (unlock_bios_region (fw_hw F) (fw_region F)) d = (r, d') \<Longrightarrow> r = 0"
  using assms unfolding platform_ok_def by (metis fst_conv)+

lemma services_okD:
  assumes "services_ok F"
  shows "csmwrap_video_prepare_exitbs (fw_video F) v d \<noteq> None"
    "AllocatePages F n d = ((st, hp), d') \<Longrightarrow> st = EFI_SUCCESS"
    "AllocatePool (fw_acpi F) n d = ((st, p), d') \<Longrightarrow> st = EFI_SUCCESS"
    "GetMemoryMap F (k + 4096) d = ((st, r'), d') \<Longrightarrow> st = EFI_SUCCESS"
    "try_exit F key 128 st d = (st', d') \<Longrightarrow> st' = EFI_SUCCESS"
proof -
  show "csmwrap_video_prepare_exitbs (fw_video F) v d \<noteq> None"
    using assms by (auto simp: services_ok_def csmwrap_video_prepare_exitbs_def Let_def split: prod.splits)
  show "st = EFI_SUCCESS" if "AllocatePages F n d = ((st, hp), d')"
    using assms that unfolding services_ok_def by (metis fst_conv)
  show "st = EFI_SUCCESS" if "AllocatePool (fw_acpi F) n d = ((st, p), d')"
    using assms that unfolding services_ok_def by (metis fst_conv)
  show "st = EFI_SUCCESS" if "GetMemoryMap F (k + 4096) d = ((st, r'), d')"
    using assms that unfolding services_ok_def by (metis fst_conv le_add2)
  show "st' = EFI_SUCCESS" if "try_exit F key 128 st d = (st', d')"
    using assms try_exit_succeeds [of 128 F key d st] that unfolding services_ok_def by (metis fst_conv)
qed

lemma em_memory_map_runs:
  assumes "services_ok F" "memory_map_ok F"
  shows "\<exists>s'. em_memory_map F s = Running s'"
proof -
  obtain x1 x2 sz0 x4 x5 d1 where g1: "GetMemoryMap F sizeof_EFI_MEMORY_DESCRIPTOR (dev s) = ((x1, x2, sz0, x4, x5), d1)"
    by (metis prod.exhaust)
  obtain st p d2 where a: "AllocatePool (fw_acpi F) (sz0 + 4096) d1 = ((st, p), d2)" by (metis prod.exhaust)
  obtain st2 bytes sz key desc d3 where g2: "GetMemoryMap F (sz0 + 4096) d2 = ((st2, bytes, sz, key, desc), d3)"
    by (metis prod.exhaust)
  obtain st3 d4 where t: "try_exit F key 128 st2 d3 = (st3, d4)" by (metis prod.exhaust)
  note ok = services_okD(3) [OF assms(1) a] services_okD(4) [OF assms(1) g2] services_okD(5) [OF assms(1) t]
  have "32 \<le> desc" using assms(2) g2 ok(2) unfolding memory_map_ok_def by blast
  then show ?thesis using g1 a g2 t ok
    by (auto simp: em_memory_map_def exit_boot_services_def Let_def build_e820_map_def e820_walk_fold)
qed

text \<open>
  The display: a graphics output protocol has a mode, and a PCI option ROM, if the device has one, is a chain of
  images that ends, in memory that is neither pool memory nor part of the loaded image.
\<close>

definition rom_region :: "'d pci_io \<Rightarrow> nat set" where
  "rom_region P = {pio_RomImage P ..< pio_RomImage P + unat (pio_RomSize P)}"

definition offers_gop :: "'d video_services \<Rightarrow> 'd gop \<Rightarrow> bool" where
  "offers_gop S g \<longleftrightarrow> (\<exists>h d st d'. HandleProtocol_gop S h d = ((st, g), d') \<and> \<not> EFI_ERROR st)"

definition offers_pci_io :: "'d video_services \<Rightarrow> 'd pci_io \<Rightarrow> bool" where
  "offers_pci_io S P \<longleftrightarrow> (\<exists>h d st d'. HandleProtocol_PciIo S h d = ((st, P), d') \<and> \<not> EFI_ERROR st)"

definition display_ok :: "'d firmware \<Rightarrow> csm_images \<Rightarrow> mem \<Rightarrow> bool" where
  "display_ok F I m0 \<longleftrightarrow>
     (\<forall>g. offers_gop (fw_video F) g \<longrightarrow> gop_Mode g \<noteq> None) \<and>
     (\<forall>P. offers_pci_io (fw_video F) P \<longrightarrow>
        (\<forall>m. (\<forall>x \<in> rom_region P. m x = m0 x) \<longrightarrow> rom_chain_ok m (pio_RomImage P) (unat (pio_RomSize P)) (pio_RomImage P)) \<and>
        (\<forall>n d st p d'. AllocatePool (fw_acpi F) n d = ((st, p), d') \<longrightarrow> {p ..< p + n} \<inter> rom_region P = {}) \<and>
        {Csm16_bin I ..< Csm16_bin I + sizeof_Csm16_bin I} \<inter> rom_region P = {})"

lemma GetPciLegacyRom_returns:
  assumes "rom_chain_ok m rom sz rom"
  shows "GetPciLegacyRom m crev vendor device rom sz \<noteq> None"
proof -
  have "\<exists>r. rom_scan m crev vendor device rom sz rom None = Some r"
    using rom_scan_images [OF assms, of crev vendor device None] unfolding Let_def by blast
  then show ?thesis by (auto simp: GetPciLegacyRom_def split: option.split prod.split)
qed

lemma find_gop_offered: "find_gop S hs st d = ((st', Some (h, g)), d') \<Longrightarrow> offers_gop S g"
  unfolding offers_gop_def by (induction S hs st d rule: find_gop.induct) (auto simp: Let_def split: prod.splits if_splits)

lemma FindGopPciDevice_offered:
  assumes "FindGopPciDevice S v d = Some (st, v', d')" "gop v = None" "vga_pci_io v = None"
  shows "gop v' = Some g \<Longrightarrow> offers_gop S g" and "vga_pci_io v' = Some P \<Longrightarrow> offers_pci_io S P"
  using assms unfolding offers_pci_io_def
  by (auto simp: FindGopPciDevice_def record_pci_io_def Let_def split: prod.splits if_splits option.splits dest: find_gop_offered)
    blast

lemma video_init_returns:
  assumes "gop v = None" "vga_pci_io v = None"
    and g: "\<forall>g. offers_gop S g \<longrightarrow> gop_Mode g \<noteq> None"
    and p: "\<forall>P. offers_pci_io S P \<longrightarrow>
      rom_chain_ok m (pio_RomImage P) (unat (pio_RomSize P)) (pio_RomImage P)"
  shows "\<exists>y. csmwrap_video_init S I m v d = Some y"
proof -
  have "FindGopPciDevice S v d \<noteq> None"
    using assms(1) by (auto simp: FindGopPciDevice_def Let_def split: prod.split option.split) (metis prod.exhaust)
  then obtain st v1 d1 where f: "FindGopPciDevice S v d = Some (st, v1, d1)" by (metis option.exhaust prod_cases3)
  note off = FindGopPciDevice_offered [OF f assms(1,2)]
  have n: "GetPciLegacyRom m 0x300 ven dvc (pio_RomImage P) (unat (pio_RomSize P)) \<noteq> None"
    if "vga_pci_io v1 = Some P" for P ven dvc
    using off(2) [OF that] p GetPciLegacyRom_returns by blast
  have oprom: "csmwrap_video_oprom_init m v1 d2 \<noteq> None" for d2
    by (cases "vga_pci_io v1") (auto simp: csmwrap_video_oprom_init_def Let_def n split: prod.split option.split sum.split)
  have sea: "csmwrap_video_seavgabios_init I v1 d2 \<noteq> None" for d2
    using off(1) g by (fastforce simp: csmwrap_video_seavgabios_init_def Let_def split: prod.splits option.splits)
  define d2 where "d2 = (if vga_pci_io v1 \<noteq> None then snd (csmwrap_pci_vgaarb v1 d1) else d1)"
  obtain st2 v2 d3 where o: "csmwrap_video_oprom_init m v1 d2 = Some (st2, v2, d3)" using oprom [of d2] by auto
  obtain st3 v3 d4 where w: "csmwrap_video_seavgabios_init I v1 d3 = Some (st3, v3, d4)" using sea [of d3] by auto
  have "st2 = EFI_SUCCESS \<or> v2 = v1" using oprom_init_cases [OF o] by (simp add: EFI_SUCCESS_def split: if_splits)
  then show ?thesis
    using w o by (cases "vga_pci_io v1") (auto simp: csmwrap_video_init_def f Let_def d2_def split: prod.split)
qed

lemma image_ok_same:
  assumes "image_ok I m" "same_image I m m'"
  shows "image_ok I m'"
proof -
  have "load32 m' (t + ct_AcpiRsdPtrPointer) = load32 m (t + ct_AcpiRsdPtrPointer)"
    if "find_table m sig (Csm16_bin I) (sizeof_Csm16_bin I) = Some t" "t + 91 \<le> Csm16_bin I + sizeof_Csm16_bin I" for sig t
  proof -
    have "Csm16_bin I \<le> t" using find_table_loop_found that(1) unfolding find_table_def by blast
    with that(2) assms(2) show ?thesis
      by (intro load_cong(2)) (auto simp: same_image_def ct_AcpiRsdPtrPointer_def)
  qed
  then show ?thesis
    using assms(1) find_table_same [OF assms(2)] unfolding image_ok_def Let_def by auto
qed

lemma acpi_init_out:
  assumes "acpi_init S ts target m a d = (ok, m', a', d')" "x < target \<or> target + 36 \<le> x"
  shows "m' x = m x"
proof -
  have "fst (acpi_find_rsdp ts target m a) x = m x"
    using assms(2)
    by (auto simp: acpi_find_rsdp_def Let_def sizeof_RSDP_2_0_def sizeof_RSDP_1_0_def memcpy_out split: option.splits)
  then show ?thesis using assms(1) by (auto simp: acpi_init_def Let_def split: prod.splits if_splits)
qed

lemma rsdp_target_image:
  assumes "em_csm_image I s = Running s'" "image_ok I (mem s)"
  shows "Csm16_bin I \<le> rsdp_target I s'" "rsdp_target I s' + 36 \<le> Csm16_bin I + sizeof_Csm16_bin I"
proof -
  note c = em_csm_image_found [OF assms(1)]
  define q where "q = unat (load32 (mem s) (csm_efi_table s' + ct_AcpiRsdPtrPointer))"
  define b where "b = 0x100000 - sizeof_Csm16_bin I"
  have q: "b \<le> q" "q + 36 \<le> 0x100000" "Csm16_bin I < 2 ^ 63" "b \<le> 0x100000" "sizeof_Csm16_bin I \<le> 0x38000"
    using assms(2) c(6) by (auto simp: image_ok_def Let_def q_def b_def)
  have base: "csm_bin_base s' = of_nat b"
    using c(4) q(5) by (simp add: b_def BIOSROM_END_def of_nat_diff)
  have ptr: "(ucast (load32 (mem s') (csm_efi_table s' + ct_AcpiRsdPtrPointer)) :: u64) = of_nat q"
    using c(1) by (simp add: q_def)
  have "of_nat (Csm16_bin I) + (of_nat q - of_nat b) = (of_nat (Csm16_bin I + (q - b)) :: u64)"
    using q(1) by (simp add: of_nat_diff)
  then have "rsdp_target I s' = unat (of_nat (Csm16_bin I + (q - b)) :: u64)"
    by (simp only: rsdp_target_def base ptr)
  moreover have "Csm16_bin I + (q - b) < 2 ^ 64"
  proof -
    have "(2 :: nat) ^ 63 + 0x100000 \<le> 2 ^ 64" by simp
    with q show ?thesis by linarith
  qed
  ultimately have "rsdp_target I s' = Csm16_bin I + (q - b)" by (simp only: unat_of_nat) simp
  then show "Csm16_bin I \<le> rsdp_target I s'" "rsdp_target I s' + 36 \<le> Csm16_bin I + sizeof_Csm16_bin I"
    using q by (simp_all add: b_def)
qed

lemma em_load_vgabios_pool:
  assumes "em_load_vgabios F s = Running s'" "pools_ok F I"
    and "\<forall>n d st p d'. AllocatePool (fw_acpi F) n d = ((st, p), d') \<longrightarrow> x \<notin> {p ..< p + n}"
  shows "mem s' x = mem s x"
proof -
  have "mem (read_vgabios F s) x = mem s x" for s
  proof -
    obtain st p d where a: "AllocatePool (fw_acpi F) 262144 (dev s) = ((st, p), d)" by (metis prod.exhaust)
    obtain st2 bytes d2 where b: "Read_vgabios F 262144 d = ((st2, bytes), d2)" by (metis prod.exhaust)
    have "length bytes \<le> 262144" using assms(2) b unfolding pools_ok_def by (metis fst_conv snd_conv)
    moreover have "x \<notin> {p ..< p + 262144}" using assms(3) a by blast
    ultimately show ?thesis using a b by (auto simp: read_vgabios_def Let_def store_bytes_def)
  qed
  then show ?thesis using assms(1) by (auto simp: em_load_vgabios_def Let_def split: prod.splits if_splits)
qed

lemma display_okD:
  assumes "display_ok F I m0"
  shows "\<forall>g. offers_gop (fw_video F) g \<longrightarrow> gop_Mode g \<noteq> None"
    and "\<lbrakk>offers_pci_io (fw_video F) P; \<forall>x \<in> rom_region P. m x = m0 x\<rbrakk> \<Longrightarrow>
      rom_chain_ok m (pio_RomImage P) (unat (pio_RomSize P)) (pio_RomImage P)"
    and "\<lbrakk>offers_pci_io (fw_video F) P; x \<in> rom_region P\<rbrakk> \<Longrightarrow>
      \<forall>n d st p d'. AllocatePool (fw_acpi F) n d = ((st, p), d') \<longrightarrow> x \<notin> {p ..< p + n}"
    and "\<lbrakk>offers_pci_io (fw_video F) P; x \<in> rom_region P\<rbrakk> \<Longrightarrow>
      x < Csm16_bin I \<or> Csm16_bin I + sizeof_Csm16_bin I \<le> x"
proof -
  note a = assms [unfolded display_ok_def]
  show "\<forall>g. offers_gop (fw_video F) g \<longrightarrow> gop_Mode g \<noteq> None"
    by (rule a [THEN conjunct1])
  assume p: "offers_pci_io (fw_video F) P"
  note b = a [THEN conjunct2, rule_format (no_asm), OF p]
  show "rom_chain_ok m (pio_RomImage P) (unat (pio_RomSize P)) (pio_RomImage P)" if "\<forall>x \<in> rom_region P. m x = m0 x"
    using b [THEN conjunct1] that by blast
  assume x: "x \<in> rom_region P"
  show "\<forall>n d st p d'. AllocatePool (fw_acpi F) n d = ((st, p), d') \<longrightarrow> x \<notin> {p ..< p + n}"
    using b [THEN conjunct2, THEN conjunct1] x by blast
  show "x < Csm16_bin I \<or> Csm16_bin I + sizeof_Csm16_bin I \<le> x"
    using b [THEN conjunct2, THEN conjunct2] x by (metis IntI atLeastLessThan_iff empty_iff linorder_not_le)
qed

lemma em_acpi_video_runs:
  assumes "em_csm_image I s3 = Running s4" "image_ok I (mem s3)" "display_ok F I m0"
    and "gop (video s4) = None" "vga_pci_io (video s4) = None"
    and rom: "\<And>P x. offers_pci_io (fw_video F) P \<Longrightarrow> x \<in> rom_region P \<Longrightarrow> mem s3 x = m0 x"
  shows "\<exists>s5. em_acpi_video F I s4 = Running s5"
proof -
  note disp = display_okD [OF assms(3)]
  obtain b m a d where ai: "acpi_init (fw_acpi F) (ConfigurationTable F) (rsdp_target I s4) (mem s4) (acpi s4) (dev s4) = (b, m, a, d)"
    by (metis prod.exhaust)
  have "m x = m0 x" if "offers_pci_io (fw_video F) P" "x \<in> rom_region P" for P x
    using acpi_init_out [OF ai, of x] rsdp_target_image [OF assms(1,2)] disp(4) [OF that] rom [OF that]
      em_csm_image_found(1) [OF assms(1)] by auto
  then have "rom_chain_ok m (pio_RomImage P) (unat (pio_RomSize P)) (pio_RomImage P)"
    if "offers_pci_io (fw_video F) P" for P
    using disp(2) [OF that] that by blast
  then obtain st v d' where "csmwrap_video_init (fw_video F) (img_vgabios I) m (video s4) d = Some (st, v, d')"
    using video_init_returns [OF assms(4,5) disp(1), of m] by (metis prod_cases3)
  with ai show ?thesis by (simp add: em_acpi_video_def)
qed

lemma first_phases_run:
  assumes "platform_ok F" "display_ok F I (mem s)" "pools_ok F I" "image_ok I (mem s)"
    and "find_table (mem s) EFI_COMPATIBILITY16_TABLE_SIGNATURE (Csm16_bin I) (sizeof_Csm16_bin I) \<noteq> None"
    and "gop (video s) = None" "vga_pci_io (video s) = None"
  shows "\<exists>s5. fold and_then [em_start F, em_load_vgabios F, em_unlock F, em_csm_image I, em_acpi_video F I] (Running s) = Running s5"
proof -
  note ok = platform_okD [OF assms(1)]
  have "\<exists>s1. em_start F s = Running s1"
    by (auto simp: em_start_def Let_def split: prod.splits dest: ok(1))
  then obtain s1 where s1: "em_start F s = Running s1" by blast
  obtain s2 where s2: "em_load_vgabios F s1 = Running s2" "same_image I (mem s1) (mem s2)" "gop (video s2) = gop (video s1)"
    "vga_pci_io (video s2) = vga_pci_io (video s1)" using em_load_vgabios_frame [OF assms(3) refl, of s1] by blast
  have "\<exists>s3. em_unlock F s2 = Running s3"
    by (auto simp: em_unlock_def Let_def split: prod.splits dest: ok(2))
  then obtain s3 where s3: "em_unlock F s2 = Running s3" by blast
  have v3: "gop (video s3) = None" "vga_pci_io (video s3) = None" "mem s3 = mem s2" "mem s1 = mem s"
    using em_unlock_keeps [OF s3] s2 em_start_keeps [OF s1] assms(6,7) by simp_all
  have "find_table (mem s3) EFI_COMPATIBILITY16_TABLE_SIGNATURE (Csm16_bin I) (sizeof_Csm16_bin I) \<noteq> None"
    using find_table_same [OF s2(2)] assms(4,5) v3 by (simp add: image_ok_def)
  then obtain t where t: "find_table (mem s3) EFI_COMPATIBILITY16_TABLE_SIGNATURE (Csm16_bin I) (sizeof_Csm16_bin I) = Some t"
    by blast
  have "sizeof_Csm16_bin I \<le> 0x38000" using assms(4) by (simp add: image_ok_def)
  then have "\<not> (of_nat BIOSROM_END - of_nat (sizeof_Csm16_bin I) :: u64) < of_nat VGABIOS_END"
    using bin_base_unat [of "sizeof_Csm16_bin I"] by (simp add: word_less_nat_alt VGABIOS_END_def)
  then obtain s4 where s4: "em_csm_image I s3 = Running s4" using t by (auto simp: em_csm_image_def Let_def)
  have img: "image_ok I (mem s3)" using image_ok_same [OF assms(4)] s2(2) v3 by simp
  have rom: "mem s3 x = mem s x" if "offers_pci_io (fw_video F) P" "x \<in> rom_region P" for P x
    using em_load_vgabios_pool [OF s2(1) assms(3) display_okD(3) [OF assms(2) that]] v3 by simp
  have "\<exists>s5. em_acpi_video F I s4 = Running s5"
    using em_acpi_video_runs [OF s4 img assms(2) _ _ rom] v3(1,2) em_csm_image_found(2) [OF s4] by simp
  then show ?thesis by (auto simp: s1 s2 s3 s4)
qed

lemma em_prepare_runs:
  assumes "services_ok F" "memory_map_ok F"
    and "fold and_then [em_start F, em_load_vgabios F, em_unlock F, em_csm_image I, em_acpi_video F I] (Running s) = Running s5"
  shows "\<exists>s'. em_prepare F I s = Running s'"
proof -
  note ok = services_okD [OF assms(1)]
  have "\<exists>s6. em_low_stub F I s5 = Running s6"
    by (auto simp: em_low_stub_def Let_def split: prod.splits dest: ok(2))
  then obtain s6 where s6: "em_low_stub F I s5 = Running s6" by blast
  have "\<exists>s7. em_prepare_exit F I s6 = Running s7"
    using ok(1) [of "video s6" "dev s6"] by (auto simp: em_prepare_exit_def Let_def split: prod.splits option.splits)
  then obtain s7 where s7: "em_prepare_exit F I s6 = Running s7" by blast
  obtain s8 where s8: "em_memory_map F s7 = Running s8" using em_memory_map_runs [OF assms(1,2)] by blast
  have "\<exists>s9. em_pic F s8 = Running s9" by (auto simp: em_pic_def Let_def split: prod.splits)
  then obtain s9 where s9: "em_pic F s8 = Running s9" by blast
  obtain s' where s': "em_copy_roms I s9 = Running s'" by (simp add: em_copy_roms_def Let_def)
  show ?thesis using assms(3) by (simp add: em_prepare_def s6 s7 s8 s9 s')
qed

section \<open>The tables in the low stub\<close>

lemma coreboot_frame:
  assumes "build_coreboot_table vt f pad m = (m', r)" "x < 0x500 \<or> 0x540 \<le> x"
  shows "m' x = m x"
proof -
  have "length (cb_framebuffer_bytes f pad) = 40" by (simp add: cb_framebuffer_bytes_def split: prod.splits)
  then show ?thesis
    using assms
    by (auto simp: build_coreboot_table_def Let_def CB_TABLE_START_def load32_store32 libc_memset_def fill_up
        block_fill_def store32_out store_bytes_out split: if_splits)
qed

text \<open>The bytes between the coreboot table and the memory map area stay from the low stub phase on.\<close>

lemma prepared_low:
  assumes "em_prepare F I s = Running s'" "pools_ok F I" "placed_ok I s'" "memory_map_ok F"
  obtains s5 s6 where "em_low_stub F I s5 = Running s6" "video s6 = video s'" "thunk_context s6 = thunk_context s'"
    "\<forall>x. 0x540 \<le> x \<and> x < low_e820_entries \<or> low_e820_map + 2560 \<le> x \<and> x < 0xC0000 \<longrightarrow> mem s' x = mem s6 x"
proof -
  from assms(1) obtain s3 s4 s5 s6 s7 s8 s9 where ph: "em_csm_image I s3 = Running s4" "em_acpi_video F I s4 = Running s5"
    "em_low_stub F I s5 = Running s6" "em_prepare_exit F I s6 = Running s7" "em_memory_map F s7 = Running s8"
    "em_pic F s8 = Running s9" "em_copy_roms I s9 = Running s'" by (rule em_prepareE)
  from ph(5) assms(2) obtain n d bytes sz key desc d' p area r where g: "GetMemoryMap F n d = ((EFI_SUCCESS, bytes, sz, key, desc), d')"
    and p: "0x100000 \<le> p" and bm: "build_e820_map (store_bytes p bytes (mem s7)) p sz desc e820_cleared = Some (area, r)"
    and ms: "mem s8 = store32 (csm_efi_table s7 + ct_E820Length) (20 * of_nat (e820_entries area))
      (store32 (csm_efi_table s7 + ct_E820Pointer) (of_nat low_e820_map) (store_e820 area (store_bytes p bytes (mem s7))))"
    and k8: "video s8 = video s7" "csm_bin_base s8 = csm_bin_base s7" "csm_efi_table s8 = csm_efi_table s7"
      "thunk_context s8 = thunk_context s7"
    by (rule em_memory_mapE)
  note k = k8 em_pic_keeps [OF ph(6)] em_prepare_exit_keeps [OF ph(4)] em_low_stub_keeps [OF ph(3)]
    em_acpi_video_keeps [OF ph(2)] em_copy_roms_keeps [OF ph(7)]
  note c = em_csm_image_found [OF ph(1)]
  have base: "csm_bin_base s9 = of_nat BIOSROM_END - of_nat (sizeof_Csm16_bin I)" using c(4) k by simp
  note roms = em_copy_roms_mem(1) [OF ph(7) assms(3) base]
  have "csm_efi_table s7 = csm_efi_table s'" "Csm16_bin I \<le> csm_efi_table s'"
    using c(6) find_table_loop_found [of "mem s3"] k unfolding find_table_def by auto
  then have t: "0x100000 \<le> csm_efi_table s7" using assms(3) by (simp add: placed_ok_def)
  have "32 \<le> desc" using assms(4) g unfolding memory_map_ok_def by blast
  then have "length (e820_map area) = 128"
    using build_e820_map_invar [OF _ bm e820_cleared_invar] by (simp add: e820_invar_def E820_MAX_ENTRIES_def)
  note e = store_e820_out [OF this]
  have cb: "mem s7 x = mem s6 x" if "0x540 \<le> x" for x
    using ph(4) that by (auto simp: em_prepare_exit_def Let_def coreboot_frame split: prod.splits option.splits)
  have "mem s' x = mem s6 x" if "0x540 \<le> x \<and> x < low_e820_entries \<or> low_e820_map + 2560 \<le> x \<and> x < 0xC0000" for x
  proof -
    have x: "x < 0xC0000" "0x540 \<le> x" "x < low_e820_entries \<or> low_e820_map + 2560 \<le> x"
      using that by (auto simp: layout_defs)
    have "mem s' x = mem s8 x" using roms [OF x(1)] k(5) by simp
    also have "\<dots> = mem s7 x"
      using x t p by (auto simp: ms store32_out e store_bytes_out ct_E820Pointer_def ct_E820Length_def)
    finally show ?thesis using cb [OF x(2)] by simp
  qed
  then show ?thesis using ph(3) k by (intro that [of s5 s6]) auto
qed

lemma store16_out [mem_simps]: "x < a \<or> a + 2 \<le> x \<Longrightarrow> store16 a w m x = m x"
  by (simp add: store16_def store_bytes_out)

lemma fill_oprom_out: "x < low_vga_oprom_table + 4 \<or> low_vga_oprom_table + 8 \<le> x \<Longrightarrow> fill_oprom_table v m x = m x"
  by (auto simp: fill_oprom_table_def Let_def store16_out)

lemma fill_init_out: "x < low_init_table \<or> low_init_table + 40 \<le> x \<Longrightarrow> fill_init_table b h m x = m x"
  by (auto simp: fill_init_table_def Let_def store32_out)

lemma fill_init_fields:
  "load32 (fill_init_table b h m) low_init_table = 0x80000"
  "load32 (fill_init_table b h m) (low_init_table + 4) = ucast h"
  "load32 (fill_init_table b h m) (low_init_table + 8) = HIPMM_SIZE"
  "load32 (fill_init_table b h m) (low_init_table + 24) = of_nat LOW_STUB_BASE"
  "load32 (fill_init_table b h m) (low_init_table + 28) = of_nat sizeof_low_stub"
  "load32 (fill_init_table b h m) (low_init_table + 32) = ucast b"
  "load32 (fill_init_table b h m) (low_init_table + 36) = of_nat CONVEN_END - ucast b"
  by (simp_all add: fill_init_table_def Let_def load32_store32 load32_store32_out)

lemma em_low_stub_tables:
  assumes "em_low_stub F I s = Running s'" "thunk_layout (img_thunk I)" "length (m16 (img_thunk I)) \<le> 4096"
  obtains h d d' m where "AllocatePages F 1024 d = ((EFI_SUCCESS, h), d')"
    "mem s' = fill_oprom_table (video s) (fill_init_table 0x28000 h m)"
    "\<forall>x. 0x27000 \<le> x \<and> x < 0x80000 \<longrightarrow> m x = 0"
    "RealModeBuffer (thunk_context s') = 0x26000" "RealModeBufferSize (thunk_context s') = 4096"
proof -
  obtain st h d where a: "AllocatePages F 1024 (dev s) = ((st, h), d)" by (metis prod.exhaust)
  define m1 where "m1 = block_fill 0x20000 0 0x60000 (mem s)"
  obtain r m2 where sm: "set_smbios_table (ConfigurationTable F) m1 = (r, m2)" by (rule prod.exhaust)
  define m3 where "m3 = store32 (low_boot_table + 4) (load32 m2 (csm_efi_table s + ct_AcpiRsdPtrPointer)) m2"
  obtain p ctx m4 where th: "LegacyBiosInitializeThunkAndTable (img_thunk I) 0x20000 23480 m3 = (p, ctx, m4)"
    by (rule prod_cases3)
  have p: "p = 0x28000" "RealModeBuffer ctx = 0x26000"
    using th by (auto simp: LegacyBiosInitializeThunkAndTable_def Let_def Thunk.EFI_PAGE_SIZE_def)
  have lay: "RealModeBufferSize ctx = 4096" "\<forall>x. x < 0x26000 \<or> 0x27000 \<le> x \<longrightarrow> m4 x = m3 x"
    using thunk_init_layout [OF assms(2,3) _ th] p by simp_all
  have ok: "st = EFI_SUCCESS" using assms(1) a by (simp add: em_low_stub_def HIPMM_SIZE_def Let_def split: if_splits)
  have s': "mem s' = fill_oprom_table (video s) (fill_init_table 0x28000 h m4)" "thunk_context s' = ctx"
    using assms(1) a ok sm th p
    by (auto simp: em_low_stub_def HIPMM_SIZE_def Let_def libc_memset_def fill_up m1_def m3_def layout_defs)
  have "m3 x = 0" if "0x27000 \<le> x" "x < 0x80000" for x
  proof -
    have "m3 x = m2 x" using that by (simp add: m3_def store32_out layout_defs)
    also have "m2 x = m1 x" using that sm by (auto simp: set_smbios_table_def Let_def store32_out layout_defs split: if_splits)
    finally show ?thesis using that by (simp add: m1_def block_fill_def)
  qed
  then have "\<forall>x. 0x27000 \<le> x \<and> x < 0x80000 \<longrightarrow> m4 x = 0" using lay(2) by simp
  then show ?thesis using that [of "dev s" h d m4] a ok s' p lay(1) by blast
qed

section \<open>Giving up\<close>

lemma em_low_stub_high:
  assumes "em_low_stub F I s = Running s'" "thunk_layout (img_thunk I)" "length (m16 (img_thunk I)) \<le> 4096" "0x80000 \<le> x"
  shows "mem s' x = mem s x"
proof -
  obtain st h d where a: "AllocatePages F 1024 (dev s) = ((st, h), d)" by (metis prod.exhaust)
  define m1 where "m1 = block_fill 0x20000 0 0x60000 (mem s)"
  obtain r m2 where sm: "set_smbios_table (ConfigurationTable F) m1 = (r, m2)" by (rule prod.exhaust)
  define m3 where "m3 = store32 (low_boot_table + 4) (load32 m2 (csm_efi_table s + ct_AcpiRsdPtrPointer)) m2"
  obtain p ctx m4 where th: "LegacyBiosInitializeThunkAndTable (img_thunk I) 0x20000 23480 m3 = (p, ctx, m4)"
    by (rule prod_cases3)
  have "RealModeBuffer ctx = 0x26000"
    using th by (auto simp: LegacyBiosInitializeThunkAndTable_def Let_def Thunk.EFI_PAGE_SIZE_def)
  then have "m4 x = m3 x" using thunk_init_layout [OF assms(2,3) _ th] assms(4) by simp
  moreover have "mem s' x = m4 x"
    using assms(1,4) a sm th
    by (auto simp: em_low_stub_def HIPMM_SIZE_def Let_def libc_memset_def fill_up m1_def m3_def layout_defs
        fill_oprom_out fill_init_out split: if_splits)
  moreover have "m3 x = m1 x"
    using assms(4) sm by (auto simp: m3_def set_smbios_table_def Let_def store32_out layout_defs split: if_splits)
  ultimately show ?thesis using assms(4) by (simp add: m1_def block_fill_def)
qed

lemma em_prepare_ReturnedE:
  assumes "em_prepare F I s = Returned st s'"
  obtains (start) "em_start F s = Returned st s'"
  | (unlock) s1 s2 where "em_start F s = Running s1" "em_load_vgabios F s1 = Running s2" "em_unlock F s2 = Returned st s'"
  | (image) s1 s2 s3 where "em_start F s = Running s1" "em_load_vgabios F s1 = Running s2" "em_unlock F s2 = Running s3"
      "em_csm_image I s3 = Returned st s'"
  | (stub) s1 s2 s3 s4 s5 where "em_start F s = Running s1" "em_load_vgabios F s1 = Running s2" "em_unlock F s2 = Running s3"
      "em_csm_image I s3 = Running s4" "em_acpi_video F I s4 = Running s5" "em_low_stub F I s5 = Returned st s'"
  | (exit) s1 s2 s3 s4 s5 s6 s7 where "em_start F s = Running s1" "em_load_vgabios F s1 = Running s2"
      "em_unlock F s2 = Running s3" "em_csm_image I s3 = Running s4" "em_acpi_video F I s4 = Running s5"
      "em_low_stub F I s5 = Running s6" "em_prepare_exit F I s6 = Running s7" "em_memory_map F s7 = Returned st s'"
proof -
  have n: "em_load_vgabios F x \<noteq> Returned st s'" "em_acpi_video F I x \<noteq> Returned st s'" "em_prepare_exit F I x \<noteq> Returned st s'"
    "em_pic F x \<noteq> Returned st s'" "em_copy_roms I x \<noteq> Returned st s'" for x
    by (auto simp: em_load_vgabios_def em_acpi_video_def em_prepare_exit_def em_pic_def em_copy_roms_def Let_def
        split: prod.splits option.splits if_splits)
  from assms show ?thesis
    unfolding em_prepare_def fold.simps comp_apply id_apply and_then_Returned and_then_Running
    using start unlock image stub exit n by auto
qed

text \<open>Up to the phase before the low stub, memory below 1 MiB does not change.\<close>

lemma acpi_phase_high:
  assumes "pools_ok F I" "image_ok I (mem s)" "em_start F s = Running s1" "em_load_vgabios F s1 = Running s2"
    "em_unlock F s2 = Running s3" "em_csm_image I s3 = Running s4" "em_acpi_video F I s4 = Running s5" "x < 0x100000"
  shows "mem s5 x = mem s x"
proof -
  note f = em_load_vgabios_frame [OF assms(1,4)]
  have m: "mem s1 = mem s" "mem s3 = mem s2" "mem s4 = mem s3"
    using em_start_keeps [OF assms(3)] em_unlock_keeps [OF assms(5)] em_csm_image_found [OF assms(6)] by simp_all
  have same: "same_image I (mem s) (mem s3)" using f m by auto
  have "image_ok I (mem s3)" using image_ok_same [OF assms(2) same] .
  then have "0x100000 \<le> rsdp_target I s4"
    using rsdp_target_image [OF assms(6)] by (auto simp: image_ok_def)
  then have "mem s5 x = mem s4 x"
    using assms(7,8) acpi_init_out [of "fw_acpi F" "ConfigurationTable F" "rsdp_target I s4" "mem s4" "acpi s4" "dev s4"]
    by (auto simp: em_acpi_video_def Let_def split: prod.splits option.splits)
  then show ?thesis using f m assms(8) by auto
qed

lemma em_memory_map_returned:
  assumes "em_memory_map F s = Returned st s'" "pools_ok F I"
  shows "st = - 1 \<and> (\<forall>x < 0x100000. mem s' x = mem s x)"
proof -
  have "\<forall>x < 0x100000. mem s0 x = mem s x" if "exit_boot_services F s = Inl s0" for s0
  proof -
    obtain x1 x2 sz0 x4 x5 d1 where g1: "GetMemoryMap F sizeof_EFI_MEMORY_DESCRIPTOR (dev s) = ((x1, x2, sz0, x4, x5), d1)"
      by (metis prod.exhaust)
    obtain st p d2 where a: "AllocatePool (fw_acpi F) (sz0 + 4096) d1 = ((st, p), d2)" by (metis prod.exhaust)
    have "st = EFI_SUCCESS \<Longrightarrow> 0x100000 \<le> p" using assms(2) a unfolding pools_ok_def by blast
    then show ?thesis using that g1 a
      by (auto simp: exit_boot_services_def Let_def store_bytes_out split: prod.splits if_splits)
  qed
  then show ?thesis using assms(1)
    by (auto simp: em_memory_map_def Let_def split: sum.splits prod.splits option.splits)
qed

end
