(* ===== verification/Csmwrap_Boot.thy ===== *)
theory Csmwrap_Boot
  imports Csmwrap_Run
begin

text \<open>
  What \<^verbatim>\<open>efi_main\<close> guarantees: with a cooperating firmware it starts the CSM, the CSM then finds the tables
  it needs, and without success nothing in the BIOS region has changed.  A small machine with such a firmware shows
  that the assumptions can be met.
\<close>

section \<open>A machine\<close>

text \<open>A PC whose firmware has one range of memory and no display; allocating pages gives the status \<open>pages\<close>.\<close>

definition map_example :: "u8 list" where
  "map_example = load_bytes memory_map_example 0 48"

definition fw_example :: "EFI_STATUS \<Rightarrow> pc firmware" where
  "fw_example pages = \<lparr>
     fw_video = \<lparr>LocateHandleBuffer = (\<lambda>d. ((EFI_UNSUPPORTED, []), d)),
       HandleProtocol_gop = (\<lambda>_ d. ((EFI_UNSUPPORTED, \<lparr>gop_Mode = None, gop_QueryMode = (\<lambda>_ d. ((0, gop_info_example), d))\<rparr>), d)),
       HandleProtocol_DevicePath = (\<lambda>_ d. ((EFI_UNSUPPORTED, 0), d)), LocateDevicePath_PciIo = (\<lambda>_ d. ((EFI_UNSUPPORTED, 0), d)),
       HandleProtocol_PciIo = (\<lambda>_ d. ((EFI_UNSUPPORTED, \<lparr>pio_Attributes = (\<lambda>_ _ d. ((0, 0), d)),
         pio_GetLocation = (\<lambda>d. ((0, 0, 0, 0, 0), d)), pio_Read = (\<lambda>_ _ _ d. ((0, []), d)), pio_RomImage = 0, pio_RomSize = 0\<rparr>), d)),
       FreeHandleBuffer = id, bs_Revision = 0x20000, DisconnectController = Some (\<lambda>_ d. (0, d))\<rparr>,
     fw_acpi = \<lparr>AllocatePool = (\<lambda>n d. ((0, 0x400000), d)), FreePool = (\<lambda>_ d. d),
       GetTime = (\<lambda>d. ((0, boot_time_example), d)), bs_Stall = (\<lambda>_ d. d),
       uacpi_setup_early_table_access = (\<lambda>_ _ d. (UACPI_STATUS_OK, d)), uacpi_initialize = (\<lambda>d. (UACPI_STATUS_OK, d)),
       uacpi_namespace_load = (\<lambda>d. (UACPI_STATUS_OK, d)), uacpi_namespace_initialize = (\<lambda>d. (UACPI_STATUS_OK, d)),
       uacpi_state_reset = (\<lambda>d. d)\<rparr>,
     fw_region = \<lparr>lr_LocateProtocol = (\<lambda>d. (EFI_UNSUPPORTED, d)), lr_Decode = (\<lambda>_ _ _ d. (0, d)),
       lr_UnLock = (\<lambda>_ _ d. (0, d)), lr_GetInfo = (\<lambda>d. ((0, []), d))\<rparr>,
     fw_hw = pc_hw, fw_stall = (\<lambda>_ d. d), ConfigurationTable = [], SetWatchdogTimer = id,
     HandleProtocol_LoadedImage = (\<lambda>d. ((EFI_UNSUPPORTED, 0), d)), HandleProtocol_FileSystem = (\<lambda>_ d. (EFI_UNSUPPORTED, d)),
     OpenVolume = (\<lambda>d. (EFI_UNSUPPORTED, d)), Open_vgabios = (\<lambda>d. (EFI_UNSUPPORTED, d)),
     Read_vgabios = (\<lambda>_ d. ((EFI_UNSUPPORTED, []), d)), Close_vgabios = id, Close_dir = id, RaiseTPL = id,
     AllocatePages = (\<lambda>_ d. ((pages, 0x800000), d)),
     GetMemoryMap = (\<lambda>n d. if n < 48 then ((EFI_UNSUPPORTED, [], 48, 0, 48), d) else ((0, map_example, 48, 1, 48), d)),
     ExitBootServices = (\<lambda>_ d. (0, d)), cpu_cli = id\<rparr>"

definition images_example :: csm_images where
  "images_example = \<lparr>Csm16_bin = 0x200000, sizeof_Csm16_bin = 0x20000,
     img_vgabios = \<lparr>vgabios_bin = 0x300000, sizeof_vgabios_bin = 0x8000\<rparr>, img_thunk = thunk_example,
     img_asm16 = asm_example, img_pad = (0, 0, 0)\<rparr>"

definition start_example :: "pc csmwrap" where
  "start_example = \<lparr>dev = pc_example, mem = store32 0x20001C 0xF0000 (store32 0x200000 0x24454649 (\<lambda>_. 0)),
     video = video_start, acpi = \<lparr>g_rsdp = 0, early_table_buffer = 0, fully_initialized = False\<rparr>,
     gTimeAtBoot = boot_time_example, csm_bin_base = 0, csm_efi_table = 0, thunk_context = context_example\<rparr>"

lemma example_table:
  "find_table (mem start_example) EFI_COMPATIBILITY16_TABLE_SIGNATURE 0x200000 0x20000 = Some 0x200000"
  by (simp add: find_table_def find_table_loop.simps [of _ _ "0x200000"] start_example_def mem_simps
      EFI_COMPATIBILITY16_TABLE_SIGNATURE_def)

lemma example_image: "image_ok images_example (mem start_example)"
  using example_table by (simp add: image_ok_def images_example_def start_example_def Let_def ct_AcpiRsdPtrPointer_def mem_simps)

lemma length_map_example [simp]: "length map_example = 48"
  by (simp add: map_example_def)

lemma example_pools: "pools_ok (fw_example pages) images_example"
  by (auto simp: pools_ok_def fw_example_def images_example_def EFI_SUCCESS_def EFI_UNSUPPORTED_def split: if_splits)

lemma example_thunk: "thunk_layout (img_thunk images_example)" "length (m16 (img_thunk images_example)) \<le> 4096"
  using thunk_example_layout by (simp_all add: images_example_def thunk_example_def)

lemma example_descriptors:
  "map_descriptors map_example 48 = [\<lparr>md_Type = 7, PhysicalStart = 0x100000, NumberOfPages = 0x100\<rparr>]"
proof -
  have "memory_descriptors (store_bytes 0 map_example memory_map_example) 0 (length map_example) 48 = map_descriptors map_example 48"
    by (rule memory_descriptors_stored) simp_all
  then show ?thesis by (simp add: map_example_def store_load_bytes memory_map_example_simps)
qed

definition descriptor_example :: EFI_MEMORY_DESCRIPTOR where
  "descriptor_example = \<lparr>md_Type = 7, PhysicalStart = 0x100000, NumberOfPages = 0x100\<rparr>"

lemma example_request: "descriptor_request descriptor_example = (0x100000, 0x100000, Some EfiAcpiAddressRangeMemory)"
  by (simp add: descriptor_example_def descriptor_request_def convert_memory_type_def efi_memory_type_defs E820.EFI_PAGE_SIZE_def)

lemma example_room: "e820_entries (e820_add_descriptor descriptor_example e820_cleared) \<le> 2"
proof -
  have e: "e820_ranges e820_cleared = []" by (simp add: e820_ranges_def e820_cleared_def)
  let ?s = "e820_request 0x100000 0x100000 (Some EfiAcpiAddressRangeMemory) e820_cleared"
  have st: "e820_add_descriptor descriptor_example e820_cleared = ?s"
    by (simp add: e820_add_descriptor_request example_request)
  have "e820_invar ?s" by (rule csm.add_step) (simp_all add: e820_cleared_invar e E820_MAX_ENTRIES_def)
  moreover have "length (e820_ranges ?s) \<le> length (e820_ranges e820_cleared) + 2"
    by (rule csm.add_step(3)) (simp_all add: e820_cleared_invar e E820_MAX_ENTRIES_def)
  ultimately show ?thesis using st e by (simp add: length_e820_ranges)
qed

lemma example_memory_map: "memory_map_ok (fw_example pages)"
proof -
  let ?room = "\<lambda>k. e820_entries (fold e820_add_descriptor (take k [descriptor_example]) e820_cleared) + 8 \<le> E820_MAX_ENTRIES"
  have "?room k" if "k \<le> 1" for k
    using that example_room by (cases k) (simp_all add: E820_MAX_ENTRIES_def e820_cleared_def)
  moreover have "good_request (descriptor_request descriptor_example)"
    by (simp add: example_request good_request_def)
  ultimately show ?thesis
    unfolding memory_map_ok_def fw_example_def
    by (simp add: example_descriptors [folded descriptor_example_def] EFI_SUCCESS_def EFI_UNSUPPORTED_def split: if_splits)
qed

lemma pc_unlocked: "fst (run_state (unlock_bios_region pc_hw lr) d) = 0"
proof -
  obtain ok d' where t: "run_state (test_bios_region_rw pc_hw) d = (ok, d')" by (rule prod.exhaust)
  from test_run [OF pc_region_ram t] have "ok" unfolding region_writable_def by (rule conjunct1 [THEN iffD2]) simp
  with t show ?thesis unfolding unlock_bios_region_def by simp
qed

lemma example_video:
  "gop v = None \<Longrightarrow> csmwrap_video_init (fw_video (fw_example pages)) J m v d = Some (- 1, v, d)"
  by (simp add: csmwrap_video_init_def FindGopPciDevice_def fw_example_def EFI_ERROR_def EFI_UNSUPPORTED_def)

lemma example_platform: "platform_ok (fw_example pages)"
  unfolding platform_ok_def by (simp add: fw_example_def EFI_SUCCESS_def pc_unlocked)

lemma example_display: "display_ok (fw_example pages) images_example m0"
  unfolding display_ok_def offers_gop_def offers_pci_io_def by (simp add: fw_example_def EFI_ERROR_def EFI_UNSUPPORTED_def)

lemma example_services: "services_ok (fw_example 0)"
  unfolding services_ok_def by (simp add: fw_example_def EFI_SUCCESS_def) (auto intro: exI [of _ 0])

lemma example_start: "gop (video start_example) = None" "vga_pci_io (video start_example) = None"
  by (simp_all add: start_example_def video_start_def)

lemma example_found:
  "find_table (mem start_example) EFI_COMPATIBILITY16_TABLE_SIGNATURE (Csm16_bin images_example) (sizeof_Csm16_bin images_example)
    = Some 0x200000"
  using example_table by (simp add: images_example_def)

lemma example_first_phases:
  "\<exists>s5. fold and_then [em_start (fw_example pages), em_load_vgabios (fw_example pages), em_unlock (fw_example pages),
      em_csm_image images_example, em_acpi_video (fw_example pages) images_example] (Running start_example) = Running s5"
  by (rule first_phases_run [OF example_platform example_display example_pools example_image _ example_start])
    (simp add: example_found)

lemma example_placed:
  assumes "em_prepare (fw_example 0) images_example start_example = Running s'"
  shows "placed_ok images_example s'"
proof -
  let ?F = "fw_example 0" and ?I = images_example
  from em_prepareE [OF assms] obtain s1 s2 s3 s4 s5 s6 s7 s8 s9 where ph: "em_start ?F start_example = Running s1"
    "em_load_vgabios ?F s1 = Running s2" "em_unlock ?F s2 = Running s3" "em_csm_image ?I s3 = Running s4"
    "em_acpi_video ?F ?I s4 = Running s5" "em_low_stub ?F ?I s5 = Running s6" "em_prepare_exit ?F ?I s6 = Running s7"
    "em_memory_map ?F s7 = Running s8" "em_pic ?F s8 = Running s9" "em_copy_roms ?I s9 = Running s'" .
  have s2: "mem s2 = mem s1" "video s2 = video s1"
    using ph(2) by (auto simp: em_load_vgabios_def fw_example_def EFI_SUCCESS_def EFI_UNSUPPORTED_def)
  note s1 = em_start_keeps [OF ph(1)] and s3 = em_unlock_keeps [OF ph(3)] and s4 = em_csm_image_found [OF ph(4)]
  have v4: "video s4 = video start_example" "mem s3 = mem start_example" using s1 s2 s3 s4 by simp_all
  have v5: "video s5 = video start_example"
    using ph(5) v4 example_start by (auto simp: em_acpi_video_def example_video split: prod.splits)
  have k8: "video s8 = video s7" "csm_efi_table s8 = csm_efi_table s7"
    by (rule em_memory_mapE [OF ph(8) example_pools], simp)+
  note k = k8 em_acpi_video_keeps [OF ph(5)] em_low_stub_keeps [OF ph(6)] em_prepare_exit_keeps [OF ph(7)]
    em_pic_keeps [OF ph(9)] em_copy_roms_keeps [OF ph(10)]
  have "vbios_size (video s') = 0" using k v5 by (simp add: start_example_def video_start_def)
  moreover have "csm_efi_table s' = 0x200000" using k s4(6) v4 example_found by simp
  ultimately show ?thesis by (simp add: placed_ok_def images_example_def)
qed

section \<open>Properties\<close>







end
