(* ===== verification/E820_Handover.thy ===== *)
theory E820_Handover
  imports Csm16 Csmwrap_Boot
begin

text \<open>
  The memory map on its way from UEFI through CSMWrap to SeaBIOS: \<^verbatim>\<open>efi_main\<close> of \<^verbatim>\<open>src/csmwrap.c\<close> writes it into the
  low stub with \<^verbatim>\<open>build_e820_map\<close> and names it in the table of the CSM image; \<^verbatim>\<open>handle_csm_0002\<close> of
  \<^verbatim>\<open>seabios/src/fw/csm.c\<close> adds each entry to the map of SeaBIOS.  Both maps are instances of \<open>range_store\<close>, so
  the result is stated over addresses.
\<close>

section \<open>Maps as requests\<close>

text \<open>Painting the ranges of a sorted map reproduces it; addresses outside keep their value.\<close>

definition range_request :: "'t range \<Rightarrow> 't request" where
  "range_request r = (lo r, hi r - lo r, Some (ty r))"

lemma paint_ranges:
  "rm_wf rs \<Longrightarrow> paint (map range_request rs) a v = (case rm_lookup rs a of None \<Rightarrow> v | Some t \<Rightarrow> Some t)"
proof (induction rs arbitrary: v)
  case (Cons r rs)
  have "rm_lookup rs a = None" if "covers r a"
    using Cons.prems that rm_lookup_below [of rs "hi r" a] by (simp add: covers_def)
  then show ?case using Cons by (auto simp: range_request_def covers_def split: option.splits)
qed simp

lemma rm_lookup_lo: "rm_wf rs \<Longrightarrow> r \<in> set rs \<Longrightarrow> rm_lookup rs (lo r) = Some (ty r)"
proof (induction rs)
  case (Cons q rs)
  then show ?case by (cases "r = q") (auto simp: covers_def)
qed simp

lemma rm_wf_less: "rm_wf rs \<Longrightarrow> r \<in> set rs \<Longrightarrow> lo r < hi r"
  by (induction rs) auto

lemma paint_SomeD: "paint qs a v = Some t \<Longrightarrow> v = Some t \<or> (\<exists>st sz. (st, sz, Some t) \<in> set qs)"
  by (induction qs a v rule: paint.induct) (auto split: if_splits)

lemma convert_memory_type_not_hole: "convert_memory_type t \<noteq> E820_HOLE"
  by (simp add: convert_memory_type_def e820_type_defs E820_HOLE_def)

lemma prepared_ranges:
  assumes "em_prepare F I s = Running s'" "pools_ok F I" "placed_ok I s'" "memory_map_ok F"
  obtains n d bytes key desc d' area where
    "GetMemoryMap F n d = ((EFI_SUCCESS, bytes, length bytes, key, desc), d')" "e820_invar area" "rm_wf (e820_ranges area)"
    "length (e820_ranges area) \<le> 2 * length (map_descriptors bytes desc) + 8"
    "\<forall>a. rm_lookup (e820_ranges area) a =
      (if a < 0x80000 then Some EfiAcpiAddressRangeMemory else if a < 0x100000 then Some EfiAcpiAddressRangeReserved
       else paint (map descriptor_request (map_descriptors bytes desc)) a None)"
    "load32 (mem s') (placed_table I s' + ct_E820Pointer) = of_nat low_e820_map"
    "load32 (mem s') (placed_table I s' + ct_E820Length) = 20 * of_nat (e820_entries area)"
    "\<forall>i < e820_entries area. load_bytes (mem s') (low_e820_map + 20 * i) 20 = e820_entry_bytes (e820_map area ! i)"
proof -
  from assms obtain n d bytes key desc d' area p m where
    g: "GetMemoryMap F n d = ((EFI_SUCCESS, bytes, length bytes, key, desc), d')"
    and b: "build_e820_map (store_bytes p bytes m) p (length bytes) desc e820_cleared = Some (area, 0)" "e820_invar area"
    and desc: "32 \<le> desc" "desc dvd length bytes"
    and loads: "load32 (mem s') (placed_table I s' + ct_E820Pointer) = of_nat low_e820_map"
      "load32 (mem s') (placed_table I s' + ct_E820Length) = 20 * of_nat (e820_entries area)"
      "\<forall>i < e820_entries area. load_bytes (mem s') (low_e820_map + 20 * i) 20 = e820_entry_bytes (e820_map area ! i)"
    by (rule prepared_e820)
  note ok = assms(4) [unfolded memory_map_ok_def, rule_format (no_asm), OF g, THEN conjunct2, THEN conjunct2, THEN conjunct2]
  have c: "e820_entries e820_cleared = 0" "length (e820_map e820_cleared) = E820_MAX_ENTRIES" "0 < desc"
    using desc by (simp_all add: e820_cleared_def)
  note built = e820_built [OF c, of "store_bytes p bytes m" p "length bytes", unfolded memory_descriptors_stored [OF desc],
      OF ok [THEN conjunct1] ok [THEN conjunct2]]
  then have "rm_wf (e820_ranges area)" "length (e820_ranges area) \<le> 2 * length (map_descriptors bytes desc) + 8"
    "\<forall>a. rm_lookup (e820_ranges area) a =
      (if a < 0x80000 then Some EfiAcpiAddressRangeMemory else if a < 0x100000 then Some EfiAcpiAddressRangeReserved
       else paint (map descriptor_request (map_descriptors bytes desc)) a None)"
    unfolding b(1) by simp_all
  then show ?thesis using that [OF g b(2) _ _ _ loads] by blast
qed

text \<open>What SeaBIOS reads: one request for every entry of the map in the low stub.\<close>

lemma csm_add_e820_requests:
  assumes "e820_invar area" "compat32 L E820Pointer c = of_nat low_e820_map"
    and "compat32 L E820Length c = 20 * of_nat (e820_entries area)"
    and "\<forall>i < e820_entries area. load_bytes (ram c) (low_e820_map + 20 * i) 20 = e820_entry_bytes (e820_map area ! i)"
  shows "emap (csm_add_e820 L c) =
    fold (\<lambda>(st, sz, t). sea_request st sz t) (map range_request (e820_ranges area)) (emap c)"
proof -
  have n: "e820_entries area \<le> length (e820_map area)" "e820_entries area \<le> 128"
    using assms(1) by (auto simp: e820_invar_def E820_MAX_ENTRIES_def)
  have "unat (20 * of_nat (e820_entries area) :: u32) = 20 * e820_entries area"
    using n(2) by (simp add: unat_word_ariths unat_of_nat)
  then have len: "unat (compat32 L E820Length c) div 20 = e820_entries area" using assms(3) by simp
  have p: "unat (compat32 L E820Pointer c) = low_e820_map" by (simp add: assms(2) layout_defs)
  have rs: "e820_ranges area = map (\<lambda>i. entry_range (e820_map area ! i)) [0..<e820_entries area]"
    using n(1) by (auto simp: e820_ranges_def intro: nth_equalityI)
  have "sea_e820_add (load64 (ram c) (low_e820_map + 20 * i)) (load64 (ram c) (low_e820_map + 20 * i + 8))
      (load32 (ram c) (low_e820_map + 20 * i + 16)) =
      (\<lambda>(st, sz, t). sea_request st sz t) (range_request (entry_range (e820_map area ! i)))" if "i \<in> set [0..<e820_entries area]" for i
    using that assms(4) e820_entry_fields [of "ram c" "low_e820_map + 20 * i" "e820_map area ! i"]
    by (simp add: range_request_def sea_request_def fun_eq_iff)
  then have "fold (\<lambda>i. sea_e820_add (load64 (ram c) (low_e820_map + 20 * i)) (load64 (ram c) (low_e820_map + 20 * i + 8))
      (load32 (ram c) (low_e820_map + 20 * i + 16))) [0..<e820_entries area] (emap c) =
    fold (\<lambda>i. (\<lambda>(st, sz, t). sea_request st sz t) (range_request (entry_range (e820_map area ! i)))) [0..<e820_entries area] (emap c)"
    by (intro fold_cong refl)
  then show ?thesis unfolding csm_add_e820_def Let_def len p rs by (simp add: fold_map comp_def)
qed

text \<open>Requests of the prepared map are such that SeaBIOS can honour them.\<close>

lemma prepared_requests_good:
  assumes "rm_wf (e820_ranges area)"
    and "\<forall>a. rm_lookup (e820_ranges area) a =
      (if a < 0x80000 then Some EfiAcpiAddressRangeMemory else if a < 0x100000 then Some EfiAcpiAddressRangeReserved
       else paint (map descriptor_request qs) a None)"
  shows "list_all good_request (map range_request (e820_ranges area))"
    and "list_all (\<lambda>(st, sz, t). pred_option (\<lambda>y. y \<noteq> E820_HOLE) t) (map range_request (e820_ranges area))"
proof -
  show "list_all good_request (map range_request (e820_ranges area))"
    using rm_wf_less [OF assms(1)] by (auto simp: list_all_iff range_request_def good_request_def)
  have "ty r \<noteq> E820_HOLE" if "r \<in> set (e820_ranges area)" for r
  proof -
    have "Some (ty r) = rm_lookup (e820_ranges area) (lo r)" using rm_lookup_lo [OF assms(1) that] by simp
    also have "\<dots> = Some EfiAcpiAddressRangeMemory \<or> \<dots> = Some EfiAcpiAddressRangeReserved \<or>
        \<dots> = paint (map descriptor_request qs) (lo r) None"
      using assms(2) by auto
    finally consider "ty r = EfiAcpiAddressRangeMemory" | "ty r = EfiAcpiAddressRangeReserved"
      | "paint (map descriptor_request qs) (lo r) None = Some (ty r)" by fastforce
    then show ?thesis
    proof cases
      case 3
      then show ?thesis using paint_SomeD [OF 3] by (auto simp: descriptor_request_def convert_memory_type_not_hole [symmetric])
    qed (simp_all add: e820_type_defs E820_HOLE_def)
  qed
  then show "list_all (\<lambda>(st, sz, t). pred_option (\<lambda>y. y \<noteq> E820_HOLE) t) (map range_request (e820_ranges area))"
    by (auto simp: list_all_iff range_request_def)
qed


text \<open>SeaBIOS with an empty map, on the memory that CSMWrap leaves on the example machine.\<close>

definition sea_start :: "mem \<Rightarrow> csm16" where
  "sea_start m = \<lparr>ram = m, heap = heap_example, emap = \<lparr>e820_count = 0, e820_list = replicate BUILD_MAX_E820 \<lparr>e_start = 0, e_size = 0, e_type = 0\<rparr>\<rparr>,
     csm_init_table = 0, csm_boot_table = 0, PICMask = 0, PirAddr = 0, RsdpAddr = 0\<rparr>"

lemma sea_start_ranges: "sea_ranges (emap (sea_start m)) = []" "sea_invar (emap (sea_start m))"
  by (simp_all add: sea_start_def sea_ranges_def sea_invar_def e820_ranges_def e820_invar_def BUILD_MAX_E820_def E820_MAX_ENTRIES_def)

lemma example_length:
  assumes "em_prepare (fw_example 0) images_example start_example = Running s'"
  shows "unat (load32 (mem s') (placed_table images_example s' + ct_E820Length)) div 20 \<le> 10"
proof -
  from assms example_pools example_placed [OF assms] example_memory_map obtain n d bytes key desc d' area where
    g: "GetMemoryMap (fw_example 0) n d = ((EFI_SUCCESS, bytes, length bytes, key, desc), d')" and inv: "e820_invar area"
    and "rm_wf (e820_ranges area)" and l: "length (e820_ranges area) \<le> 2 * length (map_descriptors bytes desc) + 8"
    and "\<forall>a. rm_lookup (e820_ranges area) a =
      (if a < 0x80000 then Some EfiAcpiAddressRangeMemory else if a < 0x100000 then Some EfiAcpiAddressRangeReserved
       else paint (map descriptor_request (map_descriptors bytes desc)) a None)"
    and "load32 (mem s') (placed_table images_example s' + ct_E820Pointer) = of_nat low_e820_map"
    and len: "load32 (mem s') (placed_table images_example s' + ct_E820Length) = 20 * of_nat (e820_entries area)"
    and "\<forall>i < e820_entries area. load_bytes (mem s') (low_e820_map + 20 * i) 20 = e820_entry_bytes (e820_map area ! i)"
    by (rule prepared_ranges)
  have "bytes = map_example" "desc = 48" using g by (auto simp: fw_example_def EFI_SUCCESS_def EFI_UNSUPPORTED_def split: if_splits)
  then have "e820_entries area \<le> 10" using l length_e820_ranges [OF inv] by (simp add: example_descriptors)
  then show ?thesis by (simp add: len unat_word_ariths unat_of_nat)
qed


end
