(* ===== verification/Spec2Isabelle.thy ===== *)
theory Spec2Isabelle
  imports Palette_Flush Text_Mode E820_Handover
begin

text \<open>
  Verification of CSMWrap, a UEFI application that carries a Compatibility Support Module (CSM, a SeaBIOS
  build) and a VGA BIOS (SeaVGABIOS), prepares the machine for them and starts legacy boot.

  \<^bold>\<open>The program.\<close>  \<^verbatim>\<open>efi_main\<close> (\<^verbatim>\<open>src/csmwrap.c\<close>) unlocks the BIOS region below 1 MiB, finds the table of the CSM
  image, copies the ACPI root pointer into the image, chooses a VGA BIOS, lays out the low memory
  (thunk, tables, memory map), writes a coreboot table with the frame buffer, leaves the boot services of UEFI, turns the
  UEFI memory map into an E820 map, copies the ROM images and calls the CSM in real mode.  SeaBIOS then runs the entry
  points of \<^verbatim>\<open>seabios/src/fw/csm.c\<close>, which use its allocator, its memory map and the post memory manager;
  SeaVGABIOS reads the coreboot table and emulates VGA modes and text on the frame buffer.

  \<^bold>\<open>Theories.\<close>  Paths are relative to \<^verbatim>\<open>src/\<close> of the repository.

    \<^item> \<open>CSM_Prelude\<close>: word types, flat memory, little-endian loads and stores, array shifts.
    \<^item> \<open>Range_Map\<close>: reference model of a memory map and the interface \<open>range_store\<close>; \<open>E820\<close> (\<^verbatim>\<open>src/e820.c\<close>) and
      \<open>Seabios_E820\<close> (\<^verbatim>\<open>seabios/src/e820map.c\<close>) are its two instances \<open>csm\<close> and \<open>sea\<close>.
    \<^item> \<open>Libc\<close> (\<^verbatim>\<open>src/libc.c\<close>) with the interface \<open>block_mover\<close>; \<open>Seabios_String\<close>
      (\<^verbatim>\<open>seabios/src/string.c\<close>) is its second instance.
    \<^item> \<open>Pci_Io\<close> (\<^verbatim>\<open>src/io.h\<close>), \<open>Unlock_Region\<close> (\<^verbatim>\<open>src/unlock_region.c\<close>), \<open>Workarounds\<close>
      (\<^verbatim>\<open>src/intel_workarounds.c\<close>): hardware access in the state monad of a device state.
    \<^item> \<open>Thunk\<close> (\<^verbatim>\<open>src/x86thunk.c\<close>): descriptors, register block and far calls into real mode.
    \<^item> \<open>Coreboot\<close> (\<^verbatim>\<open>src/coreboot.c\<close> and the reader in \<^verbatim>\<open>seabios/src/fw/coreboot.c\<close>).
    \<^item> \<open>Option_Rom\<close> and \<open>Video\<close> (\<^verbatim>\<open>src/video.c\<close>), \<open>Calendar\<close> and \<open>Acpi\<close> (\<^verbatim>\<open>src/acpi.c\<close>).
    \<^item> \<open>Csmwrap\<close> (\<^verbatim>\<open>src/csmwrap.c\<close>): \<^verbatim>\<open>efi_main\<close> as the phases \<open>em_start\<close> to \<open>em_calls\<close> over the record \<open>csmwrap\<close>;
      \<open>Csmwrap_Run\<close> has the lemmas on runs, \<open>Csmwrap_Boot\<close> the theorems and an example machine.
    \<^item> \<open>Seabios_Malloc\<close> (\<^verbatim>\<open>malloc.c\<close>), \<open>Seabios_Pmm\<close> (\<^verbatim>\<open>pmm.c\<close>), \<open>Bregs\<close> (\<^verbatim>\<open>bregs.h\<close>), \<open>Csm16\<close> (\<^verbatim>\<open>fw/csm.c\<close>), all
      under \<^verbatim>\<open>seabios/src\<close>.
    \<^item> \<open>Palette\<close>, \<open>Palette_Flush\<close> (\<^verbatim>\<open>cbvga_palette_emulator.c\<close>), \<open>Cbvga\<close> (\<^verbatim>\<open>cbvga.c\<close>, \<^verbatim>\<open>svgamodes.c\<close>) and \<open>Text_Mode\<close>
      (\<^verbatim>\<open>16colorsmode.c\<close>), all under \<^verbatim>\<open>seabios/vgasrc\<close>.
    \<^item> \<open>E820_Handover\<close> and this theory: properties across components.

  \<^bold>\<open>State and operations.\<close>  Structures and groups of global variables are records, pointers are addresses into
  one flat memory, integers keep their width, C functions are HOL functions that take and return the state they
  change.  Null pointers, divisions by zero, accesses outside an array and loops that do not end are \<open>None\<close> (or the
  outcome \<open>Stuck\<close> of a phase); status codes are values.  UEFI services, the hardware, the 16-bit assembly,
  the images that the build generates and the parts of SeaBIOS that are not modelled are parameters; what is relied on of
  them is stated by named predicates (\<open>mechanism1\<close>, \<open>region_ram\<close>, \<open>pools_ok\<close>, \<open>memory_map_ok\<close>, \<open>platform_ok\<close>, \<open>display_ok\<close>,
  \<open>services_ok\<close>, \<open>thunk_layout\<close> and others), each of them met by a concrete example.

  \<^bold>\<open>What is shown.\<close>

    \<^item> Handover: the UEFI memory map reaches SeaBIOS address by address (\<open>e820_handover\<close>); the graphics mode of the
      firmware reaches the VGA driver with its geometry and colour masks (\<open>framebuffer_handover\<close>); the CSM finds correct
      tables (\<open>csm_tables_correct\<close>).
    \<^item> The main program: it starts the CSM when the firmware does what it promises (\<open>efi_main_boots\<close>), and leaves
      0x80000 to 1 MiB alone when it gives up (\<open>efi_main_gives_up\<close>).
    \<^item> Memory maps: both implementations give the new type to exactly the addresses of a range and keep the map sorted,
      disjoint and merged, and they agree with each other.
    \<^item> Memory management: blocks are aligned, inside their zone and disjoint, freeing undoes allocating, PMM calls and ROM
      reservations keep the heap well formed.
    \<^item> Hardware and firmware interfaces: configuration space, unlocking, workaround, far calls, option ROM search, video
      choice, ACPI root pointer and clock.
    \<^item> Display: the flush shows each shadow pixel in the specified colour, drawing the cursor twice restores the
      screen, the text mode stays inside its buffer, the mode list is complete.

  \<^bold>\<open>Loops and bounds.\<close>  No definition uses fuel.  Loops over a bounded range are structural or have a termination proof;
  the searches through a coreboot table and through option ROM images, which may not end, are partial
  functions, and the theorems on them show a result.  Capacities are those of the source (128 entries of a memory map, 82 video modes,
  128 attempts to leave boot services); the theorems that need room in a table say how much.

  \<^bold>\<open>Not modelled.\<close>  uACPI, nanoprintf, the compiler runtime and the UEFI headers are third-party code that the program only
  calls or includes; messages have no effect on the modelled state.  The rest of SeaBIOS (drivers, interrupt
  services, POST, boot selection, tables for emulators) runs after the handover and talks to devices that the
  repository does not describe; where an entry point of the CSM calls it, it is a field of \<open>sea_rest\<close>.  Other VGA
  drivers of SeaVGABIOS are not part of this build.  Self-modifying and mode-switching assembly (\<^verbatim>\<open>Thunk16.asm\<close>,
  \<^verbatim>\<open>romlayout.S\<close>, \<^verbatim>\<open>vgaentry.S\<close>) is a parameter.  Caches, interrupts during the run and concurrent processors are not
  represented.  Of \<^verbatim>\<open>io.h\<close>, \<^verbatim>\<open>string.c\<close>, \<^verbatim>\<open>bregs.h\<close> and \<^verbatim>\<open>fw/coreboot.c\<close> the parts that the modelled code uses are covered.
\<close>

section \<open>From the display of the firmware to the VGA driver\<close>

text \<open>
  The colour masks of a graphics mode as the UEFI specification gives them, and the modes whose masks
  are runs of bits.
\<close>

definition channel_masks :: "gop_mode_info \<Rightarrow> u32 \<times> u32 \<times> u32" where
  "channel_masks gi =
     (case PixelFormat gi of
        PixelRedGreenBlueReserved8BitPerColor \<Rightarrow> (0xFF, 0xFF00, 0xFF0000)
      | PixelBlueGreenRedReserved8BitPerColor \<Rightarrow> (0xFF0000, 0xFF00, 0xFF)
      | _ \<Rightarrow> (RedMask gi, GreenMask gi, BlueMask gi))"

definition bit_run :: "u32 \<Rightarrow> bool" where
  "bit_run w \<longleftrightarrow> (\<exists>p n. w = push_bit p (mask n) \<and> 0 < n \<and> p + n \<le> 32)"

definition mode_fits :: "gop_mode_info \<Rightarrow> bool" where
  "mode_fits gi \<longleftrightarrow>
     0 < HorizontalResolution gi \<and> HorizontalResolution gi < 0x10000 \<and>
     0 < VerticalResolution gi \<and> VerticalResolution gi < 0x10000 \<and>
     HorizontalResolution gi \<le> PixelsPerScanLine gi \<and> PixelsPerScanLine gi < 0x40000000 \<and>
     (PixelFormat gi = PixelBitMask \<longrightarrow> bit_run (RedMask gi) \<and> bit_run (GreenMask gi) \<and> bit_run (BlueMask gi))"

lemma bit_run_popcount: "bit_run w \<Longrightarrow> (word_of_int (builtin_popcount w) :: u8) \<noteq> 0"
proof
  assume "bit_run w" and z: "(word_of_int (builtin_popcount w) :: u8) = 0"
  then obtain p n where w: "w = push_bit p (mask n)" "0 < n" "p + n \<le> 32" by (auto simp: bit_run_def)
  have "w = 0" using shifted_mask_recovered [OF w] by (simp add: z)
  moreover have "bit w p" using w by (simp add: bit_simps)
  ultimately show False by simp
qed

lemma gop_masks_recovered:
  assumes "gop_masks gi fb = Some fb'" "mode_fits gi"
  shows "red_mask_size fb' \<noteq> 0" "green_mask_size fb' \<noteq> 0" "blue_mask_size fb' \<noteq> 0"
    "channel_masks gi = (push_bit (unat (red_mask_pos fb')) (mask (unat (red_mask_size fb'))),
       push_bit (unat (green_mask_pos fb')) (mask (unat (green_mask_size fb'))),
       push_bit (unat (blue_mask_pos fb')) (mask (unat (blue_mask_size fb'))))"
proof -
  have b: "push_bit (unat (word_of_int (builtin_ffs w - 1) :: u8)) (mask (unat (word_of_int (builtin_popcount w) :: u8))) = w"
    if "bit_run w" for w
    using that shifted_mask_recovered unfolding bit_run_def by blast
  show "red_mask_size fb' \<noteq> 0" "green_mask_size fb' \<noteq> 0" "blue_mask_size fb' \<noteq> 0"
    using assms bit_run_popcount
    by (auto simp: gop_masks_def mode_fits_def split: EFI_GRAPHICS_PIXEL_FORMAT.splits)
  show "channel_masks gi = (push_bit (unat (red_mask_pos fb')) (mask (unat (red_mask_size fb'))),
       push_bit (unat (green_mask_pos fb')) (mask (unat (green_mask_size fb'))),
       push_bit (unat (blue_mask_pos fb')) (mask (unat (blue_mask_size fb'))))"
    using assms
    by (auto simp: gop_masks_def mode_fits_def channel_masks_def b [simplified mask_eq_exp_minus_1 push_bit_eq_mult, simplified]
        mask_eq_exp_minus_1 push_bit_eq_mult split: EFI_GRAPHICS_PIXEL_FORMAT.splits)
qed

text \<open>A usable record is taken over field by field.\<close>

lemma setup_framebuffer_taken:
  assumes "physical_address f \<noteq> 0" "physical_address f \<le> 0xFFFFFFFF" "x_resolution f \<noteq> 0" "y_resolution f \<noteq> 0"
    and "cb_framebuffer.bits_per_pixel f = 32" "x_resolution f < 0x40000000" "4 * unat (x_resolution f) \<le> unat (bytes_per_line f)"
    and "red_mask_size f \<noteq> 0" "green_mask_size f \<noteq> 0" "blue_mask_size f \<noteq> 0"
  shows "\<exists>c'. setup_framebuffer f c = Some c' \<and> CBmode c' = 0x143 \<and> VBE_framebuffer c' = ucast (physical_address f) \<and>
    CBlinelength c' = bytes_per_line f \<and> width (CBmodeinfo c') = ucast (x_resolution f) \<and>
    height (CBmodeinfo c') = ucast (y_resolution f) \<and> depth (CBmodeinfo c') = 32 \<and>
    CBred_size c' = red_mask_size f \<and> CBgreen_size c' = green_mask_size f \<and> CBblue_size c' = blue_mask_size f \<and>
    CBred_pos c' = red_mask_pos f \<and> CBgreen_pos c' = green_mask_pos f \<and> CBblue_pos c' = blue_mask_pos f"
proof -
  have e: "effective_bpp 32 x l = 32" for x l by (simp add: effective_bpp_def)
  have "unat (min_stride 32 (x_resolution f)) = unat (x_resolution f) * (unat (32 :: u32) div 8)"
    using assms(6) by (intro min_stride_exact) simp_all
  then have s: "\<not> bytes_per_line f < min_stride 32 (x_resolution f)" using assms(7) by (simp add: word_less_nat_alt)
  have l: "bytes_per_line f \<noteq> 0" using assms(3,7) by (auto simp: unat_eq_0)
  show ?thesis
    using assms s l
    by (auto simp: setup_framebuffer_cases e with_masks_def Let_def default_masks_same cbvga_setup_modes_def
        cbvga_init_text_palette_def)
qed

text \<open>
  C2.  The display of the firmware reaches the VGA driver.  When \<^verbatim>\<open>csmwrap_video_seavgabios_init\<close> of CSMWrap
  accepts a graphics mode, the coreboot table that \<^verbatim>\<open>build_coreboot_table\<close> writes makes \<^verbatim>\<open>cbvga_setup\<close> of
  SeaVGABIOS take that mode: the same frame buffer address, resolution and pitch, 32 bits per pixel, and
  positions and sizes of the colour channels that denote exactly the colour masks of the mode.
\<close>

theorem framebuffer_handover:
  assumes "csmwrap_video_seavgabios_init I v d = Some (0, v', d')"
    and "gop v = Some g" "gop_Mode g = Some md" "gop_QueryMode g (mode_Mode md) d = ((st, gi), d1)" "mode_fits gi"
    and "build_coreboot_table (video_type v') (cb_fb v') pad m = (m', r)"
    and "\<forall>a < 0x500. a mod 16 = 0 \<longrightarrow> load32 m a \<noteq> CB_SIGNATURE" "\<not> HaveRunInit c"
  shows "\<exists>c'. cbvga_setup m' c = Some (c', 0) \<and> CBmode c' = 0x143 \<and>
    ucast (VBE_framebuffer c') = FrameBufferBase md \<and>
    unat (width (CBmodeinfo c')) = unat (HorizontalResolution gi) \<and>
    unat (height (CBmodeinfo c')) = unat (VerticalResolution gi) \<and> depth (CBmodeinfo c') = 32 \<and>
    unat (CBlinelength c') = 4 * unat (PixelsPerScanLine gi) \<and>
    channel_masks gi = (push_bit (unat (CBred_pos c')) (mask (unat (CBred_size c'))),
      push_bit (unat (CBgreen_pos c')) (mask (unat (CBgreen_size c'))),
      push_bit (unat (CBblue_pos c')) (mask (unat (CBblue_size c'))))"
proof -
  let ?fb = "(cb_fb v)\<lparr>physical_address := FrameBufferBase md, x_resolution := HorizontalResolution gi,
      y_resolution := VerticalResolution gi, bytes_per_line := PixelsPerScanLine gi * 4,
      cb_framebuffer.bits_per_pixel := 32\<rparr>"
  from seavgabios_init_cases [OF assms(1)] assms(2-4) obtain fb where
    fb: "FrameBufferBase md \<noteq> 0" "FrameBufferBase md \<le> 0xFFFFFFFF" "gop_masks gi ?fb = Some fb"
      "cb_fb v' = fb" "video_type v' = CSMWRAP_VIDEO_SEAVGABIOS"
    by auto
  note keep = gop_masks_keep [OF fb(3)] and masks = gop_masks_recovered [OF fb(3) assms(5)]
  let ?f = "fb\<lparr>fb_tag := CB_TAG_FRAMEBUFFER, fb_size := 40\<rparr>"
  have "find_cb_table m' = Some (Some 0x500) \<and> find_cb_subtable m' 0x500 CB_TAG_FRAMEBUFFER = Some 0x518 \<and>
      read_cb_framebuffer m' 0x518 = ?f"
    using coreboot_table_read [OF _ assms(7,6)] fb(4,5) by simp
  then have su: "cbvga_setup m' c = map_option (\<lambda>c. (c, 0)) (setup_framebuffer ?f c)"
    using assms(8) by (simp add: cbvga_setup_def)
  have fits: "unat (HorizontalResolution gi) < 0x10000" "unat (VerticalResolution gi) < 0x10000"
      "unat (PixelsPerScanLine gi) < 0x40000000" "HorizontalResolution gi \<noteq> 0" "VerticalResolution gi \<noteq> 0"
      "unat (HorizontalResolution gi) \<le> unat (PixelsPerScanLine gi)"
    using assms(5) by (auto simp: mode_fits_def word_less_nat_alt word_le_nat_alt)
  have pitch: "unat (PixelsPerScanLine gi * 4) = 4 * unat (PixelsPerScanLine gi)"
    using fits(3) by (simp add: unat_word_ariths)
  have "\<exists>c'. setup_framebuffer ?f c = Some c' \<and> CBmode c' = 0x143 \<and> VBE_framebuffer c' = ucast (physical_address ?f) \<and>
    CBlinelength c' = bytes_per_line ?f \<and> width (CBmodeinfo c') = ucast (x_resolution ?f) \<and>
    height (CBmodeinfo c') = ucast (y_resolution ?f) \<and> depth (CBmodeinfo c') = 32 \<and>
    CBred_size c' = red_mask_size ?f \<and> CBgreen_size c' = green_mask_size ?f \<and> CBblue_size c' = blue_mask_size ?f \<and>
    CBred_pos c' = red_mask_pos ?f \<and> CBgreen_pos c' = green_mask_pos ?f \<and> CBblue_pos c' = blue_mask_pos ?f"
    by (rule setup_framebuffer_taken) (use fb(1,2) keep masks(1-3) fits pitch in \<open>simp_all add: word_less_nat_alt\<close>)
  then obtain c' where "setup_framebuffer ?f c = Some c'" and c': "CBmode c' = 0x143"
    "VBE_framebuffer c' = ucast (FrameBufferBase md)" "CBlinelength c' = PixelsPerScanLine gi * 4"
    "width (CBmodeinfo c') = ucast (HorizontalResolution gi)" "height (CBmodeinfo c') = ucast (VerticalResolution gi)"
    "depth (CBmodeinfo c') = 32" "CBred_size c' = red_mask_size fb" "CBgreen_size c' = green_mask_size fb"
    "CBblue_size c' = blue_mask_size fb" "CBred_pos c' = red_mask_pos fb" "CBgreen_pos c' = green_mask_pos fb"
    "CBblue_pos c' = blue_mask_pos fb"
    using keep by auto
  moreover have "ucast (ucast (FrameBufferBase md) :: u32) = FrameBufferBase md"
    using fb(2) by (simp add: word_unat_eq_iff unat_ucast_mod word_le_nat_alt)
  ultimately show ?thesis
    using su pitch fits(1,2) masks(4) by (auto simp: unat_ucast_mod intro!: exI [of _ c'])
qed

theorem framebuffer_handover_witness:
  "\<exists>v' c'. csmwrap_video_seavgabios_init \<lparr>vgabios_bin = 0x5000, sizeof_vgabios_bin = 0x8000\<rparr>
      (video_start\<lparr>gop := Some gop_example\<rparr>) () = Some (0, v', ()) \<and>
    cbvga_setup (fst (build_coreboot_table (video_type v') (cb_fb v') (0, 0, 0) (\<lambda>_. 0))) cbvga_boot = Some (c', 0) \<and>
    VBE_framebuffer c' = 0x80000000 \<and> unat (width (CBmodeinfo c')) = 1024 \<and> unat (height (CBmodeinfo c')) = 768 \<and>
    unat (CBlinelength c') = 4096"
proof -
  let ?I = "\<lparr>vgabios_bin = 0x5000, sizeof_vgabios_bin = 0x8000\<rparr>" and ?v = "video_start\<lparr>gop := Some gop_example\<rparr> :: unit video"
  have q: "gop_Mode gop_example = Some \<lparr>mode_Mode = 2, FrameBufferBase = 0x80000000\<rparr>"
    "gop_QueryMode gop_example 2 () = ((0, gop_info_example), ())" by (simp_all add: gop_example_def)
  have "\<exists>v'. csmwrap_video_seavgabios_init ?I ?v () = Some (0, v', ())"
    by (simp add: csmwrap_video_seavgabios_init_def q EFI_ERROR_def gop_info_example_def gop_masks_def)
  then obtain v' where v': "csmwrap_video_seavgabios_init ?I ?v () = Some (0, v', ())" by blast
  obtain m' r where b: "build_coreboot_table (video_type v') (cb_fb v') (0, 0, 0) (\<lambda>_. 0) = (m', r)" by (rule prod.exhaust)
  have "load32 (\<lambda>_. 0) a \<noteq> CB_SIGNATURE" for a by (simp add: load32_def load_bytes_def upt_rec CB_SIGNATURE_def)
  moreover have "mode_fits gop_info_example" by (simp add: mode_fits_def gop_info_example_def)
  moreover have "\<not> HaveRunInit cbvga_boot" by (simp add: cbvga_boot_def)
  ultimately obtain c' where c': "cbvga_setup m' cbvga_boot = Some (c', 0)" "ucast (VBE_framebuffer c') = (0x80000000 :: u64)"
    "unat (width (CBmodeinfo c')) = 1024" "unat (height (CBmodeinfo c')) = 768" "unat (CBlinelength c') = 4096"
    using framebuffer_handover [OF v' _ q(1) _ _ b, of 0 gop_info_example "()" cbvga_boot] q(2)
    by (auto simp: gop_info_example_def)
  have "VBE_framebuffer c' = ucast (ucast (VBE_framebuffer c') :: u64)" by simp
  also have "\<dots> = 0x80000000" by (simp only: c'(2)) simp
  finally show ?thesis using v' b c' by auto
qed

end
